theory Spec2Isabelle
  imports Main "HOL-Library.AList" "HOL-Library.Char_ord" "HOL-Library.List_Lexorder" "HOL-Library.Word"
begin

section \<open>Resource names\<close>

text \<open>
  A resource name is the triple of its API, its remote path and its local name.  The API is
  the triple \<open>(namespace, type, subtype)\<close>; the Go code reads them as
  \<open>k.API.Type.Namespace\<close>, \<open>k.API.Type.Name\<close> and \<open>k.API.SubtypeName\<close>.  The remote path is
  the list of remote hops, outermost first.
\<close>

datatype api = MkAPI (Namespace: string) (TypeName: string) (SubtypeName: string)

datatype resource_name = MkName (API: api) (Remote: "string list") (Name: string)

text \<open>
  Modelled from the spec: the namespaces and the APIs that the resource, client and shell
  packages declare (section 3: the namespaces \<open>rdk\<close> and \<open>rdk-internal\<close>, the types
  \<open>component\<close>, \<open>service\<close> and \<open>remote\<close>).
\<close>

definition APINamespaceRDK :: string where
  "APINamespaceRDK = ''rdk''"

definition APINamespaceRDKInternal :: string where
  "APINamespaceRDKInternal = ''rdk-internal''"

text \<open>\<open>client.RemoteAPI\<close>: the API of the node that stands for a remote robot itself.\<close>

definition RemoteAPI :: api where
  "RemoteAPI = MkAPI APINamespaceRDK ''remote'' ''''"

text \<open>\<open>shell.API\<close>: the API of the shell service.\<close>

definition shell_API :: api where
  "shell_API = MkAPI APINamespaceRDK ''service'' ''shell''"

definition IsComponent :: "api \<Rightarrow> bool" where
  "IsComponent a = (TypeName a = ''component'')"

definition IsService :: "api \<Rightarrow> bool" where
  "IsService a = (TypeName a = ''service'')"

text \<open>
  Modelled from the spec: \<open>NewName\<close>, \<open>PrependRemote\<close> and \<open>ContainsRemoteNames\<close> of the
  resource package (section 3, "Resource Name"): a new name has an empty remote path,
  prepending adds one hop in front, and a name contains remote names when its path is not
  empty.
\<close>

definition NewName :: "api \<Rightarrow> string \<Rightarrow> resource_name" where
  "NewName a s = MkName a [] s"

definition PrependRemote :: "string \<Rightarrow> resource_name \<Rightarrow> resource_name" where
  "PrependRemote r n = MkName (API n) (r # Remote n) (Name n)"

definition ContainsRemoteNames :: "resource_name \<Rightarrow> bool" where
  "ContainsRemoteNames n = (Remote n \<noteq> [])"

definition api_String :: "api \<Rightarrow> string" where
  "api_String a = Namespace a @ '':'' @ TypeName a @ '':'' @ SubtypeName a"

definition name_String :: "resource_name \<Rightarrow> string" where
  "name_String n = api_String (API n) @ ''/'' @ concat (map (\<lambda>r. r @ '':'') (Remote n)) @ Name n"

definition fromRemoteNameToRemoteNodeName :: "string \<Rightarrow> resource_name" where
  "fromRemoteNameToRemoteNodeName name = NewName RemoteAPI name"

section \<open>Configurations\<close>

type_synonym credentials = "string \<times> string"

record RemoteAuth =
  Credentials :: "credentials option"
  Entity :: string
  ExternalAuthAddress :: string
  ExternalAuthInsecure :: bool
  ExternalAuthToEntity :: string
  Managed :: bool
  SignalingServerAddress :: string
  SignalingAuthEntity :: string
  SignalingCreds :: "credentials option"

record RemoteConfig =
  remote_Name :: string
  remote_Address :: string
  remote_Insecure :: bool
  remote_Auth :: RemoteAuth

text \<open>
  Modelled from the spec: \<open>resource.Config\<close> (section 3, "Resource Config"): the API and name
  (which give \<open>ResourceName()\<close>), the model, the symbolic dependencies (\<open>Dependencies()\<close>),
  and the converted attributes, which hold the remote's configuration for a remote node.
  \<open>config.Remote\<close> and its \<open>Auth\<close> have the fields \<open>remoteDialOptions\<close> and \<open>processRemote\<close>
  read.
\<close>

record Config =
  conf_API :: api
  conf_Name :: string
  conf_Model :: string
  conf_DependsOn :: "string list"
  ConvertedAttributes :: "RemoteConfig option"

definition ResourceName :: "Config \<Rightarrow> resource_name" where
  "ResourceName c = NewName (conf_API c) (conf_Name c)"

definition Dependencies :: "Config \<Rightarrow> string list" where
  "Dependencies c = conf_DependsOn c"

definition empty_Config :: Config where
  "empty_Config = \<lparr>conf_API = MkAPI [] [] [], conf_Name = [], conf_Model = [],
     conf_DependsOn = [], ConvertedAttributes = None\<rparr>"

definition unknownModel :: string where
  "unknownModel = ''rdk:builtin:unknown''"

definition builtinModel :: string where
  "builtinModel = ''rdk:builtin:builtin''"

section \<open>Graph nodes\<close>

text \<open>A resource handle is opaque to the manager: it is modelled by an identifier.\<close>

type_synonym resource = string

record GraphNode =
  current :: "resource option"
  currentModel :: string
  node_config :: Config
  unresolvedDependencies :: "string list"
  needsReconfigure :: bool
  needsUpdate :: bool
  lastErr :: "string option"
  markedForRemoval :: bool

text \<open>
  Modelled from the spec: the methods of \<open>resource.GraphNode\<close> (sections 3 and 4.2), whose
  source is not among the files.  A node holds its configuration, a resource handle that
  may be absent, the needs-reconfigure bit set by \<open>SetNewConfig\<close>, the needs-update bit set
  by \<open>SetNeedsUpdate\<close>, the last error and the removal mark.  \<open>SwapResource\<close> stores the
  handle and the model and clears both bits and the last error.  \<open>Resource\<close> gives the
  handle unless the last build failed or no handle is there; \<open>UnsafeResource\<close> gives it
  even after a failure.  \<open>Close\<close> drops the handle and is safe on any state.
\<close>

definition NewConfiguredGraphNode :: "Config \<Rightarrow> resource \<Rightarrow> string \<Rightarrow> GraphNode" where
  "NewConfiguredGraphNode conf res model =
     \<lparr>current = Some res, currentModel = model, node_config = conf, unresolvedDependencies = [],
      needsReconfigure = False, needsUpdate = False, lastErr = None, markedForRemoval = False\<rparr>"

definition NewUnconfiguredGraphNode :: "Config \<Rightarrow> string list \<Rightarrow> GraphNode" where
  "NewUnconfiguredGraphNode conf deps =
     \<lparr>current = None, currentModel = [], node_config = conf, unresolvedDependencies = deps,
      needsReconfigure = True, needsUpdate = False, lastErr = None, markedForRemoval = False\<rparr>"

definition IsUninitialized :: "GraphNode \<Rightarrow> bool" where
  "IsUninitialized w = (current w = None)"

definition HasResource :: "GraphNode \<Rightarrow> bool" where
  "HasResource w = (current w \<noteq> None)"

definition NeedsReconfigure :: "GraphNode \<Rightarrow> bool" where
  "NeedsReconfigure w = (needsReconfigure w \<or> needsUpdate w)"

definition SetNewConfig :: "Config \<Rightarrow> string list \<Rightarrow> GraphNode \<Rightarrow> GraphNode" where
  "SetNewConfig conf deps w =
     w\<lparr>node_config := conf, unresolvedDependencies := deps, needsReconfigure := True\<rparr>"

definition SetNeedsUpdate :: "GraphNode \<Rightarrow> GraphNode" where
  "SetNeedsUpdate w = w\<lparr>needsUpdate := True\<rparr>"

definition SetLastError :: "string \<Rightarrow> GraphNode \<Rightarrow> GraphNode" where
  "SetLastError e w = w\<lparr>lastErr := Some e\<rparr>"

definition SwapResource :: "resource \<Rightarrow> string \<Rightarrow> GraphNode \<Rightarrow> GraphNode" where
  "SwapResource res model w =
     w\<lparr>current := Some res, currentModel := model, needsReconfigure := False,
       needsUpdate := False, lastErr := None\<rparr>"

definition errNotInitialized :: string where
  "errNotInitialized = ''resource not initialized yet''"

definition UnsafeResource :: "GraphNode \<Rightarrow> string + resource" where
  "UnsafeResource w = (case current w of None \<Rightarrow> Inl errNotInitialized | Some r \<Rightarrow> Inr r)"

definition Resource :: "GraphNode \<Rightarrow> string + resource" where
  "Resource w = (case lastErr w of Some e \<Rightarrow> Inl e | None \<Rightarrow> UnsafeResource w)"

definition ResourceModel :: "GraphNode \<Rightarrow> string" where
  "ResourceModel w = currentModel w"

text \<open>
  \<open>Close\<close> gives back the closed node and the handle it held, if any; what the driver's own
  close answers is the caller's to ask of the world.
\<close>

definition Close_node :: "GraphNode \<Rightarrow> GraphNode \<times> resource option" where
  "Close_node w = (w\<lparr>current := None\<rparr>, current w)"

section \<open>The resource graph\<close>

text \<open>
  Modelled from the spec: \<open>resource.Graph\<close> (section 4.1), whose source is not among the
  files.  The graph holds its nodes by name and the edges \<open>(child, parent)\<close>: the child depends
  on the parent.  Go keeps both in maps, whose iteration order is not fixed; here a list gives
  one order, and no theorem below depends on which.
\<close>

record Graph =
  nodes :: "(resource_name \<times> GraphNode) list"
  edges :: "(resource_name \<times> resource_name) list"

definition NewGraph :: Graph where
  "NewGraph = \<lparr>nodes = [], edges = []\<rparr>"

definition Node :: "Graph \<Rightarrow> resource_name \<Rightarrow> GraphNode option" where
  "Node g k = map_of (nodes g) k"

definition Names :: "Graph \<Rightarrow> resource_name list" where
  "Names g = map fst (nodes g)"

text \<open>
  \<open>AddNode\<close> fails when the name is already there with a different node; every caller in
  the manager passes a node it has just made, so a name that is present always fails.
\<close>

definition AddNode :: "resource_name \<Rightarrow> GraphNode \<Rightarrow> Graph \<Rightarrow> string + Graph" where
  "AddNode k w g =
     (if Node g k \<noteq> None then Inl (''node already exists: '' @ name_String k)
      else Inr (g\<lparr>nodes := nodes g @ [(k, w)]\<rparr>))"

text \<open>
  The Go code changes a node through its pointer; the model writes the changed node back
  under its name.
\<close>

definition put_node :: "resource_name \<Rightarrow> GraphNode \<Rightarrow> Graph \<Rightarrow> Graph" where
  "put_node k w g = g\<lparr>nodes := AList.update k w (nodes g)\<rparr>"

definition GetAllChildrenOf :: "Graph \<Rightarrow> resource_name \<Rightarrow> resource_name list" where
  "GetAllChildrenOf g p = remdups (map fst (filter (\<lambda>e. snd e = p) (edges g)))"

definition GetAllParentsOf :: "Graph \<Rightarrow> resource_name \<Rightarrow> resource_name list" where
  "GetAllParentsOf g c = remdups (map snd (filter (\<lambda>e. fst e = c) (edges g)))"

definition RemoveChild :: "resource_name \<Rightarrow> resource_name \<Rightarrow> Graph \<Rightarrow> Graph" where
  "RemoveChild c p g = g\<lparr>edges := removeAll (c, p) (edges g)\<rparr>"

text \<open>
  The names that depend on a root, the root included: a depth-first search along the edges
  from parent to child.  \<open>vis\<close> are the names already found, the last argument is the stack.
\<close>

definition children_in :: "(resource_name \<times> resource_name) list \<Rightarrow> resource_name \<Rightarrow> resource_name list" where
  "children_in es p = map fst (filter (\<lambda>e. snd e = p) es)"

function dfs :: "(resource_name \<times> resource_name) list \<Rightarrow> resource_name list \<Rightarrow> resource_name list \<Rightarrow> resource_name list" where
  "dfs es vis [] = vis"
| "dfs es vis (x # ws) =
     (if x \<in> set vis then dfs es vis ws else dfs es (vis @ [x]) (children_in es x @ ws))"
  by pat_completeness auto
termination
proof (relation "(\<lambda>(es, vis, ws). card ((fst ` set es \<union> set ws) - set vis)) <*mlex*> measure (\<lambda>(es, vis, ws). length ws)")
  show "wf ((\<lambda>(es, vis, ws). card ((fst ` set es \<union> set ws) - set vis)) <*mlex*> measure (\<lambda>(es, vis, ws). length ws))"
    by (simp add: wf_mlex)
next
  fix es :: "(resource_name \<times> resource_name) list"
    and vis ws :: "resource_name list" and x :: resource_name
  assume "x \<in> set vis"
  then have "(fst ` set es \<union> set ws) - set vis = (fst ` set es \<union> set (x # ws)) - set vis"
    by auto
  then show "((es, vis, ws), (es, vis, x # ws))
      \<in> (\<lambda>(es, vis, ws). card ((fst ` set es \<union> set ws) - set vis)) <*mlex*> measure (\<lambda>(es, vis, ws). length ws)"
    by (simp add: mlex_iff)
next
  fix es :: "(resource_name \<times> resource_name) list"
    and vis ws :: "resource_name list" and x :: resource_name
  assume x: "x \<notin> set vis"
  have sub: "set (children_in es x) \<subseteq> fst ` set es"
    by (auto simp: children_in_def)
  have "(fst ` set es \<union> set (children_in es x @ ws)) - set (vis @ [x])
      \<subset> (fst ` set es \<union> set (x # ws)) - set vis"
    using x sub by auto
  then have "card ((fst ` set es \<union> set (children_in es x @ ws)) - set (vis @ [x]))
      < card ((fst ` set es \<union> set (x # ws)) - set vis)"
    by (intro psubset_card_mono) auto
  then show "((es, vis @ [x], children_in es x @ ws), (es, vis, x # ws))
      \<in> (\<lambda>(es, vis, ws). card ((fst ` set es \<union> set ws) - set vis)) <*mlex*> measure (\<lambda>(es, vis, ws). length ws)"
    by (simp add: mlex_iff)
qed

definition descendants :: "(resource_name \<times> resource_name) list \<Rightarrow> resource_name \<Rightarrow> resource_name list" where
  "descendants es r = dfs es [] [r]"

text \<open>
  \<open>AddChild child parent\<close> inserts the edge; it fails on a cycle, that is when the two are
  the same or the parent already depends on the child.
\<close>

definition AddChild :: "resource_name \<Rightarrow> resource_name \<Rightarrow> Graph \<Rightarrow> string + Graph" where
  "AddChild c p g =
     (if c = p then Inl (name_String c @ '' cannot depend on itself'')
      else if p \<in> set (descendants (edges g) c)
        then Inl (''circular dependency between '' @ name_String c @ '' and '' @ name_String p)
      else Inr (g\<lparr>edges := List.insert (c, p) (edges g)\<rparr>))"

text \<open>\<open>SubGraphFrom root\<close>: the root and all that depends on it; an error when the root is no node.\<close>

definition SubGraphFrom :: "Graph \<Rightarrow> resource_name \<Rightarrow> string + Graph" where
  "SubGraphFrom g r =
     (if Node g r = None then Inl (''cannot create sub-graph from non existing node '' @ Name r)
      else Inr \<lparr>nodes = filter (\<lambda>kw. fst kw \<in> set (descendants (edges g) r)) (nodes g),
                edges = filter (\<lambda>e. fst e \<in> set (descendants (edges g) r)
                                   \<and> snd e \<in> set (descendants (edges g) r)) (edges g)\<rparr>)"

text \<open>
  \<open>TopologicalSort\<close> is Kahn's algorithm with ties broken by the name's text: the next name
  is the least one that no remaining name depends on, so a name comes after everything that
  depends on it.  On an acyclic graph (invariant 1) such a name always exists; were there
  none, what remains is given as it stands.
\<close>

fun least_name :: "resource_name list \<Rightarrow> resource_name option" where
  "least_name [] = None"
| "least_name (x # xs) =
     (case least_name xs of
        None \<Rightarrow> Some x
      | Some y \<Rightarrow> if name_String x \<le> name_String y then Some x else Some y)"

lemma least_name_in: "least_name xs = Some x \<Longrightarrow> x \<in> set xs"
  by (induction xs arbitrary: x) (auto split: option.splits if_splits)

definition ready :: "(resource_name \<times> resource_name) list \<Rightarrow> resource_name list \<Rightarrow> resource_name list" where
  "ready es rem = filter (\<lambda>n. \<not> list_ex (\<lambda>c. (c, n) \<in> set es) rem) rem"

function kahn :: "(resource_name \<times> resource_name) list \<Rightarrow> resource_name list \<Rightarrow> resource_name list" where
  "kahn es rem =
     (case least_name (ready es rem) of
        None \<Rightarrow> rem
      | Some x \<Rightarrow> x # kahn es (removeAll x rem))"
  by pat_completeness auto
termination
proof (relation "measure (\<lambda>(es, rem). length rem)")
  show "wf (measure (\<lambda>(es, rem). length rem))" by simp
next
  fix es :: "(resource_name \<times> resource_name) list" and rem x
  assume "least_name (ready es rem) = Some x"
  then have "x \<in> set rem"
    by (auto dest!: least_name_in simp: ready_def)
  then have "length (removeAll x rem) < length rem"
    by (induction rem) (auto simp: less_Suc_eq_le intro: le_trans [OF length_removeAll_less_eq])
  then show "((es, removeAll x rem), (es, rem)) \<in> measure (\<lambda>(es, rem). length rem)"
    by simp
qed

declare kahn.simps [simp del]

definition TopologicalSort :: "Graph \<Rightarrow> resource_name list" where
  "TopologicalSort g = kahn (edges g) (remdups (Names g))"

definition ReverseTopologicalSort :: "Graph \<Rightarrow> resource_name list" where
  "ReverseTopologicalSort g = rev (TopologicalSort g)"

definition FindNodesByAPI :: "Graph \<Rightarrow> api \<Rightarrow> resource_name list" where
  "FindNodesByAPI g a = filter (\<lambda>k. API k = a) (Names g)"

text \<open>
  \<open>FindNodesByShortNameAndAPI\<close> is the partial-match resolver: the names of the graph with the
  API and the local name of the given one, whatever their remote path.
\<close>

definition FindNodesByShortNameAndAPI :: "Graph \<Rightarrow> resource_name \<Rightarrow> resource_name list" where
  "FindNodesByShortNameAndAPI g name =
     filter (\<lambda>k. API k = API name \<and> Name k = Name name) (remdups (Names g))"

section \<open>The resource manager\<close>

record resourceManagerOptions =
  debug :: bool
  fromCommand :: bool
  allowInsecureCreds :: bool
  untrustedEnv :: bool
  tlsConfig :: "string option"

text \<open>What the manager writes to its logger: the level, the message and the values logged with it.\<close>

datatype log_entry = Errorw string "string list" | Debugw string "string list"

text \<open>
  The manager: the graph, the process manager (of a type \<open>'pm\<close> the manager does not look
  into), the options and the log written so far.
\<close>

record 'pm resourceManager =
  resources :: Graph
  processManager :: 'pm
  opts :: resourceManagerOptions
  logger :: "log_entry list"

definition log :: "log_entry \<Rightarrow> 'pm resourceManager \<Rightarrow> 'pm resourceManager" where
  "log e manager = manager\<lparr>logger := logger manager @ [e]\<rparr>"

definition set_node :: "resource_name \<Rightarrow> GraphNode \<Rightarrow> 'pm resourceManager \<Rightarrow> 'pm resourceManager" where
  "set_node k w manager = manager\<lparr>resources := put_node k w (resources manager)\<rparr>"

text \<open>\<open>multierr.Combine\<close> of two errors, each possibly nil.\<close>

definition Combine :: "string option \<Rightarrow> string option \<Rightarrow> string option" where
  "Combine a b =
     (case a of
        None \<Rightarrow> b
      | Some x \<Rightarrow> (case b of None \<Rightarrow> Some x | Some y \<Rightarrow> Some (x @ ''; '' @ y)))"

subsection \<open>ResourceNames\<close>

fun ResourceNames_loop :: "Graph \<Rightarrow> resource_name list \<Rightarrow> resource_name list \<Rightarrow> resource_name list" where
  "ResourceNames_loop g [] names = names"
| "ResourceNames_loop g (k # ks) names =
     (if API k = RemoteAPI \<or> Namespace (API k) = APINamespaceRDKInternal
      then ResourceNames_loop g ks names
      else (case Node g k of
              None \<Rightarrow> ResourceNames_loop g ks names
            | Some gNode \<Rightarrow>
                if \<not> HasResource gNode then ResourceNames_loop g ks names
                else ResourceNames_loop g ks (names @ [k])))"

definition ResourceNames :: "'pm resourceManager \<Rightarrow> resource_name list" where
  "ResourceNames manager = ResourceNames_loop (resources manager) (Names (resources manager)) []"

subsection \<open>ResourceByName\<close>

datatype lookup_error =
    NotAvailableError resource_name string
  | RemoteResourceClashError string
  | NotFoundError resource_name

definition ResourceByName :: "'pm resourceManager \<Rightarrow> resource_name \<Rightarrow> lookup_error + resource" where
  "ResourceByName manager name =
     (case Node (resources manager) name of
        Some gNode \<Rightarrow>
          (case Resource gNode of
             Inl err \<Rightarrow> Inl (NotAvailableError name err)
           | Inr res \<Rightarrow> Inr res)
      | None \<Rightarrow>
          if \<not> ContainsRemoteNames name then
            (case FindNodesByShortNameAndAPI (resources manager) name of
               [] \<Rightarrow> Inl (NotFoundError name)
             | [key] \<Rightarrow>
                 (case Node (resources manager) key of
                    Some gNode \<Rightarrow>
                      (case Resource gNode of
                         Inl err \<Rightarrow> Inl (NotAvailableError name err)
                       | Inr res \<Rightarrow> Inr res)
                  | None \<Rightarrow> Inl (NotFoundError name))
             | _ \<Rightarrow> Inl (RemoteResourceClashError (Name name)))
          else Inl (NotFoundError name))"

section \<open>The world around the manager\<close>

text \<open>
  A remote robot as the manager sees it through its client: the names it reports, the client
  handle (or the error) it gives for a name, and the RPC APIs it reports.
\<close>

datatype client_error = ErrMissingClientRegistration string | ClientError string

datatype ServiceDescriptor = MkServiceDescriptor (GetFullyQualifiedName: string) (desc_methods: "string list")

record RemoteRobot =
  rr_ResourceNames :: "resource_name list"
  rr_ResourceByName :: "resource_name \<Rightarrow> client_error + resource"
  rr_ResourceRPCAPIs :: "(api \<times> ServiceDescriptor) list"

datatype reconfigure_error = MustRebuildError string | ReconfigureError string

text \<open>
  The collaborators the manager calls and does not own.  \<open>as_robot\<close> is the type assertion
  to a robot interface: the robot behind a handle, when there is one.  \<open>resource_Close\<close> is
  the error of the driver's \<open>Close\<close>.  \<open>RegisteredAPIs\<close> is the local registry: for a registered
  API its reflected service descriptor, which may be nil.  The others are the validators, the
  constructor and dependency lookup of the local robot, the driver's \<open>Reconfigure\<close> and the
  module manager.
\<close>

record world =
  as_robot :: "resource \<Rightarrow> RemoteRobot option"
  resource_Close :: "resource \<Rightarrow> string option"
  resource_Name :: "resource \<Rightarrow> resource_name"
  resource_Reconfigure ::
    "resource \<Rightarrow> (resource_name \<times> resource) list \<Rightarrow> Config \<Rightarrow> reconfigure_error option"
  RegisteredAPIs :: "api \<Rightarrow> ServiceDescriptor option option"
  conf_Validate :: "Config \<Rightarrow> string \<Rightarrow> string option"
  remote_Validate :: "RemoteConfig \<Rightarrow> string option"
  newResource :: "Graph \<Rightarrow> GraphNode \<Rightarrow> Config \<Rightarrow> string + resource"
  getDependencies ::
    "Graph \<Rightarrow> resource_name \<Rightarrow> GraphNode \<Rightarrow> string + (resource_name \<times> resource) list"
  mod_Provides :: "Config \<Rightarrow> bool"
  mod_ValidateConfig :: "Config \<Rightarrow> string option"
  mod_ReconfigureResource :: "Config \<Rightarrow> string list \<Rightarrow> string option"
  mod_IsModularResource :: "resource_name \<Rightarrow> bool"
  mod_RemoveResource :: "resource_name \<Rightarrow> string option"

section \<open>Marking children for update\<close>

definition markChildren_step :: "resource_name \<Rightarrow> resource_name \<Rightarrow> 'pm resourceManager \<Rightarrow> 'pm resourceManager" where
  "markChildren_step rName name manager =
     (if name = rName \<or> ContainsRemoteNames name then manager
      else (case Node (resources manager) name of
              None \<Rightarrow> manager
            | Some gNode \<Rightarrow> set_node name (SetNeedsUpdate gNode) manager))"

definition markChildrenForUpdate :: "resource_name \<Rightarrow> 'pm resourceManager \<Rightarrow> string + 'pm resourceManager" where
  "markChildrenForUpdate rName manager =
     (case SubGraphFrom (resources manager) rName of
        Inl err \<Rightarrow> Inl err
      | Inr sg \<Rightarrow> Inr (fold (markChildren_step rName) (TopologicalSort sg) manager))"

section \<open>Remote reconciliation\<close>

definition remoteResourceNames :: "'pm resourceManager \<Rightarrow> resource_name \<Rightarrow> 'pm resourceManager \<times> resource_name list" where
  "remoteResourceNames manager remoteName =
     ((if Node (resources manager) remoteName = None
       then log (Errorw ''trying to get remote resources of a non existing remote''
                   [''remote'', name_String remoteName]) manager
       else manager),
      filter ContainsRemoteNames (GetAllChildrenOf (resources manager) remoteName))"

definition couldnt_obtain :: string where
  "couldnt_obtain = ''couldn'' @ [CHR 0x27] @ ''t obtain remote resource interface''"

text \<open>
  \<open>activeResourceNames\<close> is a Go map from names to booleans: here a list of pairs with one
  entry per name, written with \<open>AList.update\<close> and read with \<open>map_of\<close>.

  The body of the first loop of \<open>updateRemoteResourceNames\<close>, for one name the remote reports.
\<close>

definition updateRemote_new ::
  "resource_name \<Rightarrow> RemoteRobot \<Rightarrow> resource_name
    \<Rightarrow> 'pm resourceManager \<times> (resource_name \<times> bool) list \<times> bool
    \<Rightarrow> 'pm resourceManager \<times> (resource_name \<times> bool) list \<times> bool" where
  "updateRemote_new remoteName rr remoteResName s =
     (case s of (manager, activeResourceNames, anythingChanged) \<Rightarrow>
      (case rr_ResourceByName rr remoteResName of
         Inl err \<Rightarrow>
           (log (case err of
                   ErrMissingClientRegistration msg \<Rightarrow>
                     Debugw couldnt_obtain
                       [''name'', name_String remoteResName, ''reason'', msg]
                 | ClientError msg \<Rightarrow>
                     Errorw couldnt_obtain
                       [''name'', name_String remoteResName, ''reason'', msg]) manager,
            activeResourceNames, anythingChanged)
       | Inr res \<Rightarrow>
           (let resName = PrependRemote (Name remoteName) remoteResName;
                found = Node (resources manager) resName;
                alreadyCurrent = (map_of activeResourceNames resName \<noteq> None);
                active1 = (if alreadyCurrent then AList.update resName True activeResourceNames
                           else activeResourceNames)
            in if alreadyCurrent \<and> (case found of Some gNode \<Rightarrow> \<not> IsUninitialized gNode | None \<Rightarrow> False)
               then (manager, active1, anythingChanged)
               else
                 (let manager1 =
                        (case found of
                           Some gNode \<Rightarrow> set_node resName (SwapResource res unknownModel gNode) manager
                         | None \<Rightarrow>
                             (case AddNode resName (NewConfiguredGraphNode empty_Config res unknownModel)
                                     (resources manager) of
                                Inl err \<Rightarrow>
                                  log (Errorw ''failed to add remote resource node''
                                         [''name'', name_String resName, ''error'', err]) manager
                              | Inr g \<Rightarrow> manager\<lparr>resources := g\<rparr>))
                  in case AddChild resName remoteName (resources manager1) of
                       Inl err \<Rightarrow>
                         (log (Errorw ''error while trying add node as a dependency of remote''
                                 [''node'', name_String resName, ''remote'', name_String remoteName])
                            manager1,
                          active1, anythingChanged)
                     | Inr g \<Rightarrow> (manager1\<lparr>resources := g\<rparr>, active1, True)))))"

text \<open>The body of the second loop, for one entry of \<open>activeResourceNames\<close>.\<close>

definition updateRemote_old ::
  "world \<Rightarrow> resource_name \<times> bool \<Rightarrow> 'pm resourceManager \<times> bool \<Rightarrow> 'pm resourceManager \<times> bool" where
  "updateRemote_old w entry s =
     (case entry of (resName, isActive) \<Rightarrow>
      case s of (manager, anythingChanged) \<Rightarrow>
      if isActive then (manager, anythingChanged)
      else
        (let manager0 = log (Debugw ''removing remote resource'' [''name'', name_String resName]) manager
         in case markChildrenForUpdate resName manager0 of
              Inl err \<Rightarrow>
                (log (Errorw ''failed to mark children of remote for update''
                        [''resource'', name_String resName, ''reason'', err]) manager0,
                 anythingChanged)
            | Inr manager1 \<Rightarrow>
                (case Node (resources manager1) resName of
                   None \<Rightarrow>
                     (log (Errorw ''failed to find remote node for closure''
                             [''resource'', name_String resName]) manager1,
                      anythingChanged)
                 | Some gNode \<Rightarrow>
                     (let manager2 = set_node resName (fst (Close_node gNode)) manager1
                      in ((case Option.bind (snd (Close_node gNode)) (resource_Close w) of
                             Some err \<Rightarrow>
                               log (Errorw ''failed to close remote node''
                                      [''resource'', name_String resName, ''reason'', err]) manager2
                           | None \<Rightarrow> manager2),
                          True)))))"

definition updateRemoteResourceNames ::
  "world \<Rightarrow> resource_name \<Rightarrow> RemoteRobot \<Rightarrow> 'pm resourceManager \<Rightarrow> 'pm resourceManager \<times> bool" where
  "updateRemoteResourceNames w remoteName rr manager =
     (let newResources = rr_ResourceNames rr;
          old = remoteResourceNames manager remoteName;
          active0 = fold (\<lambda>res active. AList.update res False active) (snd old) [];
          s1 = fold (updateRemote_new remoteName rr) newResources (fst old, active0, False)
      in fold (updateRemote_old w) (fst (snd s1)) (fst s1, snd (snd s1)))"

text \<open>
  One pull cycle.  In \<open>anythingChanged = anythingChanged || manager.updateRemoteResourceNames(...)\<close>
  Go evaluates the right operand only when the left one is false.  The node of a name just
  read from the graph is not nil; were it nil, \<open>gNode.Resource()\<close> would panic, which is the
  \<open>Inl\<close> below.
\<close>

fun updateRemotes_loop ::
  "world \<Rightarrow> resource_name list \<Rightarrow> 'pm resourceManager \<times> bool \<Rightarrow> string + 'pm resourceManager \<times> bool" where
  "updateRemotes_loop w [] s = Inr s"
| "updateRemotes_loop w (name # names) (manager, anythingChanged) =
     (if API name = RemoteAPI then
        (case Node (resources manager) name of
           None \<Rightarrow> Inl ''invalid memory address or nil pointer dereference''
         | Some gNode \<Rightarrow>
             (case Resource gNode of
                Inl err \<Rightarrow> updateRemotes_loop w names (manager, anythingChanged)
              | Inr res \<Rightarrow>
                  (case as_robot w res of
                     None \<Rightarrow> updateRemotes_loop w names (manager, anythingChanged)
                   | Some rr \<Rightarrow>
                       if anythingChanged
                       then updateRemotes_loop w names (manager, True)
                       else updateRemotes_loop w names
                              (updateRemoteResourceNames w name rr manager))))
      else updateRemotes_loop w names (manager, anythingChanged))"

definition updateRemotesResourceNames :: "world \<Rightarrow> 'pm resourceManager \<Rightarrow> string + 'pm resourceManager \<times> bool" where
  "updateRemotesResourceNames w manager =
     updateRemotes_loop w (Names (resources manager)) (manager, False)"

section \<open>RPC API discovery\<close>

text \<open>
  \<open>types\<close> is a Go map from APIs to service descriptors: here a list of pairs with one entry
  per API, read with \<open>map_of\<close>.  The descriptors a remote reports are taken to be non-nil, as
  the code takes them when it reads their names.
\<close>

text \<open>The line logged when a remote's service name differs from the one already known.\<close>

definition clash_entry :: "ServiceDescriptor \<Rightarrow> ServiceDescriptor \<Rightarrow> log_entry" where
  "clash_entry existing remote =
     Errorw ''remote proto service name clashes with another of the same API''
       [''existing'', GetFullyQualifiedName existing, ''remote'', GetFullyQualifiedName remote]"

fun mergeResourceRPCAPIsWithRemote ::
  "(api \<times> ServiceDescriptor) list
    \<Rightarrow> 'pm resourceManager \<times> (api \<times> ServiceDescriptor) list
    \<Rightarrow> 'pm resourceManager \<times> (api \<times> ServiceDescriptor) list" where
  "mergeResourceRPCAPIsWithRemote [] s = s"
| "mergeResourceRPCAPIsWithRemote (remoteType # remoteTypes) (manager, types) =
     (case map_of types (fst remoteType) of
        Some svcName \<Rightarrow>
          mergeResourceRPCAPIsWithRemote remoteTypes
            ((if GetFullyQualifiedName svcName \<noteq> GetFullyQualifiedName (snd remoteType)
              then log (clash_entry svcName (snd remoteType)) manager
              else manager),
             types)
      | None \<Rightarrow>
          mergeResourceRPCAPIsWithRemote remoteTypes (manager, types @ [remoteType]))"

text \<open>The body of the loop of \<open>ResourceRPCAPIs\<close>, for one name of the graph.\<close>

definition ResourceRPCAPIs_step ::
  "world \<Rightarrow> resource_name
    \<Rightarrow> 'pm resourceManager \<times> (api \<times> ServiceDescriptor) list
    \<Rightarrow> 'pm resourceManager \<times> (api \<times> ServiceDescriptor) list" where
  "ResourceRPCAPIs_step w k s =
     (case s of (manager, types) \<Rightarrow>
      if Namespace (API k) = APINamespaceRDKInternal then s
      else if API k = RemoteAPI then
        (case Node (resources manager) k of
           None \<Rightarrow> s
         | Some gNode \<Rightarrow>
             if \<not> HasResource gNode then s
             else (case Resource gNode of
                     Inl err \<Rightarrow>
                       (log (Errorw ''error getting remote from node''
                               [''remote'', Name k, ''err'', err]) manager,
                        types)
                   | Inr res \<Rightarrow>
                       (case as_robot w res of
                          None \<Rightarrow>
                            (log (Debugw ''remote does not implement robot interface''
                                    [''remote'', Name k]) manager,
                             types)
                        | Some rr \<Rightarrow>
                            mergeResourceRPCAPIsWithRemote (rr_ResourceRPCAPIs rr) (manager, types))))
      else if ContainsRemoteNames k then s
      else if map_of types (API k) \<noteq> None then s
      else (case RegisteredAPIs w (API k) of
              None \<Rightarrow> s
            | Some st \<Rightarrow>
                (case st of
                   Some ReflectRPCServiceDesc \<Rightarrow> (manager, types @ [(API k, ReflectRPCServiceDesc)])
                 | None \<Rightarrow> s)))"

text \<open>
  The result is the list of the pairs of \<open>types\<close>; Go gives them in no fixed order, and the
  theorems speak of membership only.  The log is returned with it.
\<close>

definition ResourceRPCAPIs ::
  "world \<Rightarrow> 'pm resourceManager \<Rightarrow> 'pm resourceManager \<times> (api \<times> ServiceDescriptor) list" where
  "ResourceRPCAPIs w manager =
     fold (ResourceRPCAPIs_step w) (Names (resources manager)) (manager, [])"

section \<open>Applying a configuration diff\<close>

record ProcessConfig =
  proc_ID :: string
  proc_Command :: string

record ConfigSet =
  Components :: "Config list"
  Services :: "Config list"
  Remotes :: "RemoteConfig list"
  Processes :: "ProcessConfig list"

record Diff =
  Added :: ConfigSet
  Modified :: ConfigSet

text \<open>
  The process manager of the pexec package, as far as \<open>updateResources\<close> calls it: adding a
  process from its configuration, removing one by its ID, and stopping a removed process.
  What they do is theirs; the manager sees the error and the process manager they leave.
\<close>

record ('pm, 'proc) pexec =
  AddProcessFromConfig :: "ProcessConfig \<Rightarrow> 'pm \<Rightarrow> string option \<times> 'pm"
  RemoveProcessByID :: "string \<Rightarrow> 'pm \<Rightarrow> 'proc option \<times> 'pm"
  Stop :: "'proc \<Rightarrow> string option"

text \<open>
  The combined error \<open>updateResources\<close> returns is the list of the errors combined, in order;
  the empty list is the nil error.
\<close>

datatype update_error = errShellServiceDisabled | errProcessesDisabled | UpdateError string

definition combine :: "update_error list \<Rightarrow> update_error option \<Rightarrow> update_error list" where
  "combine allErrs err = (case err of None \<Rightarrow> allErrs | Some e \<Rightarrow> allErrs @ [e])"

definition markResourceForUpdate ::
  "resource_name \<Rightarrow> Config \<Rightarrow> string list \<Rightarrow> 'pm resourceManager \<Rightarrow> update_error option \<times> 'pm resourceManager" where
  "markResourceForUpdate name conf deps manager =
     (case Node (resources manager) name of
        Some gNode \<Rightarrow>
          (None,
           fold (\<lambda>parent m. m\<lparr>resources := RemoveChild name parent (resources m)\<rparr>)
             (GetAllParentsOf (resources manager) name)
             (set_node name (SetNewConfig conf deps gNode) manager))
      | None \<Rightarrow>
          (case AddNode name (NewUnconfiguredGraphNode conf deps) (resources manager) of
             Inl err \<Rightarrow>
               (Some (UpdateError (''failed to add new node for unconfigured resource ''
                                    @ name_String name @ '': '' @ err)),
                manager)
           | Inr g \<Rightarrow> (None, manager\<lparr>resources := g\<rparr>)))"

definition update_service :: "Config \<Rightarrow> 'pm resourceManager \<times> update_error list \<Rightarrow> 'pm resourceManager \<times> update_error list" where
  "update_service s st =
     (case st of (manager, allErrs) \<Rightarrow>
      let rName = ResourceName s in
      if untrustedEnv (opts manager) \<and> API rName = shell_API
      then (manager, combine allErrs (Some errShellServiceDisabled))
      else (case markResourceForUpdate rName s (Dependencies s) manager of
              (err, manager1) \<Rightarrow> (manager1, combine allErrs err)))"

definition update_component :: "Config \<Rightarrow> 'pm resourceManager \<times> update_error list \<Rightarrow> 'pm resourceManager \<times> update_error list" where
  "update_component c st =
     (case st of (manager, allErrs) \<Rightarrow>
      let rName = ResourceName c in
      case markResourceForUpdate rName c (Dependencies c) manager of
        (err, manager1) \<Rightarrow> (manager1, combine allErrs err))"

definition update_remote :: "RemoteConfig \<Rightarrow> 'pm resourceManager \<times> update_error list \<Rightarrow> 'pm resourceManager \<times> update_error list" where
  "update_remote r st =
     (case st of (manager, allErrs) \<Rightarrow>
      let rName = fromRemoteNameToRemoteNodeName (remote_Name r) in
      case markResourceForUpdate rName (empty_Config\<lparr>ConvertedAttributes := Some r\<rparr>) [] manager of
        (err, manager1) \<Rightarrow> (manager1, combine allErrs err))"

text \<open>The two loops over the processes leave at the first process when the environment is untrusted.\<close>

fun add_processes ::
  "('pm, 'proc) pexec \<Rightarrow> ProcessConfig list \<Rightarrow> 'pm resourceManager \<times> update_error list
    \<Rightarrow> 'pm resourceManager \<times> update_error list" where
  "add_processes px [] st = st"
| "add_processes px (p # ps) (manager, allErrs) =
     (if untrustedEnv (opts manager) then (manager, combine allErrs (Some errProcessesDisabled))
      else (case AddProcessFromConfig px p (processManager manager) of
              (err, pm) \<Rightarrow>
                add_processes px ps
                  ((case err of
                      Some e \<Rightarrow> log (Errorw ''error while adding process; skipping''
                                        [''process'', proc_ID p, ''error'', e])
                    | None \<Rightarrow> (\<lambda>m. m)) (manager\<lparr>processManager := pm\<rparr>),
                   allErrs)))"

fun modify_processes ::
  "('pm, 'proc) pexec \<Rightarrow> ProcessConfig list \<Rightarrow> 'pm resourceManager \<times> update_error list
    \<Rightarrow> 'pm resourceManager \<times> update_error list" where
  "modify_processes px [] st = st"
| "modify_processes px (p # ps) (manager, allErrs) =
     (if untrustedEnv (opts manager) then (manager, combine allErrs (Some errProcessesDisabled))
      else
        (case RemoveProcessByID px (proc_ID p) (processManager manager) of
           (oldProc, pm1) \<Rightarrow>
             (let manager1 =
                    (case oldProc of
                       Some proc \<Rightarrow>
                         (case Stop px proc of
                            Some e \<Rightarrow> log (Errorw (''couldn'' @ [CHR 0x27] @ ''t stop process'')
                                              [''process'', proc_ID p, ''error'', e])
                          | None \<Rightarrow> (\<lambda>m. m))
                     | None \<Rightarrow> log (Errorw (''couldn'' @ [CHR 0x27] @ ''t find modified process'') [''process'', proc_ID p]))
                      (manager\<lparr>processManager := pm1\<rparr>)
              in case AddProcessFromConfig px p (processManager manager1) of
                   (err, pm2) \<Rightarrow>
                     modify_processes px ps
                       ((case err of
                           Some e \<Rightarrow> log (Errorw ''error while changing process; skipping''
                                             [''process'', proc_ID p, ''error'', e])
                         | None \<Rightarrow> (\<lambda>m. m)) (manager1\<lparr>processManager := pm2\<rparr>),
                        allErrs))))"

definition updateResources ::
  "('pm, 'proc) pexec \<Rightarrow> Diff \<Rightarrow> 'pm resourceManager \<Rightarrow> 'pm resourceManager \<times> update_error list" where
  "updateResources px conf manager =
     modify_processes px (Processes (Modified conf))
       (add_processes px (Processes (Added conf))
         (fold update_remote (Remotes (Modified conf))
           (fold update_service (Services (Modified conf))
             (fold update_component (Components (Modified conf))
               (fold update_remote (Remotes (Added conf))
                 (fold update_component (Components (Added conf))
                   (fold update_service (Services (Added conf)) (manager, []))))))))"

section \<open>Dialing a remote\<close>

text \<open>
  The dial options of the rpc package the manager chooses among; \<open>rpc.Credentials{}\<close>, the
  explicit empty credentials, are the pair of two empty strings.  The WebRTC options always
  carry the default WebRTC configuration, which is left out.
\<close>

record DialWebRTCOptions =
  webrtc_SignalingServerAddress :: string
  webrtc_SignalingAuthEntity :: string
  webrtc_SignalingCreds :: credentials

datatype DialOption =
    WithDialDebug
  | WithInsecure
  | WithAllowInsecureWithCredentialsDowngrade
  | WithTLSConfig string
  | WithCredentials credentials
  | WithEntityCredentials string credentials
  | WithExternalAuth string string
  | WithExternalAuthInsecure
  | WithWebRTCOptions DialWebRTCOptions
  | WithDialMulticastDNSOptions bool

definition empty_Credentials :: credentials where
  "empty_Credentials = ([], [])"

definition remoteDialOptions :: "RemoteConfig \<Rightarrow> resourceManagerOptions \<Rightarrow> DialOption list" where
  "remoteDialOptions config options =
     (if debug options then [WithDialDebug] else [])
     @ (if remote_Insecure config then [WithInsecure] else [])
     @ (if allowInsecureCreds options then [WithAllowInsecureWithCredentialsDowngrade] else [])
     @ (case tlsConfig options of Some tls \<Rightarrow> [WithTLSConfig tls] | None \<Rightarrow> [])
     @ (case Credentials (remote_Auth config) of
          Some creds \<Rightarrow>
            if Entity (remote_Auth config) = [] then [WithCredentials creds]
            else [WithEntityCredentials (Entity (remote_Auth config)) creds]
        | None \<Rightarrow> [WithEntityCredentials [] empty_Credentials])
     @ (if ExternalAuthAddress (remote_Auth config) \<noteq> []
        then [WithExternalAuth (ExternalAuthAddress (remote_Auth config))
                (ExternalAuthToEntity (remote_Auth config))]
        else [])
     @ (if ExternalAuthInsecure (remote_Auth config) then [WithExternalAuthInsecure] else [])
     @ (if SignalingServerAddress (remote_Auth config) \<noteq> []
        then [WithWebRTCOptions
                \<lparr>webrtc_SignalingServerAddress = SignalingServerAddress (remote_Auth config),
                 webrtc_SignalingAuthEntity = SignalingAuthEntity (remote_Auth config),
                 webrtc_SignalingCreds =
                   (case SignalingCreds (remote_Auth config) of
                      Some creds \<Rightarrow> creds
                    | None \<Rightarrow> empty_Credentials)\<rparr>]
             @ (if Managed (remote_Auth config) then [WithDialMulticastDNSOptions True] else [])
        else [])"

text \<open>
  What dialing answers is the transport's business: the manager only asks whether the error
  is (or wraps) \<open>rpc.ErrInsecureWithCredentials\<close>, and reads the message of any other.
\<close>

datatype dial_error = WrapsErrInsecureWithCredentials string | OtherDialError string

definition errAllowInsecureCredsFlag :: string where
  "errAllowInsecureCredsFlag =
     ''must use -allow-insecure-creds flag to connect to a non-TLS secured robot''"

definition errAllowInsecureCredsConfig :: string where
  "errAllowInsecureCredsConfig =
     ''must use Config.AllowInsecureCreds to connect to a non-TLS secured robot''"

definition couldnt_connect :: "string \<Rightarrow> string \<Rightarrow> string" where
  "couldnt_connect address err =
     ''couldn'' @ [CHR 0x27] @ ''t connect to robot remote ('' @ address @ ''): '' @ err"

definition processRemote ::
  "(RemoteConfig \<Rightarrow> DialOption list \<Rightarrow> dial_error + resource)
    \<Rightarrow> 'pm resourceManager \<Rightarrow> RemoteConfig \<Rightarrow> 'pm resourceManager \<times> (string + resource)" where
  "processRemote dialRobotClient manager config =
     (let dialOpts = remoteDialOptions config (opts manager);
          manager1 = log (Debugw ''connecting now to remote'' [remote_Name config]) manager
      in case dialRobotClient config dialOpts of
           Inl err \<Rightarrow>
             (manager1,
              Inl (couldnt_connect (remote_Address config)
                (case err of
                   WrapsErrInsecureWithCredentials _ \<Rightarrow>
                     if fromCommand (opts manager) then errAllowInsecureCredsFlag
                     else errAllowInsecureCredsConfig
                 | OtherDialError msg \<Rightarrow> msg)))
         | Inr robotClient \<Rightarrow>
             (log (Debugw ''connected now to remote'' [remote_Name config]) manager1,
              Inr robotClient))"

section \<open>The complete-config pass over components and services\<close>

text \<open>
  The robot's module manager is taken to be there: \<open>completeConfig\<close> calls its methods
  without asking.
\<close>

definition closeResource :: "world \<Rightarrow> resource \<Rightarrow> string option" where
  "closeResource w res =
     (let allErrs = resource_Close w res;
          resName = resource_Name w res
      in if mod_IsModularResource w resName
         then (case mod_RemoveResource w resName of
                 Some err \<Rightarrow>
                   Combine (Some err) (Some (''error removing modular resource for closure: '' @ err))
               | None \<Rightarrow> allErrs)
         else allErrs)"

definition DepsToNames :: "(resource_name \<times> resource) list \<Rightarrow> string list" where
  "DepsToNames deps = map (\<lambda>d. name_String (fst d)) deps"

text \<open>
  \<open>processResource\<close> returns the new resource, whether it was newly built, and the error;
  the manager comes back with what was logged.
\<close>

definition rebuild ::
  "world \<Rightarrow> Config \<Rightarrow> GraphNode \<Rightarrow> resource \<Rightarrow> 'pm resourceManager
    \<Rightarrow> 'pm resourceManager \<times> resource option \<times> bool \<times> string option" where
  "rebuild w conf gNode currentRes manager =
     (let manager1 = log (Debugw ''rebuilding'' [''name'', name_String (ResourceName conf)]) manager;
          manager2 = (case closeResource w currentRes of
                        Some err \<Rightarrow> log (Errorw err []) manager1
                      | None \<Rightarrow> manager1)
      in case newResource w (resources manager2) gNode conf of
           Inl err \<Rightarrow> (manager2, None, False, Some err)
         | Inr newRes \<Rightarrow> (manager2, Some newRes, True, None))"

definition processResource ::
  "world \<Rightarrow> Config \<Rightarrow> GraphNode \<Rightarrow> 'pm resourceManager
    \<Rightarrow> 'pm resourceManager \<times> resource option \<times> bool \<times> string option" where
  "processResource w conf gNode manager =
     (if IsUninitialized gNode then
        (case newResource w (resources manager) gNode conf of
           Inl err \<Rightarrow> (manager, None, False, Some err)
         | Inr newRes \<Rightarrow> (manager, Some newRes, True, None))
      else
        (case UnsafeResource gNode of
           Inl err \<Rightarrow> (manager, None, False, Some err)
         | Inr currentRes \<Rightarrow>
             (case getDependencies w (resources manager) (ResourceName conf) gNode of
                Inl err \<Rightarrow>
                  (manager, None, False, Combine (Some err) (closeResource w currentRes))
              | Inr deps \<Rightarrow>
                  if ResourceModel gNode = conf_Model conf then
                    (if mod_Provides w conf then
                       (case mod_ReconfigureResource w conf (DepsToNames deps) of
                          Some err \<Rightarrow> (manager, None, False, Some err)
                        | None \<Rightarrow> (manager, Some currentRes, False, None))
                     else
                       (case resource_Reconfigure w currentRes deps conf of
                          None \<Rightarrow> (manager, Some currentRes, False, None)
                        | Some (ReconfigureError err) \<Rightarrow> (manager, None, False, Some err)
                        | Some (MustRebuildError err) \<Rightarrow> rebuild w conf gNode currentRes manager))
                  else
                    rebuild w conf gNode currentRes
                      (log (Debugw ''resource models differ so it must be rebuilt''
                              [''name'', name_String (ResourceName conf),
                               ''old_model'', ResourceModel gNode,
                               ''new_model'', conf_Model conf]) manager))))"

text \<open>A change the Go code makes to a node through its pointer.\<close>

definition modify_node :: "resource_name \<Rightarrow> (GraphNode \<Rightarrow> GraphNode) \<Rightarrow> 'pm resourceManager \<Rightarrow> 'pm resourceManager" where
  "modify_node k f manager =
     (case Node (resources manager) k of
        None \<Rightarrow> manager
      | Some gNode \<Rightarrow> set_node k (f gNode) manager)"

text \<open>
  The \<open>switch\<close> at the end of the loop body, for a component or a service: build, mark the
  children when the resource is newly built or the build failed, then record the error or
  swap the new resource in.  (\<open>processResource\<close> returns a resource whenever it returns no
  error, so there is a resource to swap in.)
\<close>

definition build_resource ::
  "world \<Rightarrow> resource_name \<Rightarrow> Config \<Rightarrow> GraphNode \<Rightarrow> 'pm resourceManager \<Rightarrow> 'pm resourceManager" where
  "build_resource w resName conf gNode manager =
     (case processResource w conf gNode manager of
        (manager1, newRes, newlyBuilt, err) \<Rightarrow>
          (let manager2 =
                 (if newlyBuilt \<or> err \<noteq> None then
                    (case markChildrenForUpdate resName manager1 of
                       Inl e \<Rightarrow>
                         log (Errorw ''failed to mark children of resource for update''
                                [''resource'', name_String resName, ''reason'', e]) manager1
                     | Inr m \<Rightarrow> m)
                  else manager1)
           in case err of
                Some e \<Rightarrow>
                  modify_node resName (SetLastError (''resource build error: '' @ e))
                    (log (Errorw ''error building resource''
                            [''resource'', name_String (ResourceName conf),
                             ''model'', conf_Model conf, ''error'', e]) manager2)
              | None \<Rightarrow>
                  (case newRes of
                     Some res \<Rightarrow> modify_node resName (SwapResource res (conf_Model conf)) manager2
                   | None \<Rightarrow> manager2)))"

text \<open>The line logged before a resource is configured or reconfigured.\<close>

definition announce :: "resource_name \<Rightarrow> GraphNode \<Rightarrow> 'pm resourceManager \<Rightarrow> 'pm resourceManager" where
  "announce resName gNode manager =
     log (Debugw (if IsUninitialized gNode then ''now configuring resource''
                  else ''now reconfiguring resource'')
            [''resource'', name_String resName]) manager"

text \<open>The body of the second loop of \<open>completeConfig\<close>, for one name of the sorted graph.\<close>

definition completeConfig_resource ::
  "world \<Rightarrow> resource_name \<Rightarrow> 'pm resourceManager \<Rightarrow> 'pm resourceManager" where
  "completeConfig_resource w resName manager =
     (case Node (resources manager) resName of
        None \<Rightarrow> manager
      | Some gNode \<Rightarrow>
          if \<not> NeedsReconfigure gNode then manager
          else if \<not> (IsComponent (API resName) \<or> IsService (API resName)) then manager
          else
            (let manager1 = announce resName gNode manager;
                 conf = node_config gNode
             in case conf_Validate w conf (TypeName (API resName)) of
                  Some err \<Rightarrow>
                    modify_node resName
                      (SetLastError (''config validation error found in resource: ''
                                       @ name_String (ResourceName conf) @ '': '' @ err))
                      (log (Errorw ''resource config validation error''
                              [''resource'', name_String (ResourceName conf),
                               ''model'', conf_Model conf, ''error'', err]) manager1)
                | None \<Rightarrow>
                    (case (if mod_Provides w conf then mod_ValidateConfig w conf else None) of
                       Some err \<Rightarrow>
                         modify_node resName
                           (SetLastError (''config validation error found in modular resource: ''
                                            @ name_String (ResourceName conf) @ '': '' @ err))
                           (log (Errorw ''modular resource config validation error''
                                   [''resource'', name_String (ResourceName conf),
                                    ''model'', conf_Model conf, ''error'', err]) manager1)
                     | None \<Rightarrow> build_resource w resName conf gNode manager1)))"

text \<open>The second loop, over the names in reverse topological order.\<close>

definition completeConfig_resources :: "world \<Rightarrow> 'pm resourceManager \<Rightarrow> 'pm resourceManager" where
  "completeConfig_resources w manager =
     fold (completeConfig_resource w) (ReverseTopologicalSort (resources manager)) manager"

section \<open>The AppImage environment\<close>

text \<open>
  What \<open>cleanAppImageEnv\<close> sees of the process: the environment, the working directory, and
  which directories \<open>os.Chdir\<close> can enter.  The environment is the list of \<open>key=value\<close>
  entries Go's \<open>syscall\<close> package keeps, after it has dropped the later entries of a repeated
  key; the variable of an entry is the text before its first \<open>=\<close>.
\<close>

record os_state =
  envs :: "string list"
  cwd :: string
  dir_ok :: "string \<Rightarrow> bool"

definition has_eq :: "string \<Rightarrow> bool" where
  "has_eq e = (CHR ''='' \<in> set e)"

definition entry_key :: "string \<Rightarrow> string" where
  "entry_key e = takeWhile (\<lambda>c. c \<noteq> CHR ''='') e"

definition entry_value :: "string \<Rightarrow> string" where
  "entry_value e = tl (dropWhile (\<lambda>c. c \<noteq> CHR ''='') e)"

definition is_entry_of :: "string \<Rightarrow> string \<Rightarrow> bool" where
  "is_entry_of key e = (has_eq e \<and> entry_key e = key)"

definition LookupEnv :: "string \<Rightarrow> os_state \<Rightarrow> string option" where
  "LookupEnv key st =
     (if key = [] then None
      else map_option entry_value (find (is_entry_of key) (envs st)))"

definition Getenv :: "string \<Rightarrow> os_state \<Rightarrow> string" where
  "Getenv key st = (case LookupEnv key st of Some v \<Rightarrow> v | None \<Rightarrow> [])"

definition Environ :: "os_state \<Rightarrow> string list" where
  "Environ st = filter (\<lambda>e. e \<noteq> []) (envs st)"

fun replace_entry :: "string \<Rightarrow> string \<Rightarrow> string list \<Rightarrow> string list" where
  "replace_entry key kv [] = [kv]"
| "replace_entry key kv (e # es) =
     (if is_entry_of key e then kv # es else e # replace_entry key kv es)"

text \<open>
  \<open>os.Setenv\<close> refuses an empty key, a key with \<open>=\<close> or a NUL in it, and a value with a NUL
  in it; otherwise it writes the entry where the key stands, or at the end.
\<close>

definition Setenv :: "string \<Rightarrow> string \<Rightarrow> os_state \<Rightarrow> string option \<times> os_state" where
  "Setenv key v st =
     (if key = [] \<or> CHR ''='' \<in> set key \<or> CHR 0x00 \<in> set key \<or> CHR 0x00 \<in> set v
      then (Some ''setenv: invalid argument'', st)
      else (None, st\<lparr>envs := replace_entry key (key @ ''='' @ v) (envs st)\<rparr>))"

text \<open>\<open>os.Unsetenv\<close> never fails on the platforms an AppImage runs on.\<close>

definition Unsetenv :: "string \<Rightarrow> os_state \<Rightarrow> string option \<times> os_state" where
  "Unsetenv key st = (None, st\<lparr>envs := filter (\<lambda>e. \<not> is_entry_of key e) (envs st)\<rparr>)"

definition Chdir :: "string \<Rightarrow> os_state \<Rightarrow> string option \<times> os_state" where
  "Chdir dir st =
     (if dir_ok st dir then (None, st\<lparr>cwd := dir\<rparr>)
      else (Some (''chdir '' @ dir @ '': no such file or directory''), st))"

subsection \<open>The functions of the strings package\<close>

fun Split :: "string \<Rightarrow> char \<Rightarrow> string list" where
  "Split [] sep = [[]]"
| "Split (c # cs) sep =
     (if c = sep then [] # Split cs sep
      else (case Split cs sep of
              [] \<Rightarrow> [[c]]
            | p # ps \<Rightarrow> (c # p) # ps))"

definition HasPrefix :: "string \<Rightarrow> string \<Rightarrow> bool" where
  "HasPrefix s p = (take (length p) s = p)"

fun Contains :: "string \<Rightarrow> string \<Rightarrow> bool" where
  "Contains [] sub = (sub = [])"
| "Contains (c # cs) sub = (HasPrefix (c # cs) sub \<or> Contains cs sub)"

fun Join :: "string list \<Rightarrow> string \<Rightarrow> string" where
  "Join [] sep = []"
| "Join [p] sep = p"
| "Join (p # q # ps) sep = p @ sep @ Join (q # ps) sep"

subsection \<open>cleanAppImageEnv\<close>

text \<open>The three loops run over a copy of the environment taken before the loop starts.\<close>

fun reset_originals :: "string list \<Rightarrow> os_state \<Rightarrow> string option \<times> os_state" where
  "reset_originals [] st = (None, st)"
| "reset_originals (eVarStr # rest) st =
     (let key = hd (Split eVarStr CHR ''='') in
      case LookupEnv (''APPRUN_ORIGINAL_'' @ key) st of
        None \<Rightarrow> reset_originals rest st
      | Some origV \<Rightarrow>
          (case (if origV \<noteq> [] then Setenv key origV st else Unsetenv key st) of
             (Some err, st1) \<Rightarrow> (Some err, st1)
           | (None, st1) \<Rightarrow> reset_originals rest st1))"

definition is_appimage_var :: "string \<Rightarrow> bool" where
  "is_appimage_var key =
     (HasPrefix key ''APPRUN'' \<or> HasPrefix key ''APPDIR''
      \<or> HasPrefix key ''APPIMAGE'' \<or> HasPrefix key ''AIX_'')"

fun remove_appimage_vars :: "string list \<Rightarrow> string option \<times> os_state \<Rightarrow> string option \<times> os_state" where
  "remove_appimage_vars [] r = r"
| "remove_appimage_vars (eVarStr # rest) (err, st) =
     (let key = hd (Split eVarStr CHR ''='') in
      if is_appimage_var key
      then (case Unsetenv key st of
              (err1, st1) \<Rightarrow> remove_appimage_vars rest (Combine err err1, st1))
      else remove_appimage_vars rest (err, st))"

definition mountPrefix :: string where
  "mountPrefix = ''/tmp/.mount_''"

fun clean_paths :: "string list \<Rightarrow> os_state \<Rightarrow> string option \<times> os_state" where
  "clean_paths [] st = (None, st)"
| "clean_paths (eVarStr # rest) st =
     (let eVar = Split eVarStr CHR ''=''; key = hd eVar in
      if 2 \<le> length eVar \<and> Contains (eVar ! 1) mountPrefix
      then (let newPaths = filter (\<lambda>path. \<not> HasPrefix path mountPrefix \<and> path \<noteq> [])
                             (Split (eVar ! 1) CHR '':'') in
            case (if newPaths \<noteq> [] then Setenv key (Join newPaths '':'') st
                  else Unsetenv key st) of
              (Some err, st1) \<Rightarrow> (Some err, st1)
            | (None, st1) \<Rightarrow> clean_paths rest st1)
      else clean_paths rest st)"

definition cleanAppImageEnv :: "os_state \<Rightarrow> string option \<times> os_state" where
  "cleanAppImageEnv st =
     (case LookupEnv ''APPIMAGE'' st of
        None \<Rightarrow> (None, st)
      | Some _ \<Rightarrow>
          (case Chdir (Getenv ''APPRUN_CWD'' st) st of
             (Some err, st0) \<Rightarrow> (Some err, st0)
           | (None, st0) \<Rightarrow>
               (case reset_originals (Environ st0) st0 of
                  (Some err, st1) \<Rightarrow> (Some err, st1)
                | (None, st1) \<Rightarrow>
                    (case Unsetenv ''ARGV0'' st1 of
                       (e1, st2) \<Rightarrow>
                         (case Unsetenv ''ORIGIN'' st2 of
                            (e2, st3) \<Rightarrow>
                              (case remove_appimage_vars (Environ st3) (Combine e1 e2, st3) of
                                 (Some err, st4) \<Rightarrow> (Some err, st4)
                               | (None, st4) \<Rightarrow> clean_paths (Environ st4) st4))))))"

text \<open>The variables the environment defines, and the ones the scrub is to remove.\<close>

definition keys_of :: "os_state \<Rightarrow> string set" where
  "keys_of st = entry_key ` {e \<in> set (envs st). has_eq e}"

definition scrubbed :: "string \<Rightarrow> bool" where
  "scrubbed key = (is_appimage_var key \<or> key = ''ARGV0'' \<or> key = ''ORIGIN'')"

text \<open>The entries the environment holds for a variable; Go keeps at most one.\<close>

definition entries_of :: "string \<Rightarrow> os_state \<Rightarrow> string list" where
  "entries_of key st = filter (is_entry_of key) (envs st)"

section \<open>Lazily decoded images\<close>

text \<open>
  \<open>rimage.LazyEncodedImage\<close>: the encoded bytes and their MIME type, the \<open>sync.Once\<close> that
  guards the decoding (\<open>decodeOnce\<close> says whether it has fired), the stored error and the
  decoded image.  \<open>decodeCalls\<close> is not a field of the Go struct: it counts the calls of
  \<open>DecodeImage\<close>, so that "at most once" can be stated.
\<close>

type_synonym byte = "8 word"

record Image =
  img_ColorModel :: string
  img_Bounds :: "int \<times> int \<times> int \<times> int"
  img_At :: "int \<Rightarrow> int \<Rightarrow> nat"

text \<open>
  \<open>DecodeImage\<close> is not among the files.  It is a parameter of the model, and answers as a Go
  function of type \<open>(image.Image, error)\<close> can: it returns an image (or nil) together with an
  error (or nil), any of the four combinations, or it panics.  The value of a panic is what
  \<open>recover\<close> hands to the deferred function: \<open>None\<close> is the nil that \<open>recover\<close> returns for
  \<open>panic(nil)\<close>.
\<close>

datatype decode_result =
    DecodeReturned "Image option" "string option"
  | DecodePanicked "string option"

record LazyEncodedImage =
  imgBytes :: "byte list"
  mimeType :: string
  decodeOnce :: bool
  decodeErr :: "string option"
  decodedImage :: "Image option"
  decodeCalls :: nat

definition NewLazyEncodedImage :: "byte list \<Rightarrow> string \<Rightarrow> LazyEncodedImage" where
  "NewLazyEncodedImage bs mt =
     \<lparr>imgBytes = bs, mimeType = mt, decodeOnce = False, decodeErr = None,
      decodedImage = None, decodeCalls = 0\<rparr>"

text \<open>A method returns a value or panics; either way it leaves the image in some state.\<close>

datatype 'a outcome = Return 'a | Panic string

definition nil_dereference :: string where
  "nil_dereference = ''invalid memory address or nil pointer dereference''"

text \<open>
  The function given to \<open>decodeOnce.Do\<close>: it calls \<open>DecodeImage\<close> and stores both results as
  they are returned, the image also when an error comes with it.  A panic of \<open>DecodeImage\<close> is
  recovered: the assignment has not happened, so the image stays as it was, and the recovered
  value is stored as the error unless it is nil.
\<close>

definition decode_body :: "(byte list \<Rightarrow> string \<Rightarrow> decode_result) \<Rightarrow> LazyEncodedImage \<Rightarrow> LazyEncodedImage" where
  "decode_body DecodeImage lei =
     (case DecodeImage (imgBytes lei) (mimeType lei) of
        DecodeReturned img err \<Rightarrow>
          lei\<lparr>decodedImage := img, decodeErr := err, decodeCalls := decodeCalls lei + 1\<rparr>
      | DecodePanicked v \<Rightarrow>
          lei\<lparr>decodeErr := (case v of None \<Rightarrow> decodeErr lei | Some err \<Rightarrow> Some err),
              decodeCalls := decodeCalls lei + 1\<rparr>)"

definition decode :: "(byte list \<Rightarrow> string \<Rightarrow> decode_result) \<Rightarrow> LazyEncodedImage \<Rightarrow> unit outcome \<times> LazyEncodedImage" where
  "decode DecodeImage lei =
     (let lei1 = (if decodeOnce lei then lei
                  else decode_body DecodeImage (lei\<lparr>decodeOnce := True\<rparr>))
      in case decodeErr lei1 of
           Some err \<Rightarrow> (Panic err, lei1)
         | None \<Rightarrow> (Return (), lei1))"

definition MIMEType :: "LazyEncodedImage \<Rightarrow> string outcome \<times> LazyEncodedImage" where
  "MIMEType lei = (Return (mimeType lei), lei)"

definition RawData :: "LazyEncodedImage \<Rightarrow> byte list outcome \<times> LazyEncodedImage" where
  "RawData lei = (Return (imgBytes lei), lei)"

definition ColorModel :: "(byte list \<Rightarrow> string \<Rightarrow> decode_result) \<Rightarrow> LazyEncodedImage \<Rightarrow> string outcome \<times> LazyEncodedImage" where
  "ColorModel DecodeImage lei =
     (case decode DecodeImage lei of
        (Panic err, lei1) \<Rightarrow> (Panic err, lei1)
      | (Return _, lei1) \<Rightarrow>
          (case decodedImage lei1 of
             None \<Rightarrow> (Panic nil_dereference, lei1)
           | Some img \<Rightarrow> (Return (img_ColorModel img), lei1)))"

definition Bounds :: "(byte list \<Rightarrow> string \<Rightarrow> decode_result) \<Rightarrow> LazyEncodedImage \<Rightarrow> (int \<times> int \<times> int \<times> int) outcome \<times> LazyEncodedImage" where
  "Bounds DecodeImage lei =
     (case (if decodedImage lei = None then decode DecodeImage lei else (Return (), lei)) of
        (Panic err, lei1) \<Rightarrow> (Panic err, lei1)
      | (Return _, lei1) \<Rightarrow>
          (case decodedImage lei1 of
             None \<Rightarrow> (Panic nil_dereference, lei1)
           | Some img \<Rightarrow> (Return (img_Bounds img), lei1)))"

definition At :: "(byte list \<Rightarrow> string \<Rightarrow> decode_result) \<Rightarrow> int \<Rightarrow> int \<Rightarrow> LazyEncodedImage \<Rightarrow> nat outcome \<times> LazyEncodedImage" where
  "At DecodeImage x y lei =
     (case decode DecodeImage lei of
        (Panic err, lei1) \<Rightarrow> (Panic err, lei1)
      | (Return _, lei1) \<Rightarrow>
          (case decodedImage lei1 of
             None \<Rightarrow> (Panic nil_dereference, lei1)
           | Some img \<Rightarrow> (Return (img_At img x y), lei1)))"

text \<open>
  A caller's use of an image: any sequence of calls of the five methods, each on the state the
  one before left (a caller that recovers from a panic goes on with the same image).
\<close>

datatype image_call = CallMIMEType | CallRawData | CallColorModel | CallBounds | CallAt int int

datatype image_value =
    ValString string
  | ValBytes "byte list"
  | ValBounds "int \<times> int \<times> int \<times> int"
  | ValColor nat

definition with_value :: "('a \<Rightarrow> 'b) \<Rightarrow> 'a outcome \<times> LazyEncodedImage \<Rightarrow> 'b outcome \<times> LazyEncodedImage" where
  "with_value f r = (case fst r of Return v \<Rightarrow> (Return (f v), snd r) | Panic err \<Rightarrow> (Panic err, snd r))"

fun do_call :: "(byte list \<Rightarrow> string \<Rightarrow> decode_result) \<Rightarrow> image_call \<Rightarrow> LazyEncodedImage \<Rightarrow> image_value outcome \<times> LazyEncodedImage" where
  "do_call DecodeImage CallMIMEType lei = with_value ValString (MIMEType lei)"
| "do_call DecodeImage CallRawData lei = with_value ValBytes (RawData lei)"
| "do_call DecodeImage CallColorModel lei = with_value ValString (ColorModel DecodeImage lei)"
| "do_call DecodeImage CallBounds lei = with_value ValBounds (Bounds DecodeImage lei)"
| "do_call DecodeImage (CallAt x y) lei = with_value ValColor (At DecodeImage x y lei)"

fun do_calls :: "(byte list \<Rightarrow> string \<Rightarrow> decode_result) \<Rightarrow> image_call list \<Rightarrow> LazyEncodedImage \<Rightarrow> LazyEncodedImage" where
  "do_calls DecodeImage [] lei = lei"
| "do_calls DecodeImage (c # cs) lei = do_calls DecodeImage cs (snd (do_call DecodeImage c lei))"

definition decodes :: "image_call \<Rightarrow> bool" where
  "decodes c = (c \<noteq> CallMIMEType \<and> c \<noteq> CallRawData)"

text \<open>
  The decoding of bytes \<open>bs\<close> of type \<open>mt\<close> fails with \<open>err\<close>: \<open>DecodeImage\<close> returns that
  error, with or without an image, or panics with it.  It leaves no image when it panics or
  returns a nil image.
\<close>

definition fails_with :: "(byte list \<Rightarrow> string \<Rightarrow> decode_result) \<Rightarrow> byte list \<Rightarrow> string \<Rightarrow> string \<Rightarrow> bool" where
  "fails_with DecodeImage bs mt err =
     (case DecodeImage bs mt of
        DecodeReturned img e \<Rightarrow> e = Some err
      | DecodePanicked e \<Rightarrow> e = Some err)"

definition leaves_image :: "(byte list \<Rightarrow> string \<Rightarrow> decode_result) \<Rightarrow> byte list \<Rightarrow> string \<Rightarrow> Image option" where
  "leaves_image DecodeImage bs mt =
     (case DecodeImage bs mt of
        DecodeReturned img e \<Rightarrow> img
      | DecodePanicked e \<Rightarrow> None)"

text \<open>The states an image can be in: fresh, or decoded once with the outcome stored.\<close>

definition lazy_inv :: "(byte list \<Rightarrow> string \<Rightarrow> decode_result) \<Rightarrow> byte list \<Rightarrow> string \<Rightarrow> LazyEncodedImage \<Rightarrow> bool" where
  "lazy_inv DecodeImage bs mt lei =
     (imgBytes lei = bs \<and> mimeType lei = mt
      \<and> (if decodeOnce lei
          then decodeCalls lei = 1
             \<and> decodedImage lei = leaves_image DecodeImage bs mt
             \<and> (case DecodeImage bs mt of
                   DecodeReturned img e \<Rightarrow> decodeErr lei = e
                 | DecodePanicked e \<Rightarrow> decodeErr lei = e)
          else decodeCalls lei = 0 \<and> decodedImage lei = None \<and> decodeErr lei = None))"

section \<open>Notions used in the statements\<close>

text \<open>
  \<open>child_of es\<close> relates a name to the names that depend on it directly.
  \<open>subgraph_names g r\<close> are the names of \<open>SubGraphFrom g r\<close>.  \<open>keeps\<close> and \<open>grows\<close> say what
  marking and closing leave as it is: the names and edges of the graph, a closed node closed,
  a node marked for update marked.  \<open>removed r g\<close>: the node \<open>r\<close> is closed and the local names
  of its subgraph are marked for update.
\<close>

definition child_of :: "(resource_name \<times> resource_name) list \<Rightarrow> (resource_name \<times> resource_name) set" where
  "child_of es = {(p, c). (c, p) \<in> set es}"

definition keeps :: "GraphNode \<Rightarrow> GraphNode \<Rightarrow> bool" where
  "keeps w w' = ((current w = None \<longrightarrow> current w' = None) \<and> (needsUpdate w \<longrightarrow> needsUpdate w'))"

definition grows :: "Graph \<Rightarrow> Graph \<Rightarrow> bool" where
  "grows g g' = (Names g' = Names g \<and> edges g' = edges g
     \<and> (\<forall>k w. Node g k = Some w \<longrightarrow> (\<exists>w'. Node g' k = Some w' \<and> keeps w w')))"

definition subgraph_names :: "Graph \<Rightarrow> resource_name \<Rightarrow> resource_name list" where
  "subgraph_names g r = filter (\<lambda>k. k \<in> set (descendants (edges g) r)) (Names g)"

definition removed :: "resource_name \<Rightarrow> Graph \<Rightarrow> bool" where
  "removed r g = ((\<exists>w. Node g r = Some w \<and> current w = None)
     \<and> (\<forall>n \<in> set (subgraph_names g r). n \<noteq> r \<and> \<not> ContainsRemoteNames n \<longrightarrow>
           (\<exists>w. Node g n = Some w \<and> needsUpdate w)))"

text \<open>What a lookup answers from a node it has found: the node's resource, or \<open>NotAvailable\<close> with the cause.\<close>

definition node_answer :: "resource_name \<Rightarrow> GraphNode \<Rightarrow> lookup_error + resource" where
  "node_answer name gNode =
     (case Resource gNode of Inl err \<Rightarrow> Inl (NotAvailableError name err) | Inr res \<Rightarrow> Inr res)"

text \<open>
  For \<open>updateResources\<close>: the shell services, the diff without what an untrusted environment
  refuses, the manager with the same state in a trusted environment, and what
  \<open>markResourceForUpdate\<close> does to the graph.
\<close>

definition is_shell :: "Config \<Rightarrow> bool" where
  "is_shell s = (API (ResourceName s) = shell_API)"

definition allowed_part :: "ConfigSet \<Rightarrow> ConfigSet" where
  "allowed_part cs = cs\<lparr>Services := filter (\<lambda>s. \<not> is_shell s) (Services cs), Processes := []\<rparr>"

definition allowed_diff :: "Diff \<Rightarrow> Diff" where
  "allowed_diff conf = \<lparr>Added = allowed_part (Added conf), Modified = allowed_part (Modified conf)\<rparr>"

definition trusted :: "'pm resourceManager \<Rightarrow> 'pm resourceManager" where
  "trusted manager = manager\<lparr>opts := (opts manager)\<lparr>untrustedEnv := False\<rparr>\<rparr>"

definition mark_graph :: "resource_name \<Rightarrow> Config \<Rightarrow> string list \<Rightarrow> Graph \<Rightarrow> Graph" where
  "mark_graph name conf deps g =
     (case Node g name of
        Some gNode \<Rightarrow>
          fold (RemoveChild name) (GetAllParentsOf g name) (put_node name (SetNewConfig conf deps gNode) g)
      | None \<Rightarrow>
          (case AddNode name (NewUnconfiguredGraphNode conf deps) g of
             Inl err \<Rightarrow> g
           | Inr g' \<Rightarrow> g'))"

definition policy_error :: "update_error \<Rightarrow> bool" where
  "policy_error e = (e = errShellServiceDisabled \<or> e = errProcessesDisabled)"

text \<open>
  What \<open>markResourceForUpdate\<close> leaves at the name it marks: the node that was there with the
  new configuration, or a new unconfigured node; either way the node needs reconfiguring.
\<close>

definition marked_node :: "GraphNode option \<Rightarrow> Config \<Rightarrow> string list \<Rightarrow> GraphNode" where
  "marked_node old conf deps =
     (case old of
        Some gNode \<Rightarrow> SetNewConfig conf deps gNode
      | None \<Rightarrow> NewUnconfiguredGraphNode conf deps)"

text \<open>
  The entries of a diff that an untrusted environment does not refuse, in the order
  \<open>updateResources\<close> comes to them, each as the name, the configuration and the dependencies
  it hands to \<open>markResourceForUpdate\<close>.  When a name comes twice the later entry is the one
  that stays.
\<close>

definition config_mark :: "Config \<Rightarrow> resource_name \<times> Config \<times> string list" where
  "config_mark c = (ResourceName c, c, Dependencies c)"

definition remote_mark :: "RemoteConfig \<Rightarrow> resource_name \<times> Config \<times> string list" where
  "remote_mark r =
     (fromRemoteNameToRemoteNodeName (remote_Name r), empty_Config\<lparr>ConvertedAttributes := Some r\<rparr>, [])"

definition marks_of :: "Diff \<Rightarrow> (resource_name \<times> Config \<times> string list) list" where
  "marks_of conf =
     map config_mark (filter (\<lambda>s. \<not> is_shell s) (Services (Added conf)))
     @ map config_mark (Components (Added conf))
     @ map remote_mark (Remotes (Added conf))
     @ map config_mark (Components (Modified conf))
     @ map config_mark (filter (\<lambda>s. \<not> is_shell s) (Services (Modified conf)))
     @ map remote_mark (Remotes (Modified conf))"

definition last_mark :: "(resource_name \<times> Config \<times> string list) list \<Rightarrow> resource_name \<Rightarrow> Config \<times> string list" where
  "last_mark ms name = snd (last (filter (\<lambda>m. fst m = name) ms))"

definition graph_step ::
  "('pm resourceManager \<times> update_error list \<Rightarrow> 'pm resourceManager \<times> update_error list)
    \<Rightarrow> (Graph \<Rightarrow> Graph) \<Rightarrow> 'pm resourceManager \<times> update_error list \<Rightarrow> bool" where
  "graph_step f G s = (fst (f s) = (fst s)\<lparr>resources := G (resources (fst s))\<rparr>
     \<and> (\<exists>es. snd (f s) = snd s @ es \<and> (\<forall>e \<in> set es. \<not> policy_error e)))"

definition reached ::
  "'pm resourceManager \<Rightarrow> Graph \<Rightarrow> nat \<Rightarrow> 'pm resourceManager \<times> update_error list \<Rightarrow> bool" where
  "reached manager g n s = (fst s = manager\<lparr>resources := g\<rparr>
     \<and> count_list (snd s) errShellServiceDisabled = n
     \<and> errProcessesDisabled \<notin> set (snd s))"

definition built_with_resource :: "'pm resourceManager \<times> resource option \<times> bool \<times> string option \<Rightarrow> bool" where
  "built_with_resource r = (fst (snd (snd r)) \<longrightarrow> snd (snd (snd r)) = None \<and> fst (snd r) \<noteq> None)"

section \<open>Example robots\<close>

text \<open>
  The concrete graphs the theorems below are run on: an arm \<open>a\<close>, the remotes \<open>r1\<close> and
  \<open>r2\<close>, the arms they expose, and the internal web service.
\<close>

definition arm_API :: api where
  "arm_API = MkAPI APINamespaceRDK ''component'' ''arm''"

definition ex_arm :: resource_name where
  "ex_arm = MkName arm_API [] ''a''"

definition ex_r1 :: resource_name where
  "ex_r1 = fromRemoteNameToRemoteNodeName ''r1''"

definition ex_r2 :: resource_name where
  "ex_r2 = fromRemoteNameToRemoteNodeName ''r2''"

definition ex_r1_arm :: resource_name where
  "ex_r1_arm = PrependRemote ''r1'' ex_arm"

definition ex_r2_arm :: resource_name where
  "ex_r2_arm = PrependRemote ''r2'' ex_arm"

definition ex_r3_arm :: resource_name where
  "ex_r3_arm = PrependRemote ''r3'' ex_arm"

definition ex_web :: resource_name where
  "ex_web = MkName (MkAPI APINamespaceRDKInternal ''service'' ''web'') [] ''builtin''"

definition ex_opts :: resourceManagerOptions where
  "ex_opts = \<lparr>debug = False, fromCommand = False, allowInsecureCreds = False,
     untrustedEnv = False, tlsConfig = None\<rparr>"

definition ex_graph1 :: Graph where
  "ex_graph1 = \<lparr>nodes = [
      (ex_arm, NewConfiguredGraphNode empty_Config ''arm-driver'' builtinModel),
      (ex_r1, NewConfiguredGraphNode empty_Config ''r1-client'' builtinModel),
      (ex_r1_arm, NewConfiguredGraphNode empty_Config ''r1-arm-client'' unknownModel),
      (ex_web, NewConfiguredGraphNode empty_Config ''web'' builtinModel)],
     edges = [(ex_r1_arm, ex_r1)]\<rparr>"

definition ex_manager1 :: "unit resourceManager" where
  "ex_manager1 = \<lparr>resources = ex_graph1, processManager = (), opts = ex_opts, logger = []\<rparr>"

definition ex_graph2 :: Graph where
  "ex_graph2 = \<lparr>nodes = [
      (ex_r1, NewConfiguredGraphNode empty_Config ''r1-client'' builtinModel),
      (ex_r2, NewConfiguredGraphNode empty_Config ''r2-client'' builtinModel),
      (ex_r1_arm, NewConfiguredGraphNode empty_Config ''r1-arm-client'' unknownModel),
      (ex_r2_arm, NewConfiguredGraphNode empty_Config ''r2-arm-client'' unknownModel)],
     edges = [(ex_r1_arm, ex_r1), (ex_r2_arm, ex_r2)]\<rparr>"

definition ex_manager2 :: "unit resourceManager" where
  "ex_manager2 = \<lparr>resources = ex_graph2, processManager = (), opts = ex_opts, logger = []\<rparr>"

text \<open>
  A remote dialled without TLS and without credentials of its own, and a transport that
  refuses such a dial unless the downgrade is allowed.
\<close>

definition ex_auth :: RemoteAuth where
  "ex_auth = \<lparr>Credentials = None, Entity = [], ExternalAuthAddress = [],
     ExternalAuthInsecure = False, ExternalAuthToEntity = [], Managed = False,
     SignalingServerAddress = [], SignalingAuthEntity = [], SignalingCreds = None\<rparr>"

definition ex_remote_config :: RemoteConfig where
  "ex_remote_config = \<lparr>remote_Name = ''r1'', remote_Address = ''10.0.0.2:8080'',
     remote_Insecure = True, remote_Auth = ex_auth\<rparr>"

definition ex_dial :: "RemoteConfig \<Rightarrow> DialOption list \<Rightarrow> dial_error + resource" where
  "ex_dial config dialOpts =
     (if WithInsecure \<in> set dialOpts
         \<and> WithAllowInsecureWithCredentialsDowngrade \<notin> set dialOpts
      then Inl (WrapsErrInsecureWithCredentials ''requested address is insecure'')
      else Inr (remote_Name config @ ''-client''))"

text \<open>A decoder that knows no format, and one that hands back a truncated image with its error.\<close>

definition ex_decode :: "byte list \<Rightarrow> string \<Rightarrow> decode_result" where
  "ex_decode bs mt = DecodeReturned None (Some ''unknown format'')"

definition ex_image :: Image where
  "ex_image = \<lparr>img_ColorModel = ''RGBA'', img_Bounds = (0, 0, 2, 2), img_At = (\<lambda>x y. 0)\<rparr>"

definition ex_decode_partial :: "byte list \<Rightarrow> string \<Rightarrow> decode_result" where
  "ex_decode_partial bs mt = DecodeReturned (Some ex_image) (Some ''unexpected EOF'')"

text \<open>A process started from an AppImage mounted at \<open>/tmp/.mount_x\<close>.\<close>

definition ex_os :: os_state where
  "ex_os = \<lparr>envs = [''APPIMAGE=/opt/viam-server.AppImage'', ''APPRUN_CWD=/home/robot'',
       ''APPRUN_ORIGINAL_PATH=/usr/bin'', ''PATH=/tmp/.mount_x/bin:/usr/bin''],
     cwd = ''/tmp/.mount_x'', dir_ok = (\<lambda>dir. dir = ''/home/robot'')\<rparr>"

text \<open>
  The same process with the variables a shell and the AppImage runtime add, one whose saved
  \<open>PATH\<close> shares no directory with the current one, and one in which the saved \<open>PATH\<close> has a
  saved value of its own.
\<close>

definition ex_os_full :: os_state where
  "ex_os_full = \<lparr>envs = [''HOME=/root'', ''APPIMAGE=/opt/viam-server.AppImage'',
       ''APPDIR=/tmp/.mount_x'', ''APPRUN_CWD=/home/robot'', ''ARGV0=viam-server'',
       ''PATH=/tmp/.mount_x/bin:/usr/bin'', ''APPRUN_ORIGINAL_PATH=/usr/bin'',
       ''LD_LIBRARY_PATH=/tmp/.mount_x/lib:/usr/lib''],
     cwd = ''/tmp/.mount_x'', dir_ok = (\<lambda>dir. dir = ''/home/robot'')\<rparr>"

definition ex_os_tools :: os_state where
  "ex_os_tools = \<lparr>envs = [''HOME=/root'', ''APPIMAGE=/opt/viam-server.AppImage'',
       ''APPRUN_CWD=/home/robot'', ''PATH=/tmp/.mount_x/bin:/opt/tools'',
       ''APPRUN_ORIGINAL_PATH=/usr/local/bin:/usr/bin''],
     cwd = ''/tmp/.mount_x'', dir_ok = (\<lambda>dir. dir = ''/home/robot'')\<rparr>"

definition ex_os_shadowed :: os_state where
  "ex_os_shadowed = \<lparr>envs = [''APPIMAGE=/opt/viam-server.AppImage'', ''APPRUN_CWD=/home/robot'',
       ''APPRUN_ORIGINAL_APPRUN_ORIGINAL_PATH=/evil'', ''APPRUN_ORIGINAL_PATH=/usr/bin'',
       ''PATH=/tmp/.mount_x/bin:/usr/bin''],
     cwd = ''/tmp/.mount_x'', dir_ok = (\<lambda>dir. dir = ''/home/robot'')\<rparr>"

text \<open>The remote robots, the world around the example managers, and the graphs of the remaining examples.\<close>

definition ex_robot :: "string \<Rightarrow> RemoteRobot" where
  "ex_robot r = \<lparr>rr_ResourceNames = [ex_arm],
     rr_ResourceByName = (\<lambda>n. if n = ex_arm then Inr (r @ ''-arm-client'')
                              else Inl (ClientError ''resource not found'')),
     rr_ResourceRPCAPIs = [(arm_API, MkServiceDescriptor (r @ ''.ArmService'') [])]\<rparr>"

definition ex_world :: world where
  "ex_world = \<lparr>
     as_robot = (\<lambda>res. if res = ''r1-client'' then Some (ex_robot ''r1'')
                       else if res = ''r2-client'' then Some (ex_robot ''r2'') else None),
     resource_Close = (\<lambda>res. None),
     resource_Name = (\<lambda>res. ex_arm),
     resource_Reconfigure = (\<lambda>res deps conf. None),
     RegisteredAPIs = (\<lambda>a. if a = arm_API
                            then Some (Some (MkServiceDescriptor ''viam.component.arm.v1.ArmService'' []))
                            else None),
     conf_Validate = (\<lambda>conf t. None),
     remote_Validate = (\<lambda>conf. None),
     newResource = (\<lambda>g gNode conf. Inr (conf_Name conf @ ''-driver'')),
     getDependencies = (\<lambda>g n gNode. Inr []),
     mod_Provides = (\<lambda>conf. False),
     mod_ValidateConfig = (\<lambda>conf. None),
     mod_ReconfigureResource = (\<lambda>conf deps. None),
     mod_IsModularResource = (\<lambda>n. False),
     mod_RemoveResource = (\<lambda>n. None)\<rparr>"

definition ex_graph3 :: Graph where
  "ex_graph3 = \<lparr>nodes = [
      (ex_r1, NewConfiguredGraphNode empty_Config ''r1-client'' builtinModel),
      (ex_r2, NewConfiguredGraphNode empty_Config ''r2-client'' builtinModel)],
     edges = []\<rparr>"

definition ex_manager3 :: "unit resourceManager" where
  "ex_manager3 = \<lparr>resources = ex_graph3, processManager = (), opts = ex_opts, logger = []\<rparr>"

definition ex_gripper :: resource_name where
  "ex_gripper = MkName (MkAPI APINamespaceRDK ''component'' ''gripper'') [] ''g''"

definition ex_graph4 :: Graph where
  "ex_graph4 = \<lparr>nodes = [
      (ex_r1, NewConfiguredGraphNode empty_Config ''r1-client'' builtinModel),
      (ex_r1_arm, NewConfiguredGraphNode empty_Config ''r1-arm-client'' unknownModel),
      (ex_gripper, NewConfiguredGraphNode empty_Config ''g-driver'' builtinModel)],
     edges = [(ex_r1_arm, ex_r1), (ex_gripper, ex_r1_arm)]\<rparr>"

definition ex_manager4 :: "unit resourceManager" where
  "ex_manager4 = \<lparr>resources = ex_graph4, processManager = (), opts = ex_opts, logger = []\<rparr>"

definition ex_lost :: RemoteRobot where
  "ex_lost = (ex_robot ''r1'')\<lparr>rr_ResourceNames := []\<rparr>"

text \<open>Two remotes and a local arm, all offering the arm API.\<close>

definition ex_graph6 :: Graph where
  "ex_graph6 = \<lparr>nodes = [
      (ex_r1, NewConfiguredGraphNode empty_Config ''r1-client'' builtinModel),
      (ex_r2, NewConfiguredGraphNode empty_Config ''r2-client'' builtinModel),
      (ex_arm, NewConfiguredGraphNode empty_Config ''arm-driver'' builtinModel)],
     edges = []\<rparr>"

definition ex_manager6 :: "unit resourceManager" where
  "ex_manager6 = \<lparr>resources = ex_graph6, processManager = (), opts = ex_opts, logger = []\<rparr>"

text \<open>A base not yet built, with a local gripper and the arm of \<open>r1\<close> depending on it.\<close>

definition ex_base :: resource_name where
  "ex_base = MkName (MkAPI APINamespaceRDK ''component'' ''base'') [] ''b''"

definition ex_base_conf :: Config where
  "ex_base_conf = \<lparr>conf_API = MkAPI APINamespaceRDK ''component'' ''base'', conf_Name = ''b'',
     conf_Model = ''rdk:builtin:wheeled'', conf_DependsOn = [], ConvertedAttributes = None\<rparr>"

definition ex_graph5 :: Graph where
  "ex_graph5 = \<lparr>nodes = [
      (ex_base, NewUnconfiguredGraphNode ex_base_conf []),
      (ex_gripper, NewConfiguredGraphNode empty_Config ''g-driver'' builtinModel),
      (ex_r1, NewConfiguredGraphNode empty_Config ''r1-client'' builtinModel),
      (ex_r1_arm, NewConfiguredGraphNode empty_Config ''r1-arm-client'' unknownModel)],
     edges = [(ex_gripper, ex_base), (ex_r1_arm, ex_r1), (ex_r1_arm, ex_base)]\<rparr>"

definition ex_manager5 :: "unit resourceManager" where
  "ex_manager5 = \<lparr>resources = ex_graph5, processManager = (), opts = ex_opts, logger = []\<rparr>"

text \<open>
  An untrusted manager that runs a gripper, and a diff that adds a base, a shell service, a
  motion service, a remote and a process, and modifies the gripper.
\<close>

definition ex_pexec :: "(string list, string) pexec" where
  "ex_pexec = \<lparr>AddProcessFromConfig = (\<lambda>p pm. (None, pm @ [proc_ID p])),
     RemoveProcessByID = (\<lambda>i pm. (if i \<in> set pm then Some i else None, removeAll i pm)),
     Stop = (\<lambda>proc. None)\<rparr>"

definition ex_shell_conf :: Config where
  "ex_shell_conf = \<lparr>conf_API = shell_API, conf_Name = ''sh'', conf_Model = ''rdk:builtin:builtin'',
     conf_DependsOn = [], ConvertedAttributes = None\<rparr>"

definition ex_motion_conf :: Config where
  "ex_motion_conf = \<lparr>conf_API = MkAPI APINamespaceRDK ''service'' ''motion'', conf_Name = ''m'',
     conf_Model = ''rdk:builtin:builtin'', conf_DependsOn = [''b''], ConvertedAttributes = None\<rparr>"

definition ex_gripper_conf :: Config where
  "ex_gripper_conf = \<lparr>conf_API = MkAPI APINamespaceRDK ''component'' ''gripper'', conf_Name = ''g'',
     conf_Model = ''rdk:builtin:fake'', conf_DependsOn = [''b''], ConvertedAttributes = None\<rparr>"

definition ex_diff :: Diff where
  "ex_diff = \<lparr>Added = \<lparr>Components = [ex_base_conf], Services = [ex_shell_conf, ex_motion_conf],
       Remotes = [ex_remote_config],
       Processes = [\<lparr>proc_ID = ''p1'', proc_Command = ''/bin/true''\<rparr>]\<rparr>,
     Modified = \<lparr>Components = [ex_gripper_conf], Services = [], Remotes = [], Processes = []\<rparr>\<rparr>"

definition ex_untrusted :: "string list resourceManager" where
  "ex_untrusted = \<lparr>resources = \<lparr>nodes = [(ex_gripper, NewConfiguredGraphNode empty_Config ''g-driver'' builtinModel)],
       edges = []\<rparr>,
     processManager = [],
     opts = ex_opts\<lparr>untrustedEnv := True\<rparr>, logger = []\<rparr>"

section \<open>Properties of the graph and of marking\<close>

lemma kahn_set: "set (kahn es rem) = set rem"
proof (induction es rem rule: kahn.induct)
  case (1 es rem)
  show ?case
  proof (cases "least_name (ready es rem)")
    case None
    then show ?thesis by (subst kahn.simps) simp
  next
    case (Some x)
    then have "x \<in> set rem"
      by (auto dest!: least_name_in simp: ready_def)
    with Some "1.IH" [OF Some] show ?thesis
      by (subst kahn.simps) auto
  qed
qed

lemma TopologicalSort_set: "set (TopologicalSort g) = set (Names g)"
  by (simp add: TopologicalSort_def kahn_set)

lemma SubGraphFrom_Names:
  "SubGraphFrom g r = Inr sg \<Longrightarrow> Names sg = subgraph_names g r"
  by (auto simp: SubGraphFrom_def subgraph_names_def Names_def filter_map comp_def split: if_splits)

lemma SubGraphFrom_node: "Node g r \<noteq> None \<Longrightarrow> \<exists>sg. SubGraphFrom g r = Inr sg"
  by (simp add: SubGraphFrom_def)

lemma subgraph_names_in: "n \<in> set (subgraph_names g r) \<Longrightarrow> \<exists>w. Node g n = Some w"
  unfolding subgraph_names_def Names_def Node_def
  by (auto dest: weak_map_of_SomeI)

text \<open>
  The depth-first search finds exactly the names that depend on the root, directly or through
  others: the subgraph of a root is the root with all its descendants.
\<close>

lemma children_in_Image: "set (children_in es x) = child_of es `` {x}"
  by (auto simp: children_in_def child_of_def intro: rev_image_eqI)

lemma closed_rtrancl_Image:
  assumes "R `` A \<subseteq> A"
  shows "R\<^sup>* `` A = A"
proof
  show "R\<^sup>* `` A \<subseteq> A"
  proof
    fix y assume "y \<in> R\<^sup>* `` A"
    then obtain x where "x \<in> A" "(x, y) \<in> R\<^sup>*" by blast
    from this(2) this(1) show "y \<in> A"
      using assms by (induction rule: rtrancl_induct) blast+
  qed
  show "A \<subseteq> R\<^sup>* `` A" by blast
qed

lemma dfs_reaches:
  "child_of es `` set vis \<subseteq> set vis \<union> set ws \<Longrightarrow>
     set (dfs es vis ws) = (child_of es)\<^sup>* `` (set vis \<union> set ws)"
proof (induction es vis ws rule: dfs.induct)
  case (1 es vis)
  then show ?case
    by (simp add: closed_rtrancl_Image)
next
  case (2 es vis x ws)
  show ?case
  proof (cases "x \<in> set vis")
    case True
    with "2.prems" have "child_of es `` set vis \<subseteq> set vis \<union> set ws" by auto
    from "2.IH"(1) [OF True this] True show ?thesis
      by (simp add: insert_absorb)
  next
    case False
    have inv: "child_of es `` set (vis @ [x]) \<subseteq> set (vis @ [x]) \<union> set (children_in es x @ ws)"
      using "2.prems" by (auto simp: children_in_Image)
    have "(child_of es)\<^sup>* `` (set (vis @ [x]) \<union> set (children_in es x @ ws))
        = (child_of es)\<^sup>* `` (set vis \<union> set (x # ws))"
    proof
      show "(child_of es)\<^sup>* `` (set (vis @ [x]) \<union> set (children_in es x @ ws))
          \<subseteq> (child_of es)\<^sup>* `` (set vis \<union> set (x # ws))"
      proof
        fix y assume "y \<in> (child_of es)\<^sup>* `` (set (vis @ [x]) \<union> set (children_in es x @ ws))"
        then obtain a where a: "a \<in> set (vis @ [x]) \<union> set (children_in es x @ ws)"
          and ay: "(a, y) \<in> (child_of es)\<^sup>*" by blast
        show "y \<in> (child_of es)\<^sup>* `` (set vis \<union> set (x # ws))"
        proof (cases "a \<in> set (children_in es x)")
          case True
          then have "(x, a) \<in> child_of es" by (simp add: children_in_Image)
          from this ay have "(x, y) \<in> (child_of es)\<^sup>*" by (rule converse_rtrancl_into_rtrancl)
          then show ?thesis by auto
        next
          case False
          with a ay show ?thesis by auto
        qed
      qed
      show "(child_of es)\<^sup>* `` (set vis \<union> set (x # ws))
          \<subseteq> (child_of es)\<^sup>* `` (set (vis @ [x]) \<union> set (children_in es x @ ws))"
        by auto
    qed
    with "2.IH"(2) [OF False inv] False show ?thesis
      by simp
  qed
qed

lemma descendants_rtrancl: "set (descendants es r) = {n. (r, n) \<in> (child_of es)\<^sup>*}"
  using dfs_reaches [of es "[]" "[r]"] by (auto simp: descendants_def)

lemma subgraph_names_rtrancl:
  "set (subgraph_names g r) = {n \<in> set (Names g). (r, n) \<in> (child_of (edges g))\<^sup>*}"
  by (auto simp: subgraph_names_def descendants_rtrancl)

lemma keeps_refl: "keeps w w"
  by (simp add: keeps_def)

lemma keeps_trans: "keeps a b \<Longrightarrow> keeps b c \<Longrightarrow> keeps a c"
  by (simp add: keeps_def)

lemma grows_refl: "grows g g"
  by (simp add: grows_def keeps_refl)

lemma grows_trans: "grows a b \<Longrightarrow> grows b c \<Longrightarrow> grows a c"
  unfolding grows_def by (metis keeps_trans)

lemma grows_subgraph_names: "grows g g' \<Longrightarrow> subgraph_names g' r = subgraph_names g r"
  by (simp add: grows_def subgraph_names_def)

lemma grows_put_node:
  assumes "Node g k = Some w" and "keeps w w'"
  shows "grows g (put_node k w' g)"
proof -
  from assms(1) have "k \<in> set (map fst (nodes g))"
    by (auto simp: Node_def dest: map_of_SomeD intro: rev_image_eqI)
  then have n: "Names (put_node k w' g) = Names g"
    by (simp add: Names_def put_node_def update_keys)
  have "\<exists>v'. Node (put_node k w' g) j = Some v' \<and> keeps v v'" if "Node g j = Some v" for j v
    using that assms by (cases "j = k") (auto simp: Node_def put_node_def update_conv' keeps_refl)
  with n show ?thesis
    by (simp add: grows_def put_node_def)
qed

lemma removed_grows:
  assumes "removed r g" and "grows g g'"
  shows "removed r g'"
proof -
  have a: "\<exists>w'. Node g' k = Some w' \<and> current w' = None" if "Node g k = Some w" "current w = None" for k w
    using that assms(2) unfolding grows_def keeps_def by blast
  have b: "\<exists>w'. Node g' k = Some w' \<and> needsUpdate w'" if "Node g k = Some w" "needsUpdate w" for k w
    using that assms(2) unfolding grows_def keeps_def by blast
  show ?thesis
    using assms(1) a b unfolding removed_def grows_subgraph_names [OF assms(2)] by blast
qed

lemma keeps_SetNeedsUpdate: "keeps w (SetNeedsUpdate w)"
  by (simp add: keeps_def SetNeedsUpdate_def)

lemma keeps_Close: "keeps w (fst (Close_node w))"
  by (simp add: keeps_def Close_node_def)

lemma resources_log [simp]: "resources (log e manager) = resources manager"
  by (simp add: log_def)

lemma resources_set_node [simp]: "resources (set_node k w manager) = put_node k w (resources manager)"
  by (simp add: set_node_def)

lemma markChildren_step_grows:
  "grows (resources manager) (resources (markChildren_step r n manager))"
  by (auto simp: markChildren_step_def grows_refl split: option.splits
      intro: grows_put_node keeps_SetNeedsUpdate)

lemma markChildren_fold_grows:
  "grows (resources manager) (resources (fold (markChildren_step r) xs manager))"
proof (induction xs arbitrary: manager)
  case Nil
  show ?case by (simp add: grows_refl)
next
  case (Cons x xs)
  show ?case
    using grows_trans [OF markChildren_step_grows Cons.IH] by simp
qed

lemma markChildren_step_marks:
  assumes "n \<noteq> r" and "\<not> ContainsRemoteNames n" and "Node (resources manager) n = Some w"
  shows "\<exists>w'. Node (resources (markChildren_step r n manager)) n = Some w' \<and> needsUpdate w'"
  using assms
  by (auto simp: markChildren_step_def Node_def put_node_def update_conv' SetNeedsUpdate_def)

lemma grows_needsUpdate:
  "grows g g' \<Longrightarrow> Node g k = Some w \<Longrightarrow> needsUpdate w \<Longrightarrow> \<exists>w'. Node g' k = Some w' \<and> needsUpdate w'"
  unfolding grows_def keeps_def by blast

lemma grows_Node:
  "grows g g' \<Longrightarrow> Node g k = Some w \<Longrightarrow> \<exists>w'. Node g' k = Some w'"
  unfolding grows_def by blast

lemma markChildren_fold_marks:
  assumes "n \<in> set xs" and "n \<noteq> r" and "\<not> ContainsRemoteNames n"
    and "Node (resources manager) n = Some w"
  shows "\<exists>w'. Node (resources (fold (markChildren_step r) xs manager)) n = Some w' \<and> needsUpdate w'"
  using assms
proof (induction xs arbitrary: manager w)
  case Nil
  then show ?case by simp
next
  case (Cons x xs)
  show ?case
  proof (cases "n = x")
    case True
    from markChildren_step_marks [OF Cons.prems(2,3,4)] obtain w1
      where "Node (resources (markChildren_step r n manager)) n = Some w1" "needsUpdate w1"
      by blast
    with grows_needsUpdate [OF markChildren_fold_grows this] True show ?thesis
      by simp
  next
    case False
    with Cons.prems have "n \<in> set xs" by simp
    moreover obtain w1 where "Node (resources (markChildren_step r x manager)) n = Some w1"
      using grows_Node [OF markChildren_step_grows Cons.prems(4)] by blast
    ultimately show ?thesis
      using Cons.IH [OF _ Cons.prems(2,3)] by simp
  qed
qed

lemma markChildren_fold_logger:
  "logger (fold (markChildren_step r) xs manager) = logger manager"
  by (induction xs arbitrary: manager)
    (auto simp: markChildren_step_def set_node_def split: option.splits)

lemma markChildrenForUpdate_marks:
  assumes "Node (resources manager) r \<noteq> None"
  shows "\<exists>manager'. markChildrenForUpdate r manager = Inr manager'
     \<and> grows (resources manager) (resources manager')
     \<and> logger manager' = logger manager
     \<and> (\<forall>n \<in> set (subgraph_names (resources manager') r). n \<noteq> r \<and> \<not> ContainsRemoteNames n \<longrightarrow>
          (\<exists>w. Node (resources manager') n = Some w \<and> needsUpdate w))"
proof -
  from assms obtain sg where sg: "SubGraphFrom (resources manager) r = Inr sg"
    using SubGraphFrom_node by blast
  define manager' where "manager' = fold (markChildren_step r) (TopologicalSort sg) manager"
  have run: "markChildrenForUpdate r manager = Inr manager'"
    by (simp add: markChildrenForUpdate_def sg manager'_def)
  have g: "grows (resources manager) (resources manager')"
    unfolding manager'_def by (rule markChildren_fold_grows)
  have l: "logger manager' = logger manager"
    unfolding manager'_def by (rule markChildren_fold_logger)
  have "\<exists>w. Node (resources manager') n = Some w \<and> needsUpdate w"
    if n: "n \<in> set (subgraph_names (resources manager') r)" "n \<noteq> r" "\<not> ContainsRemoteNames n" for n
  proof -
    from n(1) have n': "n \<in> set (subgraph_names (resources manager) r)"
      by (simp add: grows_subgraph_names [OF g])
    then obtain w where w: "Node (resources manager) n = Some w"
      using subgraph_names_in by blast
    from n' have "n \<in> set (TopologicalSort sg)"
      by (simp add: TopologicalSort_set SubGraphFrom_Names [OF sg])
    from markChildren_fold_marks [OF this n(2,3) w] show ?thesis
      by (simp add: manager'_def)
  qed
  with run g l show ?thesis by blast
qed

section \<open>The pull cycle\<close>

text \<open>
  Once a remote has reported a change, the rest of the cycle calls
  \<open>updateRemoteResourceNames\<close> on no remote: the manager stays as it is.
\<close>

lemma updateRemotes_loop_changed:
  "updateRemotes_loop w names (manager, True) = Inr s \<Longrightarrow> s = (manager, True)"
  by (induction names) (auto split: if_splits option.splits sum.splits)

text \<open>
  Claim C1, at a graph with two connected remotes that each expose an arm not yet in the
  graph.  The node of \<open>r2\<close> has a resource that is a robot reporting the arm.  One pull cycle
  returns true and has added the arm of \<open>r1\<close> only: \<open>r2\<close> still has no children, because
  \<open>updateRemoteResourceNames\<close> was not called on it once the first remote had reported a
  change.  Called on \<open>r2\<close>, it adds the arm of \<open>r2\<close>.
\<close>

theorem updateRemotesResourceNames_skips_remote:
  "map_option rr_ResourceNames
      (Option.bind (Node (resources ex_manager3) ex_r2)
         (\<lambda>gNode. case Resource gNode of Inl err \<Rightarrow> None | Inr res \<Rightarrow> as_robot ex_world res))
     = Some [ex_arm]
   \<and> (case updateRemotesResourceNames ex_world ex_manager3 of
         Inl err \<Rightarrow> False
       | Inr (manager, anythingChanged) \<Rightarrow>
           anythingChanged \<and> Names (resources manager) = [ex_r1, ex_r2, ex_r1_arm]
           \<and> GetAllChildrenOf (resources manager) ex_r2 = [])
   \<and> Names (resources (fst (updateRemoteResourceNames ex_world ex_r2 (ex_robot ''r2'') ex_manager3)))
       = [ex_r1, ex_r2, ex_r2_arm]"
  by code_simp

theorem updateRemotesResourceNames_skips_remote_witness:
  "\<exists>manager. updateRemotesResourceNames ex_world ex_manager3 = Inr (manager, True)
     \<and> ex_r2_arm \<notin> set (Names (resources manager))"
proof -
  have d: "ex_r2_arm \<notin> set [ex_r1, ex_r2, ex_r1_arm]"
    by code_simp
  show ?thesis
    using updateRemotesResourceNames_skips_remote d
    by (auto split: sum.splits prod.splits)
qed

section \<open>Properties of RPC API discovery\<close>

lemma logger_log: "logger (log e manager) = logger manager @ [e]"
  by (simp add: log_def)

lemma merge_keeps:
  "resources (fst (mergeResourceRPCAPIsWithRemote rts s)) = resources (fst s)
   \<and> set (logger (fst s)) \<subseteq> set (logger (fst (mergeResourceRPCAPIsWithRemote rts s)))
   \<and> (\<forall>a d. map_of (snd s) a = Some d \<longrightarrow>
         map_of (snd (mergeResourceRPCAPIsWithRemote rts s)) a = Some d)"
proof (induction rts s rule: mergeResourceRPCAPIsWithRemote.induct)
  case (1 s)
  show ?case by simp
next
  case (2 remoteType remoteTypes manager types)
  show ?case
  proof (cases "map_of types (fst remoteType)")
    case None
    with "2.IH"(1) [OF None] show ?thesis
      by (auto simp: map_add_def split: option.splits)
  next
    case (Some svcName)
    with "2.IH"(2) [OF Some] show ?thesis
      by (auto simp: logger_log)
  qed
qed

lemma merge_logs_clash:
  assumes "map_of types a = Some d" and "(a, d') \<in> set rts"
    and "GetFullyQualifiedName d \<noteq> GetFullyQualifiedName d'"
  shows "clash_entry d d' \<in> set (logger (fst (mergeResourceRPCAPIsWithRemote rts (manager, types))))"
  using assms
proof (induction rts arbitrary: manager types)
  case Nil
  then show ?case by simp
next
  case (Cons rt rts)
  show ?case
  proof (cases "rt = (a, d')")
    case True
    let ?m1 = "log (clash_entry d d') manager"
    have "clash_entry d d' \<in> set (logger (fst (?m1, types)))"
      by (simp add: logger_log)
    then have "clash_entry d d' \<in> set (logger (fst (mergeResourceRPCAPIsWithRemote rts (?m1, types))))"
      using merge_keeps [of rts "(?m1, types)"] by blast
    with True Cons.prems show ?thesis
      by (simp add: clash_entry_def)
  next
    case False
    with Cons.prems have in_rts: "(a, d') \<in> set rts" by simp
    show ?thesis
    proof (cases "map_of types (fst rt)")
      case None
      with Cons.prems(1) have "map_of (types @ [rt]) a = Some d"
        by (simp add: map_add_def)
      from Cons.IH [OF this in_rts Cons.prems(3)] None show ?thesis by simp
    next
      case (Some svcName)
      from Cons.IH [OF Cons.prems(1) in_rts Cons.prems(3)] Some show ?thesis by simp
    qed
  qed
qed

lemma RPCAPIs_step_keeps:
  "resources (fst (ResourceRPCAPIs_step w k s)) = resources (fst s)
   \<and> set (logger (fst s)) \<subseteq> set (logger (fst (ResourceRPCAPIs_step w k s)))
   \<and> (\<forall>a d. map_of (snd s) a = Some d \<longrightarrow> map_of (snd (ResourceRPCAPIs_step w k s)) a = Some d)"
proof -
  obtain manager types where s: "s = (manager, types)" by (cases s)
  have m: "resources (fst (mergeResourceRPCAPIsWithRemote rts (manager, types))) = resources manager
     \<and> set (logger manager) \<subseteq> set (logger (fst (mergeResourceRPCAPIsWithRemote rts (manager, types))))
     \<and> (\<forall>a d. map_of types a = Some d \<longrightarrow>
           map_of (snd (mergeResourceRPCAPIsWithRemote rts (manager, types))) a = Some d)" for rts
    using merge_keeps [of rts "(manager, types)"] by simp
  show ?thesis
    unfolding s ResourceRPCAPIs_step_def
    using m by (auto simp: logger_log map_add_def split: option.splits sum.splits)
qed

lemma RPCAPIs_fold_keeps:
  "resources (fst (fold (ResourceRPCAPIs_step w) ks s)) = resources (fst s)
   \<and> set (logger (fst s)) \<subseteq> set (logger (fst (fold (ResourceRPCAPIs_step w) ks s)))
   \<and> (\<forall>a d. map_of (snd s) a = Some d \<longrightarrow>
         map_of (snd (fold (ResourceRPCAPIs_step w) ks s)) a = Some d)"
proof (induction ks arbitrary: s)
  case Nil
  show ?case by simp
next
  case (Cons k ks)
  show ?case
    using RPCAPIs_step_keeps [of w k s] Cons.IH [of "ResourceRPCAPIs_step w k s"]
    by (simp del: split_paired_All) blast
qed

text \<open>
  Claim C2, as amended.  When the loop of \<open>ResourceRPCAPIs\<close> comes to a connected remote \<open>k\<close>
  that reports a descriptor \<open>d'\<close> for an API for which the names before \<open>k\<close> have already
  given a descriptor \<open>d\<close> with another fully qualified name, the clash is logged and the
  returned list carries \<open>d\<close>, the descriptor seen first.
\<close>

theorem ResourceRPCAPIs_keeps_first_seen:
  assumes names: "Names (resources manager) = pre @ k # post"
    and remote: "API k = RemoteAPI" "Node (resources manager) k = Some gNode" "HasResource gNode"
      "Resource gNode = Inr res" "as_robot w res = Some rr"
    and contributes: "(a, d') \<in> set (rr_ResourceRPCAPIs rr)"
    and known: "map_of (snd (fold (ResourceRPCAPIs_step w) pre (manager, []))) a = Some d"
    and differ: "GetFullyQualifiedName d \<noteq> GetFullyQualifiedName d'"
  shows "clash_entry d d' \<in> set (logger (fst (ResourceRPCAPIs w manager)))
     \<and> (a, d) \<in> set (snd (ResourceRPCAPIs w manager))
     \<and> map_of (snd (ResourceRPCAPIs w manager)) a = Some d"
proof -
  obtain m1 t1 where s1: "fold (ResourceRPCAPIs_step w) pre (manager, []) = (m1, t1)"
    by (cases "fold (ResourceRPCAPIs_step w) pre (manager, [])")
  define s2 where "s2 = ResourceRPCAPIs_step w k (m1, t1)"
  have run: "ResourceRPCAPIs w manager = fold (ResourceRPCAPIs_step w) post s2"
    by (simp add: ResourceRPCAPIs_def names s1 s2_def)
  have r1: "resources m1 = resources manager"
    using RPCAPIs_fold_keeps [of w pre "(manager, [])"] by (simp add: s1)
  have ns: "Namespace (API k) \<noteq> APINamespaceRDKInternal"
    by (simp add: remote(1) RemoteAPI_def APINamespaceRDK_def APINamespaceRDKInternal_def)
  have s2_eq: "s2 = mergeResourceRPCAPIsWithRemote (rr_ResourceRPCAPIs rr) (m1, t1)"
    using ns remote r1 by (simp add: s2_def ResourceRPCAPIs_step_def)
  have k1: "map_of t1 a = Some d"
    using known by (simp add: s1)
  from merge_logs_clash [OF k1 contributes differ]
  have l2: "clash_entry d d' \<in> set (logger (fst s2))"
    by (simp add: s2_eq)
  have k2: "map_of (snd s2) a = Some d"
    using merge_keeps [of "rr_ResourceRPCAPIs rr" "(m1, t1)"] k1 by (simp add: s2_eq)
  from RPCAPIs_fold_keeps [of w post s2] l2 k2
  have "clash_entry d d' \<in> set (logger (fst (ResourceRPCAPIs w manager)))"
    and m: "map_of (snd (ResourceRPCAPIs w manager)) a = Some d"
    unfolding run by blast+
  moreover from m have "(a, d) \<in> set (snd (ResourceRPCAPIs w manager))"
    by (rule map_of_SomeD)
  ultimately show ?thesis by simp
qed

theorem ResourceRPCAPIs_keeps_first_seen_witness:
  "clash_entry (MkServiceDescriptor ''r1.ArmService'' []) (MkServiceDescriptor ''r2.ArmService'' [])
     \<in> set (logger (fst (ResourceRPCAPIs ex_world ex_manager6)))
   \<and> (arm_API, MkServiceDescriptor ''r1.ArmService'' []) \<in> set (snd (ResourceRPCAPIs ex_world ex_manager6))"
proof -
  have names: "Names (resources ex_manager6) = [ex_r1] @ ex_r2 # [ex_arm]"
    by code_simp
  have remote: "API ex_r2 = RemoteAPI"
    "Node (resources ex_manager6) ex_r2 = Some (NewConfiguredGraphNode empty_Config ''r2-client'' builtinModel)"
    "HasResource (NewConfiguredGraphNode empty_Config ''r2-client'' builtinModel)"
    "Resource (NewConfiguredGraphNode empty_Config ''r2-client'' builtinModel) = Inr ''r2-client''"
    by code_simp+
  have robot: "as_robot ex_world ''r2-client'' = Some (ex_robot ''r2'')"
    by (simp add: ex_world_def)
  have contributes: "(arm_API, MkServiceDescriptor ''r2.ArmService'' []) \<in> set (rr_ResourceRPCAPIs (ex_robot ''r2''))"
    by (simp add: ex_robot_def)
  have known: "map_of (snd (fold (ResourceRPCAPIs_step ex_world) [ex_r1] (ex_manager6, []))) arm_API
      = Some (MkServiceDescriptor ''r1.ArmService'' [])"
    by code_simp
  have differ: "GetFullyQualifiedName (MkServiceDescriptor ''r1.ArmService'' [])
      \<noteq> GetFullyQualifiedName (MkServiceDescriptor ''r2.ArmService'' [])"
    by simp
  show ?thesis
    using ResourceRPCAPIs_keeps_first_seen [OF names remote robot contributes known differ]
    by simp
qed

text \<open>
  The claim as stated fails when the descriptor already known came from another remote:
  \<open>r1\<close> and \<open>r2\<close> report different services for the arm API, the clash is logged, and the
  list returned carries the service of \<open>r1\<close>, not the one the local registry holds for the
  API of the local arm.
\<close>

theorem ResourceRPCAPIs_local_counterexample:
  "snd (ResourceRPCAPIs ex_world ex_manager6) = [(arm_API, MkServiceDescriptor ''r1.ArmService'' [])]
   \<and> logger (fst (ResourceRPCAPIs ex_world ex_manager6))
       = [clash_entry (MkServiceDescriptor ''r1.ArmService'' []) (MkServiceDescriptor ''r2.ArmService'' [])]
   \<and> RegisteredAPIs ex_world arm_API
       = Some (Some (MkServiceDescriptor ''viam.component.arm.v1.ArmService'' []))
   \<and> ex_arm \<in> set (ResourceNames ex_manager6)"
  by code_simp

section \<open>Properties of remote reconciliation\<close>

lemma updateRemote_old_grows:
  "grows (resources (fst s)) (resources (fst (updateRemote_old w entry s)))
   \<and> (snd s \<longrightarrow> snd (updateRemote_old w entry s))"
proof -
  obtain resName isActive where e: "entry = (resName, isActive)" by (cases entry)
  obtain manager anythingChanged where s: "s = (manager, anythingChanged)" by (cases s)
  show ?thesis
  proof (cases "isActive \<or> Node (resources manager) resName = None")
    case True
    then show ?thesis
      by (auto simp: e s updateRemote_old_def markChildrenForUpdate_def SubGraphFrom_def grows_refl)
  next
    case False
    then have n: "Node (resources (log (Debugw ''removing remote resource'' [''name'', name_String resName]) manager)) resName \<noteq> None"
      by simp
    from markChildrenForUpdate_marks [OF n] obtain manager1
      where m1: "markChildrenForUpdate resName
          (log (Debugw ''removing remote resource'' [''name'', name_String resName]) manager) = Inr manager1"
        and g1: "grows (resources manager) (resources manager1)"
      by auto
    from False g1 obtain gNode where gNode: "Node (resources manager1) resName = Some gNode"
      using grows_Node by fastforce
    have "grows (resources manager1) (put_node resName (fst (Close_node gNode)) (resources manager1))"
      using gNode keeps_Close by (rule grows_put_node)
    with g1 have "grows (resources manager) (put_node resName (fst (Close_node gNode)) (resources manager1))"
      by (rule grows_trans)
    with False m1 gNode show ?thesis
      by (auto simp: e s updateRemote_old_def Let_def split: option.splits)
  qed
qed

lemma updateRemote_old_fold_grows:
  "grows (resources (fst s)) (resources (fst (fold (updateRemote_old w) entries s)))
   \<and> (snd s \<longrightarrow> snd (fold (updateRemote_old w) entries s))"
proof (induction entries arbitrary: s)
  case Nil
  show ?case by (simp add: grows_refl)
next
  case (Cons e es)
  show ?case
    using updateRemote_old_grows [of s w e] Cons.IH [of "updateRemote_old w e s"]
    by (auto intro: grows_trans)
qed

lemma updateRemote_old_removes:
  assumes "Node (resources manager) r \<noteq> None"
  shows "snd (updateRemote_old w (r, False) (manager, c))
     \<and> removed r (resources (fst (updateRemote_old w (r, False) (manager, c))))"
proof -
  let ?m0 = "log (Debugw ''removing remote resource'' [''name'', name_String r]) manager"
  from assms have n: "Node (resources ?m0) r \<noteq> None" by simp
  from markChildrenForUpdate_marks [OF n] obtain manager1
    where m1: "markChildrenForUpdate r ?m0 = Inr manager1"
      and g1: "grows (resources manager) (resources manager1)"
      and marks: "\<forall>n \<in> set (subgraph_names (resources manager1) r). n \<noteq> r \<and> \<not> ContainsRemoteNames n \<longrightarrow>
          (\<exists>w. Node (resources manager1) n = Some w \<and> needsUpdate w)"
    by auto
  from assms g1 obtain gNode where gNode: "Node (resources manager1) r = Some gNode"
    using grows_Node by fastforce
  let ?g2 = "put_node r (fst (Close_node gNode)) (resources manager1)"
  have g2: "grows (resources manager1) ?g2"
    using gNode keeps_Close by (rule grows_put_node)
  have closed: "\<exists>w. Node ?g2 r = Some w \<and> current w = None"
    by (simp add: Node_def put_node_def update_conv' Close_node_def)
  have "\<exists>w. Node ?g2 n = Some w \<and> needsUpdate w"
    if "n \<in> set (subgraph_names ?g2 r)" "n \<noteq> r" "\<not> ContainsRemoteNames n" for n
  proof -
    from that(1) have "n \<in> set (subgraph_names (resources manager1) r)"
      by (simp add: grows_subgraph_names [OF g2])
    with marks that obtain w where "Node (resources manager1) n = Some w" "needsUpdate w"
      by blast
    from grows_needsUpdate [OF g2 this] show ?thesis .
  qed
  with closed have "removed r ?g2"
    unfolding removed_def by blast
  with m1 gNode show ?thesis
    by (auto simp: updateRemote_old_def Let_def split: option.splits)
qed

lemma updateRemote_new_keeps:
  assumes "r \<noteq> PrependRemote (Name remoteName) x"
    and "map_of (fst (snd s)) r = Some False" and "Node (resources (fst s)) r \<noteq> None"
  shows "map_of (fst (snd (updateRemote_new remoteName rr x s))) r = Some False
     \<and> Node (resources (fst (updateRemote_new remoteName rr x s))) r \<noteq> None"
proof -
  obtain manager active c where s: "s = (manager, active, c)" by (cases s)
  have put: "Node (put_node k v g) r = Node g r" if "k \<noteq> r" for k v g
    using that by (simp add: Node_def put_node_def update_conv')
  have add: "Node g' r = Some y" if "AddNode k v g = Inr g'" "Node g r = Some y" for k v g g' y
    using that by (auto simp: AddNode_def Node_def split: if_splits)
  have child: "Node g' r = Node g r" if "AddChild k p g = Inr g'" for k p g g'
    using that by (auto simp: AddChild_def Node_def split: if_splits)
  show ?thesis
    using assms
    by (auto simp: s updateRemote_new_def Let_def update_conv' put add child
        split: sum.splits option.splits client_error.splits)
qed

lemma updateRemote_new_fold_keeps:
  assumes "r \<notin> PrependRemote (Name remoteName) ` set xs"
    and "map_of (fst (snd s)) r = Some False" and "Node (resources (fst s)) r \<noteq> None"
  shows "map_of (fst (snd (fold (updateRemote_new remoteName rr) xs s))) r = Some False
     \<and> Node (resources (fst (fold (updateRemote_new remoteName rr) xs s))) r \<noteq> None"
  using assms
proof (induction xs arbitrary: s)
  case Nil
  then show ?case by simp
next
  case (Cons x xs)
  from Cons.prems have "r \<noteq> PrependRemote (Name remoteName) x" by auto
  from updateRemote_new_keeps [OF this Cons.prems(2,3)] Cons.prems(1) show ?case
    using Cons.IH [of "updateRemote_new remoteName rr x s"] by simp
qed

lemma active_init:
  "map_of (fold (\<lambda>res active. AList.update res False active) old acc) r
     = (if r \<in> set old then Some False else map_of acc r)"
  by (induction old arbitrary: acc) (auto simp: update_conv')

text \<open>
  Claim C3.  Take a name \<open>r\<close> of the old snapshot (\<open>remoteResourceNames\<close>) that is a node of
  the graph and that no name the remote reports now becomes when the remote's name is
  prepended.  Then \<open>updateRemoteResourceNames\<close> returns true; afterwards the node \<open>r\<close> is
  closed, and every name of its subgraph other than \<open>r\<close> that has no remote path is marked
  with \<open>SetNeedsUpdate\<close>; these are the names without a remote path that depend on \<open>r\<close>,
  directly or through others.  (In the loop body \<open>updateRemote_old\<close> the marking comes first and
  the closing second.)
\<close>

theorem updateRemoteResourceNames_removes:
  assumes old: "r \<in> set (snd (remoteResourceNames manager remoteName))"
    and node: "Node (resources manager) r \<noteq> None"
    and absent: "r \<notin> PrependRemote (Name remoteName) ` set (rr_ResourceNames rr)"
  shows "snd (updateRemoteResourceNames w remoteName rr manager)
     \<and> (\<exists>gNode sg. Node (resources (fst (updateRemoteResourceNames w remoteName rr manager))) r = Some gNode
           \<and> current gNode = None
           \<and> SubGraphFrom (resources (fst (updateRemoteResourceNames w remoteName rr manager))) r = Inr sg
           \<and> (\<forall>n \<in> set (Names sg). n \<noteq> r \<and> \<not> ContainsRemoteNames n \<longrightarrow>
                (\<exists>w'. Node (resources (fst (updateRemoteResourceNames w remoteName rr manager))) n = Some w'
                   \<and> needsUpdate w')))
     \<and> (\<forall>n \<in> set (Names (resources (fst (updateRemoteResourceNames w remoteName rr manager)))).
           (r, n) \<in> (child_of (edges (resources (fst (updateRemoteResourceNames w remoteName rr manager)))))\<^sup>*
           \<and> n \<noteq> r \<and> \<not> ContainsRemoteNames n \<longrightarrow>
           (\<exists>w'. Node (resources (fst (updateRemoteResourceNames w remoteName rr manager))) n = Some w'
              \<and> needsUpdate w'))"
proof -
  define oldr where "oldr = remoteResourceNames manager remoteName"
  define active0 where "active0 = fold (\<lambda>res active. AList.update res False active) (snd oldr) []"
  define s1 where "s1 = fold (updateRemote_new remoteName rr) (rr_ResourceNames rr) (fst oldr, active0, False)"
  define final where "final = fold (updateRemote_old w) (fst (snd s1)) (fst s1, snd (snd s1))"
  have run: "updateRemoteResourceNames w remoteName rr manager = final"
    by (simp add: updateRemoteResourceNames_def Let_def final_def s1_def active0_def oldr_def)
  have a0: "map_of active0 r = Some False"
    using old by (simp add: active0_def oldr_def active_init)
  have n0: "Node (resources (fst oldr)) r \<noteq> None"
    using node by (simp add: oldr_def remoteResourceNames_def)
  from updateRemote_new_fold_keeps [OF absent, of "(fst oldr, active0, False)" rr] a0 n0
  have a1: "map_of (fst (snd s1)) r = Some False" and n1: "Node (resources (fst s1)) r \<noteq> None"
    by (simp_all add: s1_def)
  from a1 have "(r, False) \<in> set (fst (snd s1))"
    by (rule map_of_SomeD)
  then obtain pre post where split: "fst (snd s1) = pre @ (r, False) # post"
    by (auto simp: in_set_conv_decomp)
  define sp where "sp = fold (updateRemote_old w) pre (fst s1, snd (snd s1))"
  define sr where "sr = updateRemote_old w (r, False) sp"
  have fin: "final = fold (updateRemote_old w) post sr"
    by (simp add: final_def split sp_def sr_def)
  have "grows (resources (fst s1)) (resources (fst sp))"
    using updateRemote_old_fold_grows [of "(fst s1, snd (snd s1))" w pre] by (simp add: sp_def)
  with n1 have "Node (resources (fst sp)) r \<noteq> None"
    using grows_Node by fastforce
  from updateRemote_old_removes [OF this, of w "snd sp"]
  have cr: "snd sr" and rr: "removed r (resources (fst sr))"
    by (simp_all add: sr_def)
  from updateRemote_old_fold_grows [of sr w post] cr
  have c: "snd final" and g: "grows (resources (fst sr)) (resources (fst final))"
    by (simp_all add: fin)
  from removed_grows [OF rr g] have rem: "removed r (resources (fst final))" .
  then obtain gNode where gNode: "Node (resources (fst final)) r = Some gNode" "current gNode = None"
    unfolding removed_def by blast
  then obtain sg where sg: "SubGraphFrom (resources (fst final)) r = Inr sg"
    using SubGraphFrom_node by fastforce
  from rem have marks: "\<forall>n \<in> set (Names sg). n \<noteq> r \<and> \<not> ContainsRemoteNames n \<longrightarrow>
      (\<exists>w'. Node (resources (fst final)) n = Some w' \<and> needsUpdate w')"
    unfolding removed_def SubGraphFrom_Names [OF sg] by blast
  then have "\<forall>n \<in> set (Names (resources (fst final))).
      (r, n) \<in> (child_of (edges (resources (fst final))))\<^sup>* \<and> n \<noteq> r \<and> \<not> ContainsRemoteNames n \<longrightarrow>
      (\<exists>w'. Node (resources (fst final)) n = Some w' \<and> needsUpdate w')"
    unfolding SubGraphFrom_Names [OF sg] subgraph_names_rtrancl by blast
  with c gNode sg marks show ?thesis
    unfolding run by blast
qed

theorem updateRemoteResourceNames_removes_witness:
  "snd (updateRemoteResourceNames ex_world ex_r1 ex_lost ex_manager4)
   \<and> map_option current
        (Node (resources (fst (updateRemoteResourceNames ex_world ex_r1 ex_lost ex_manager4))) ex_r1_arm)
       = Some None
   \<and> map_option needsUpdate
        (Node (resources (fst (updateRemoteResourceNames ex_world ex_r1 ex_lost ex_manager4))) ex_gripper)
       = Some True"
proof -
  let ?g = "resources (fst (updateRemoteResourceNames ex_world ex_r1 ex_lost ex_manager4))"
  have old: "ex_r1_arm \<in> set (snd (remoteResourceNames ex_manager4 ex_r1))"
    by code_simp
  have node: "Node (resources ex_manager4) ex_r1_arm \<noteq> None"
    by code_simp
  have absent: "ex_r1_arm \<notin> PrependRemote (Name ex_r1) ` set (rr_ResourceNames ex_lost)"
    by (simp add: ex_lost_def)
  have sub: "map_sum id Names (SubGraphFrom ?g ex_r1_arm) = Inr [ex_r1_arm, ex_gripper]"
    by code_simp
  have local: "ex_gripper \<noteq> ex_r1_arm \<and> \<not> ContainsRemoteNames ex_gripper"
    by code_simp
  from updateRemoteResourceNames_removes [OF old node absent, of ex_world]
  obtain gNode sg where c: "snd (updateRemoteResourceNames ex_world ex_r1 ex_lost ex_manager4)"
    and n: "Node ?g ex_r1_arm = Some gNode" "current gNode = None"
    and sg: "SubGraphFrom ?g ex_r1_arm = Inr sg"
    and marks: "\<forall>n \<in> set (Names sg). n \<noteq> ex_r1_arm \<and> \<not> ContainsRemoteNames n \<longrightarrow>
        (\<exists>w'. Node ?g n = Some w' \<and> needsUpdate w')"
    by blast
  from sub sg have "ex_gripper \<in> set (Names sg)" by simp
  with marks local obtain w' where "Node ?g ex_gripper = Some w'" "needsUpdate w'"
    by blast
  with c n show ?thesis by simp
qed

section \<open>Properties of ResourceByName\<close>

lemma FindNodes_Node:
  "k \<in> set (FindNodesByShortNameAndAPI g name) \<Longrightarrow> \<exists>w. Node g k = Some w"
  unfolding FindNodesByShortNameAndAPI_def Names_def Node_def
  by (auto dest: weak_map_of_SomeI)

text \<open>
  Claim C4.  A name that has a node is answered from that node.  A name without a remote
  path and without a node goes through the partial match: more than one match is a clash,
  the only match is answered from its node, no match is not-found.  A name with a remote
  path and without a node is not-found, whatever the partial match would give.
\<close>

theorem ResourceByName_cases:
  "(\<forall>gNode. Node (resources manager) name = Some gNode \<longrightarrow>
       ResourceByName manager name = node_answer name gNode)
   \<and> (Node (resources manager) name = None \<and> \<not> ContainsRemoteNames name \<longrightarrow>
        (1 < length (FindNodesByShortNameAndAPI (resources manager) name) \<longrightarrow>
           ResourceByName manager name = Inl (RemoteResourceClashError (Name name)))
      \<and> (\<forall>key. FindNodesByShortNameAndAPI (resources manager) name = [key] \<longrightarrow>
           (\<exists>gNode. Node (resources manager) key = Some gNode
              \<and> ResourceByName manager name = node_answer name gNode))
      \<and> (FindNodesByShortNameAndAPI (resources manager) name = [] \<longrightarrow>
           ResourceByName manager name = Inl (NotFoundError name)))
   \<and> (Node (resources manager) name = None \<and> ContainsRemoteNames name \<longrightarrow>
        ResourceByName manager name = Inl (NotFoundError name))"
proof (intro conjI allI impI)
  fix gNode assume "Node (resources manager) name = Some gNode"
  then show "ResourceByName manager name = node_answer name gNode"
    by (simp add: ResourceByName_def node_answer_def)
next
  assume "Node (resources manager) name = None \<and> \<not> ContainsRemoteNames name"
    and "1 < length (FindNodesByShortNameAndAPI (resources manager) name)"
  then show "ResourceByName manager name = Inl (RemoteResourceClashError (Name name))"
    by (auto simp: ResourceByName_def split: list.splits)
next
  fix key
  assume h: "Node (resources manager) name = None \<and> \<not> ContainsRemoteNames name"
    and k: "FindNodesByShortNameAndAPI (resources manager) name = [key]"
  from k have "key \<in> set (FindNodesByShortNameAndAPI (resources manager) name)" by simp
  then obtain w where w: "Node (resources manager) key = Some w"
    using FindNodes_Node by blast
  with h k have "ResourceByName manager name = node_answer name w"
    by (simp add: ResourceByName_def node_answer_def)
  with w show "\<exists>gNode. Node (resources manager) key = Some gNode
      \<and> ResourceByName manager name = node_answer name gNode"
    by blast
next
  assume "Node (resources manager) name = None \<and> \<not> ContainsRemoteNames name"
    and "FindNodesByShortNameAndAPI (resources manager) name = []"
  then show "ResourceByName manager name = Inl (NotFoundError name)"
    by (simp add: ResourceByName_def)
next
  assume "Node (resources manager) name = None \<and> ContainsRemoteNames name"
  then show "ResourceByName manager name = Inl (NotFoundError name)"
    by (simp add: ResourceByName_def)
qed

theorem ResourceByName_cases_witness:
  "ResourceByName ex_manager2 ex_arm = Inl (RemoteResourceClashError ''a'')
   \<and> ResourceByName ex_manager2 ex_r1_arm = Inr ''r1-arm-client''
   \<and> ResourceByName ex_manager2 ex_r3_arm = Inl (NotFoundError ex_r3_arm)"
proof -
  have n1: "Node (resources ex_manager2) ex_arm = None \<and> \<not> ContainsRemoteNames ex_arm"
    by code_simp
  have l1: "1 < length (FindNodesByShortNameAndAPI (resources ex_manager2) ex_arm)"
    by code_simp
  have a: "Name ex_arm = ''a''" by code_simp
  have c1: "ResourceByName ex_manager2 ex_arm = Inl (RemoteResourceClashError ''a'')"
    using ResourceByName_cases [of ex_manager2 ex_arm] n1 l1 a by simp
  have n2: "Node (resources ex_manager2) ex_r1_arm
      = Some (NewConfiguredGraphNode empty_Config ''r1-arm-client'' unknownModel)"
    by code_simp
  have r2: "node_answer ex_r1_arm (NewConfiguredGraphNode empty_Config ''r1-arm-client'' unknownModel)
      = Inr ''r1-arm-client''"
    by code_simp
  have c2: "ResourceByName ex_manager2 ex_r1_arm = Inr ''r1-arm-client''"
    using ResourceByName_cases [of ex_manager2 ex_r1_arm] n2 r2 by simp
  have n3: "Node (resources ex_manager2) ex_r3_arm = None \<and> ContainsRemoteNames ex_r3_arm"
    by code_simp
  have c3: "ResourceByName ex_manager2 ex_r3_arm = Inl (NotFoundError ex_r3_arm)"
    using ResourceByName_cases [of ex_manager2 ex_r3_arm] n3 by simp
  show ?thesis using c1 c2 c3 by simp
qed

section \<open>Properties of updateResources\<close>

lemma fold_RemoveChild:
  "fold (\<lambda>parent m. m\<lparr>resources := RemoveChild name parent (resources m)\<rparr>) ps manager
     = manager\<lparr>resources := fold (RemoveChild name) ps (resources manager)\<rparr>"
  by (induction ps arbitrary: manager) simp_all

lemma markResourceForUpdate_result:
  "snd (markResourceForUpdate name conf deps manager)
     = manager\<lparr>resources := mark_graph name conf deps (resources manager)\<rparr>
   \<and> (\<forall>e. fst (markResourceForUpdate name conf deps manager) = Some e \<longrightarrow> \<not> policy_error e)"
  by (simp add: markResourceForUpdate_def mark_graph_def fold_RemoveChild set_node_def policy_error_def
      split: option.splits sum.splits)

lemma combine_cases:
  "combine allErrs err = allErrs @ (case err of None \<Rightarrow> [] | Some e \<Rightarrow> [e])"
  by (simp add: combine_def split: option.splits)

lemma update_component_step:
  "graph_step (update_component c) (mark_graph (ResourceName c) c (Dependencies c)) s"
  using markResourceForUpdate_result [of "ResourceName c" c "Dependencies c" "fst s"]
  by (cases s)
    (auto simp: graph_step_def update_component_def Let_def combine_cases split: prod.splits option.splits)

lemma update_remote_step:
  "graph_step (update_remote r)
     (mark_graph (fromRemoteNameToRemoteNodeName (remote_Name r))
        (empty_Config\<lparr>ConvertedAttributes := Some r\<rparr>) []) s"
  using markResourceForUpdate_result [of "fromRemoteNameToRemoteNodeName (remote_Name r)"
      "empty_Config\<lparr>ConvertedAttributes := Some r\<rparr>" "[]" "fst s"]
  by (cases s)
    (auto simp: graph_step_def update_remote_def Let_def combine_cases split: prod.splits option.splits)

lemma update_service_step:
  "\<not> (untrustedEnv (opts (fst s)) \<and> is_shell c) \<Longrightarrow>
     graph_step (update_service c) (mark_graph (ResourceName c) c (Dependencies c)) s"
  using markResourceForUpdate_result [of "ResourceName c" c "Dependencies c" "fst s"]
  by (cases s)
    (auto simp: graph_step_def update_service_def is_shell_def Let_def combine_cases
      split: prod.splits option.splits)

lemma update_service_rejects:
  "untrustedEnv (opts (fst s)) \<Longrightarrow> is_shell c \<Longrightarrow>
     update_service c s = (fst s, snd s @ [errShellServiceDisabled])"
  by (cases s) (simp add: update_service_def is_shell_def combine_def)

lemma reached_graph_step:
  assumes "reached manager g n s" and "graph_step f G s"
  shows "reached manager (G g) n (f s)"
proof -
  from assms(2) obtain es where f: "fst (f s) = (fst s)\<lparr>resources := G (resources (fst s))\<rparr>"
      "snd (f s) = snd s @ es" "\<forall>e \<in> set es. \<not> policy_error e"
    unfolding graph_step_def by blast
  from f(3) have "count_list es errShellServiceDisabled = 0" "errProcessesDisabled \<notin> set es"
    by (auto simp: policy_error_def count_list_0_iff)
  with assms(1) f(1,2) show ?thesis
    by (simp add: reached_def)
qed

lemma reached_components:
  "reached manager g n s \<Longrightarrow>
     reached manager (fold (\<lambda>c. mark_graph (ResourceName c) c (Dependencies c)) cs g) n
       (fold update_component cs s)"
proof (induction cs arbitrary: g s)
  case Nil
  then show ?case by simp
next
  case (Cons c cs)
  from Cons.IH [OF reached_graph_step [OF Cons.prems update_component_step]] show ?case
    by simp
qed

lemma reached_remotes:
  "reached manager g n s \<Longrightarrow>
     reached manager
       (fold (\<lambda>r. mark_graph (fromRemoteNameToRemoteNodeName (remote_Name r))
                 (empty_Config\<lparr>ConvertedAttributes := Some r\<rparr>) []) rs g) n
       (fold update_remote rs s)"
proof (induction rs arbitrary: g s)
  case Nil
  then show ?case by simp
next
  case (Cons r rs)
  from Cons.IH [OF reached_graph_step [OF Cons.prems update_remote_step]] show ?case
    by simp
qed

lemma reached_services_untrusted:
  "untrustedEnv (opts manager) \<Longrightarrow> reached manager g n s \<Longrightarrow>
     reached manager
       (fold (\<lambda>c. mark_graph (ResourceName c) c (Dependencies c)) (filter (\<lambda>s. \<not> is_shell s) ss) g)
       (n + length (filter is_shell ss))
       (fold update_service ss s)"
proof (induction ss arbitrary: g n s)
  case Nil
  then show ?case by simp
next
  case (Cons c ss)
  from Cons.prems have u: "untrustedEnv (opts (fst s))"
    by (simp add: reached_def)
  show ?case
  proof (cases "is_shell c")
    case True
    from Cons.prems(2) have "reached manager g (Suc n) (update_service c s)"
      by (simp add: update_service_rejects [OF u True] reached_def)
    from Cons.IH [OF Cons.prems(1) this] True show ?thesis by simp
  next
    case False
    then have "graph_step (update_service c) (mark_graph (ResourceName c) c (Dependencies c)) s"
      by (intro update_service_step) simp
    from Cons.IH [OF Cons.prems(1) reached_graph_step [OF Cons.prems(2) this]] False show ?thesis
      by simp
  qed
qed

lemma reached_services_trusted:
  "\<not> untrustedEnv (opts manager) \<Longrightarrow> reached manager g n s \<Longrightarrow>
     reached manager (fold (\<lambda>c. mark_graph (ResourceName c) c (Dependencies c)) ss g) n
       (fold update_service ss s)"
proof (induction ss arbitrary: g s)
  case Nil
  then show ?case by simp
next
  case (Cons c ss)
  from Cons.prems have "\<not> (untrustedEnv (opts (fst s)) \<and> is_shell c)"
    by (simp add: reached_def)
  then have "graph_step (update_service c) (mark_graph (ResourceName c) c (Dependencies c)) s"
    by (rule update_service_step)
  from Cons.IH [OF Cons.prems(1) reached_graph_step [OF Cons.prems(2) this]] show ?case
    by simp
qed

lemma add_processes_untrusted:
  "untrustedEnv (opts (fst s)) \<Longrightarrow>
     add_processes px ps s = (fst s, snd s @ (if ps = [] then [] else [errProcessesDisabled]))"
  by (cases ps; cases s) (simp_all add: combine_def)

lemma modify_processes_untrusted:
  "untrustedEnv (opts (fst s)) \<Longrightarrow>
     modify_processes px ps s = (fst s, snd s @ (if ps = [] then [] else [errProcessesDisabled]))"
  by (cases ps; cases s) (simp_all add: combine_def)

lemma Node_RemoveChild: "Node (RemoveChild c p g) k = Node g k"
  by (simp add: Node_def RemoveChild_def)

lemma Node_fold_RemoveChild: "Node (fold (RemoveChild c) ps g) k = Node g k"
  by (induction ps arbitrary: g) (simp_all add: Node_RemoveChild)

lemma Node_put_node_other: "k \<noteq> name \<Longrightarrow> Node (put_node name v g) k = Node g k"
  by (simp add: Node_def put_node_def update_conv')

lemma mark_graph_other:
  assumes "k \<noteq> name"
  shows "Node (mark_graph name conf deps g) k = Node g k"
proof (cases "Node g name")
  case None
  then have "mark_graph name conf deps g = g\<lparr>nodes := nodes g @ [(name, NewUnconfiguredGraphNode conf deps)]\<rparr>"
    by (simp add: mark_graph_def AddNode_def)
  with assms show ?thesis
    by (auto simp: Node_def map_add_def split: option.splits)
next
  case (Some gNode)
  then show ?thesis
    using assms by (simp add: mark_graph_def Node_fold_RemoveChild Node_put_node_other)
qed

lemma fold_mark_other:
  "\<forall>c \<in> set cs. name_of c \<noteq> k \<Longrightarrow>
     Node (fold (\<lambda>c. mark_graph (name_of c) (conf_of c) (deps_of c)) cs g) k = Node g k"
proof (induction cs arbitrary: g)
  case Nil
  show ?case by simp
next
  case (Cons c cs)
  then have "name_of c \<noteq> k" and rest: "\<forall>c \<in> set cs. name_of c \<noteq> k"
    by auto
  then have "Node (mark_graph (name_of c) (conf_of c) (deps_of c) g) k = Node g k"
    by (intro mark_graph_other) auto
  with Cons.IH [OF rest] show ?case by simp
qed

subsection \<open>The node a mark leaves\<close>

lemma Node_put_node_same: "Node (put_node name v g) name = Some v"
  by (simp add: Node_def put_node_def update_conv')

lemma mark_graph_self:
  "Node (mark_graph name conf deps g) name = Some (marked_node (Node g name) conf deps)"
proof (cases "Node g name")
  case None
  then have "mark_graph name conf deps g = g\<lparr>nodes := nodes g @ [(name, NewUnconfiguredGraphNode conf deps)]\<rparr>"
    by (simp add: mark_graph_def AddNode_def)
  with None show ?thesis
    by (auto simp: Node_def marked_node_def map_add_def split: option.splits)
next
  case (Some gNode)
  then show ?thesis
    by (simp add: mark_graph_def marked_node_def Node_fold_RemoveChild Node_put_node_same)
qed

lemma marked_node_twice:
  "marked_node (Some (marked_node old conf0 deps0)) conf deps = marked_node old conf deps"
  by (cases old) (simp_all add: marked_node_def SetNewConfig_def NewUnconfiguredGraphNode_def)

lemma marked_node_fields:
  "needsReconfigure (marked_node old conf deps)
   \<and> node_config (marked_node old conf deps) = conf
   \<and> unresolvedDependencies (marked_node old conf deps) = deps"
  by (cases old) (simp_all add: marked_node_def SetNewConfig_def NewUnconfiguredGraphNode_def)

lemma fold_mark_last:
  "name \<in> fst ` set ms \<Longrightarrow>
   Node (fold (\<lambda>m. mark_graph (fst m) (fst (snd m)) (snd (snd m))) ms g) name
     = Some (marked_node (Node g name) (fst (last_mark ms name)) (snd (last_mark ms name)))"
proof (induction ms rule: rev_induct)
  case Nil
  then show ?case by simp
next
  case (snoc x ms)
  let ?mk = "\<lambda>m. mark_graph (fst m) (fst (snd m)) (snd (snd m))"
  let ?G = "fold ?mk ms g"
  show ?case
  proof (cases "fst x = name")
    case True
    then have l: "last_mark (ms @ [x]) name = snd x"
      by (simp add: last_mark_def)
    have n: "Node (fold ?mk (ms @ [x]) g) name = Some (marked_node (Node ?G name) (fst (snd x)) (snd (snd x)))"
      using True mark_graph_self [of name "fst (snd x)" "snd (snd x)" ?G] by simp
    show ?thesis
    proof (cases "name \<in> fst ` set ms")
      case True
      from snoc.IH [OF this] n l show ?thesis
        by (simp add: marked_node_twice)
    next
      case False
      then have "\<forall>c \<in> set ms. fst c \<noteq> name" by auto
      from fold_mark_other [of ms fst name "\<lambda>m. fst (snd m)" "\<lambda>m. snd (snd m)" g, OF this] n l
      show ?thesis by simp
    qed
  next
    case False
    with snoc.prems have in_ms: "name \<in> fst ` set ms" by auto
    from False have l: "last_mark (ms @ [x]) name = last_mark ms name"
      by (simp add: last_mark_def)
    have "Node (fold ?mk (ms @ [x]) g) name = Node ?G name"
      using False mark_graph_other [of name "fst x" "fst (snd x)" "snd (snd x)" ?G] by simp
    with snoc.IH [OF in_ms] l show ?thesis by simp
  qed
qed

lemma last_mark_only:
  assumes "m \<in> set ms" and "\<forall>m' \<in> set ms. fst m' = fst m \<longrightarrow> m' = m"
  shows "last_mark ms (fst m) = snd m"
proof -
  let ?fs = "filter (\<lambda>x. fst x = fst m) ms"
  from assms(1) have "m \<in> set ?fs" by simp
  then have "?fs \<noteq> []" by (metis empty_iff empty_set)
  then have "last ?fs \<in> set ?fs" by (rule last_in_set)
  with assms(2) have "last ?fs = m" by auto
  then show ?thesis by (simp add: last_mark_def)
qed

lemma fold_marks_of:
  "fold (\<lambda>m. mark_graph (fst m) (fst (snd m)) (snd (snd m))) (marks_of conf) g =
     fold (\<lambda>r. mark_graph (fromRemoteNameToRemoteNodeName (remote_Name r))
                 (empty_Config\<lparr>ConvertedAttributes := Some r\<rparr>) []) (Remotes (Modified conf))
       (fold (\<lambda>c. mark_graph (ResourceName c) c (Dependencies c)) (filter (\<lambda>s. \<not> is_shell s) (Services (Modified conf)))
         (fold (\<lambda>c. mark_graph (ResourceName c) c (Dependencies c)) (Components (Modified conf))
           (fold (\<lambda>r. mark_graph (fromRemoteNameToRemoteNodeName (remote_Name r))
                     (empty_Config\<lparr>ConvertedAttributes := Some r\<rparr>) []) (Remotes (Added conf))
             (fold (\<lambda>c. mark_graph (ResourceName c) c (Dependencies c)) (Components (Added conf))
               (fold (\<lambda>c. mark_graph (ResourceName c) c (Dependencies c))
                  (filter (\<lambda>s. \<not> is_shell s) (Services (Added conf))) g)))))"
  by (simp add: marks_of_def fold_map comp_def config_mark_def remote_mark_def)

text \<open>
  Claim C5.  In an untrusted environment the error of \<open>updateResources\<close> holds
  \<open>errShellServiceDisabled\<close> once for every added or modified shell service, and
  \<open>errProcessesDisabled\<close> when a process is added or modified; the process manager is left as
  it was; the graph is the one a trusted manager in the same state makes of the diff
  without the shell services and the processes; and a shell service name that was not in
  the graph (and is not the name of a component of the diff) is not in it afterwards.
  Every other entry of the diff (\<open>marks_of\<close>: the added and modified components, services
  that are no shell service, and remotes) is marked: its name is a node of the graph that
  needs reconfiguring and carries the configuration and the dependencies of the last entry of
  that name, its own when the name comes once; the node is the old node with that
  configuration set if there was one, and a new unconfigured node otherwise.  The nodes of all
  other names are as they were.
\<close>

theorem updateResources_untrusted:
  assumes "untrustedEnv (opts manager)"
  shows "count_list (snd (updateResources px conf manager)) errShellServiceDisabled
       = length (filter is_shell (Services (Added conf) @ Services (Modified conf)))
     \<and> (Processes (Added conf) \<noteq> [] \<or> Processes (Modified conf) \<noteq> [] \<longrightarrow>
          errProcessesDisabled \<in> set (snd (updateResources px conf manager)))
     \<and> processManager (fst (updateResources px conf manager)) = processManager manager
     \<and> resources (fst (updateResources px conf manager))
         = resources (fst (updateResources px (allowed_diff conf) (trusted manager)))
     \<and> (\<forall>k. API k = shell_API
           \<and> k \<notin> ResourceName ` set (Components (Added conf) @ Components (Modified conf))
           \<and> Node (resources manager) k = None \<longrightarrow>
           Node (resources (fst (updateResources px conf manager))) k = None)
     \<and> (\<forall>m \<in> set (marks_of conf).
           \<exists>w. Node (resources (fst (updateResources px conf manager))) (fst m) = Some w
             \<and> needsReconfigure w
             \<and> (node_config w, unresolvedDependencies w) = last_mark (marks_of conf) (fst m)
             \<and> ((\<forall>m' \<in> set (marks_of conf). fst m' = fst m \<longrightarrow> m' = m) \<longrightarrow>
                  node_config w = fst (snd m) \<and> unresolvedDependencies w = snd (snd m))
             \<and> w = marked_node (Node (resources manager) (fst m)) (node_config w) (unresolvedDependencies w))
     \<and> (\<forall>k. k \<notin> fst ` set (marks_of conf) \<longrightarrow>
           Node (resources (fst (updateResources px conf manager))) k = Node (resources manager) k)"
proof -
  let ?mark = "\<lambda>c. mark_graph (ResourceName c) c (Dependencies c)"
  let ?markr = "\<lambda>r. mark_graph (fromRemoteNameToRemoteNodeName (remote_Name r))
                 (empty_Config\<lparr>ConvertedAttributes := Some r\<rparr>) []"
  let ?ok = "filter (\<lambda>s. \<not> is_shell s)"
  let ?mk = "\<lambda>m. mark_graph (fst m) (fst (snd m)) (snd (snd m))"
  define g where "g =
     fold ?markr (Remotes (Modified conf))
       (fold ?mark (?ok (Services (Modified conf)))
         (fold ?mark (Components (Modified conf))
           (fold ?markr (Remotes (Added conf))
             (fold ?mark (Components (Added conf))
               (fold ?mark (?ok (Services (Added conf))) (resources manager))))))"
  define n where "n = length (filter is_shell (Services (Added conf)))
     + length (filter is_shell (Services (Modified conf)))"
  define s where "s =
     fold update_remote (Remotes (Modified conf))
       (fold update_service (Services (Modified conf))
         (fold update_component (Components (Modified conf))
           (fold update_remote (Remotes (Added conf))
             (fold update_component (Components (Added conf))
               (fold update_service (Services (Added conf)) (manager, []))))))"
  have start: "reached manager (resources manager) 0 (manager, [])"
    by (simp add: reached_def)
  have s: "reached manager g n s"
    unfolding g_def n_def s_def
    using reached_remotes [OF reached_services_untrusted [OF assms reached_components
      [OF reached_remotes [OF reached_components [OF reached_services_untrusted [OF assms start]]]]]]
    by simp
  then have u: "untrustedEnv (opts (fst s))"
    using assms by (simp add: reached_def)
  have run: "updateResources px conf manager
      = (fst s, snd s @ (if Processes (Added conf) = [] then [] else [errProcessesDisabled])
                 @ (if Processes (Modified conf) = [] then [] else [errProcessesDisabled]))"
    using u by (simp add: updateResources_def s_def [symmetric]
        add_processes_untrusted modify_processes_untrusted)
  define t where "t =
     fold update_remote (Remotes (Modified conf))
       (fold update_service (?ok (Services (Modified conf)))
         (fold update_component (Components (Modified conf))
           (fold update_remote (Remotes (Added conf))
             (fold update_component (Components (Added conf))
               (fold update_service (?ok (Services (Added conf))) (trusted manager, []))))))"
  have tr: "\<not> untrustedEnv (opts (trusted manager))"
    by (simp add: trusted_def)
  have tstart: "reached (trusted manager) (resources manager) 0 (trusted manager, [])"
    by (simp add: reached_def trusted_def)
  have t: "reached (trusted manager) g 0 t"
    unfolding g_def t_def
    using reached_remotes [OF reached_services_trusted [OF tr reached_components
      [OF reached_remotes [OF reached_components [OF reached_services_trusted [OF tr tstart]]]]]]
    by simp
  have trun: "updateResources px (allowed_diff conf) (trusted manager) = t"
    by (simp add: updateResources_def allowed_diff_def allowed_part_def t_def)
  have c: "count_list (snd (updateResources px conf manager)) errShellServiceDisabled = n"
    using s by (simp add: run reached_def)
  have p: "processManager (fst (updateResources px conf manager)) = processManager manager"
    using s by (simp add: run reached_def)
  have r: "resources (fst (updateResources px conf manager)) = g"
    using s by (simp add: run reached_def)
  have r': "resources (fst (updateResources px (allowed_diff conf) (trusted manager))) = g"
    using t by (simp add: trun reached_def)
  have absent: "Node g k = None"
    if k: "API k = shell_API"
      "k \<notin> ResourceName ` set (Components (Added conf) @ Components (Modified conf))"
      "Node (resources manager) k = None" for k
  proof -
    have sv: "\<forall>c \<in> set (?ok ss). ResourceName c \<noteq> k" for ss
      using k(1) by (auto simp: is_shell_def)
    have co: "\<forall>c \<in> set (Components (Added conf)). ResourceName c \<noteq> k"
      "\<forall>c \<in> set (Components (Modified conf)). ResourceName c \<noteq> k"
      using k(2) by auto
    have re: "\<forall>r \<in> set rs. fromRemoteNameToRemoteNodeName (remote_Name r) \<noteq> k" for rs :: "RemoteConfig list"
      using k(1)
      by (auto simp: fromRemoteNameToRemoteNodeName_def NewName_def RemoteAPI_def shell_API_def)
    show ?thesis
      unfolding g_def
      using fold_mark_other [of _ ResourceName k "\<lambda>c. c" Dependencies, OF sv]
        fold_mark_other [of _ ResourceName k "\<lambda>c. c" Dependencies, OF co(1)]
        fold_mark_other [of _ ResourceName k "\<lambda>c. c" Dependencies, OF co(2)]
        fold_mark_other [of _ "\<lambda>r. fromRemoteNameToRemoteNodeName (remote_Name r)" k
          "\<lambda>r. empty_Config\<lparr>ConvertedAttributes := Some r\<rparr>" "\<lambda>r. []", OF re]
        k(3)
      by simp
  qed
  have g: "g = fold ?mk (marks_of conf) (resources manager)"
    unfolding g_def by (rule fold_marks_of [symmetric])
  have marked: "\<exists>w. Node g (fst m) = Some w
             \<and> needsReconfigure w
             \<and> (node_config w, unresolvedDependencies w) = last_mark (marks_of conf) (fst m)
             \<and> ((\<forall>m' \<in> set (marks_of conf). fst m' = fst m \<longrightarrow> m' = m) \<longrightarrow>
                  node_config w = fst (snd m) \<and> unresolvedDependencies w = snd (snd m))
             \<and> w = marked_node (Node (resources manager) (fst m)) (node_config w) (unresolvedDependencies w)"
    if m: "m \<in> set (marks_of conf)" for m
  proof -
    let ?l = "last_mark (marks_of conf) (fst m)"
    let ?w = "marked_node (Node (resources manager) (fst m)) (fst ?l) (snd ?l)"
    from m have "fst m \<in> fst ` set (marks_of conf)" by simp
    from fold_mark_last [OF this, of "resources manager"] have w: "Node g (fst m) = Some ?w"
      by (simp add: g)
    have f: "needsReconfigure ?w" "node_config ?w = fst ?l" "unresolvedDependencies ?w = snd ?l"
      using marked_node_fields [of "Node (resources manager) (fst m)" "fst ?l" "snd ?l"] by simp_all
    have o: "node_config ?w = fst (snd m) \<and> unresolvedDependencies ?w = snd (snd m)"
      if "\<forall>m' \<in> set (marks_of conf). fst m' = fst m \<longrightarrow> m' = m"
      using last_mark_only [OF m that] f by simp
    have l: "(node_config ?w, unresolvedDependencies ?w) = ?l"
      using f by (simp add: prod_eq_iff)
    have i: "?w = marked_node (Node (resources manager) (fst m)) (node_config ?w) (unresolvedDependencies ?w)"
      using f by simp
    from w f(1) l o i show ?thesis
      by blast
  qed
  have others: "Node g k = Node (resources manager) k" if "k \<notin> fst ` set (marks_of conf)" for k
  proof -
    from that have "\<forall>c \<in> set (marks_of conf). fst c \<noteq> k" by auto
    from fold_mark_other [of "marks_of conf" fst k "\<lambda>m. fst (snd m)" "\<lambda>m. snd (snd m)"
        "resources manager", OF this]
    show ?thesis by (simp add: g)
  qed
  have c': "count_list (snd (updateResources px conf manager)) errShellServiceDisabled
       = length (filter is_shell (Services (Added conf) @ Services (Modified conf)))"
    using c by (simp add: n_def)
  have e: "Processes (Added conf) \<noteq> [] \<or> Processes (Modified conf) \<noteq> [] \<longrightarrow>
      errProcessesDisabled \<in> set (snd (updateResources px conf manager))"
    by (auto simp: run)
  show ?thesis
    unfolding r r' using c' e p absent marked others by (intro conjI) blast+
qed

theorem updateResources_untrusted_witness:
  "snd (updateResources ex_pexec ex_diff ex_untrusted) = [errShellServiceDisabled, errProcessesDisabled]
   \<and> processManager (fst (updateResources ex_pexec ex_diff ex_untrusted)) = []
   \<and> Names (resources (fst (updateResources ex_pexec ex_diff ex_untrusted)))
       = [ex_gripper, ResourceName ex_motion_conf, ex_base, ex_r1]
   \<and> Node (resources (fst (updateResources ex_pexec ex_diff ex_untrusted))) (ResourceName ex_shell_conf) = None
   \<and> Node (resources (fst (updateResources ex_pexec ex_diff ex_untrusted))) (ResourceName ex_motion_conf)
       = Some (NewUnconfiguredGraphNode ex_motion_conf [''b''])
   \<and> Node (resources (fst (updateResources ex_pexec ex_diff ex_untrusted))) ex_gripper
       = Some (SetNewConfig ex_gripper_conf [''b'']
                 (NewConfiguredGraphNode empty_Config ''g-driver'' builtinModel))
   \<and> (\<exists>w. Node (resources (fst (updateResources ex_pexec ex_diff ex_untrusted))) ex_r1 = Some w
         \<and> needsReconfigure w
         \<and> node_config w = empty_Config\<lparr>ConvertedAttributes := Some ex_remote_config\<rparr>)"
proof -
  have u: "untrustedEnv (opts ex_untrusted)"
    by code_simp
  note t = updateResources_untrusted [OF u, of ex_pexec ex_diff]
  have e: "snd (updateResources ex_pexec ex_diff ex_untrusted) = [errShellServiceDisabled, errProcessesDisabled]"
    by code_simp
  have pm0: "processManager ex_untrusted = []"
    by code_simp
  from t pm0 have p: "processManager (fst (updateResources ex_pexec ex_diff ex_untrusted)) = []"
    by simp
  have tn: "Names (resources (fst (updateResources ex_pexec (allowed_diff ex_diff) (trusted ex_untrusted))))
      = [ex_gripper, ResourceName ex_motion_conf, ex_base, ex_r1]"
    by code_simp
  from t tn have n: "Names (resources (fst (updateResources ex_pexec ex_diff ex_untrusted)))
      = [ex_gripper, ResourceName ex_motion_conf, ex_base, ex_r1]"
    by simp
  have k: "API (ResourceName ex_shell_conf) = shell_API
      \<and> ResourceName ex_shell_conf \<notin> ResourceName ` set (Components (Added ex_diff) @ Components (Modified ex_diff))
      \<and> Node (resources ex_untrusted) (ResourceName ex_shell_conf) = None"
    by code_simp
  from t k have s: "Node (resources (fst (updateResources ex_pexec ex_diff ex_untrusted))) (ResourceName ex_shell_conf) = None"
    by blast
  have ms: "marks_of ex_diff = [config_mark ex_motion_conf, config_mark ex_base_conf,
      remote_mark ex_remote_config, config_mark ex_gripper_conf]"
    by (simp add: marks_of_def ex_diff_def is_shell_def ex_shell_conf_def ex_motion_conf_def
        ResourceName_def NewName_def shell_API_def)
  have names: "fst (config_mark ex_motion_conf) = ResourceName ex_motion_conf"
    "fst (config_mark ex_gripper_conf) = ex_gripper" "fst (remote_mark ex_remote_config) = ex_r1"
    by (simp_all add: config_mark_def remote_mark_def ex_gripper_def ex_gripper_conf_def ex_r1_def
        ex_remote_config_def ResourceName_def NewName_def)
  have d: "distinct (map fst (marks_of ex_diff))"
    by code_simp
  have once: "\<forall>m' \<in> set (marks_of ex_diff). fst m' = fst m \<longrightarrow> m' = m"
    if "m \<in> set (marks_of ex_diff)" for m
    using d that by (auto simp: distinct_map dest: inj_onD)
  have old: "Node (resources ex_untrusted) (ResourceName ex_motion_conf) = None"
    "Node (resources ex_untrusted) ex_gripper = Some (NewConfiguredGraphNode empty_Config ''g-driver'' builtinModel)"
    by code_simp+
  have m1: "config_mark ex_motion_conf \<in> set (marks_of ex_diff)"
    and m2: "config_mark ex_gripper_conf \<in> set (marks_of ex_diff)"
    and m3: "remote_mark ex_remote_config \<in> set (marks_of ex_diff)"
    by (simp_all add: ms)
  from t m1 once [OF m1] obtain w1 where w1:
      "Node (resources (fst (updateResources ex_pexec ex_diff ex_untrusted)))
         (fst (config_mark ex_motion_conf)) = Some w1"
      "node_config w1 = fst (snd (config_mark ex_motion_conf))"
      "unresolvedDependencies w1 = snd (snd (config_mark ex_motion_conf))"
      "w1 = marked_node (Node (resources ex_untrusted) (fst (config_mark ex_motion_conf)))
              (node_config w1) (unresolvedDependencies w1)"
    by blast
  have nc1: "node_config w1 = ex_motion_conf"
    using w1(2) by (simp add: config_mark_def)
  have ud1: "unresolvedDependencies w1 = [''b'']"
    using w1(3) by (simp add: config_mark_def Dependencies_def ex_motion_conf_def)
  have "w1 = NewUnconfiguredGraphNode ex_motion_conf [''b'']"
    using w1(4) [unfolded names old nc1 ud1] by (simp add: marked_node_def)
  with w1(1) [unfolded names]
  have a: "Node (resources (fst (updateResources ex_pexec ex_diff ex_untrusted))) (ResourceName ex_motion_conf)
       = Some (NewUnconfiguredGraphNode ex_motion_conf [''b''])"
    by simp
  from t m2 once [OF m2] obtain w2 where w2:
      "Node (resources (fst (updateResources ex_pexec ex_diff ex_untrusted)))
         (fst (config_mark ex_gripper_conf)) = Some w2"
      "node_config w2 = fst (snd (config_mark ex_gripper_conf))"
      "unresolvedDependencies w2 = snd (snd (config_mark ex_gripper_conf))"
      "w2 = marked_node (Node (resources ex_untrusted) (fst (config_mark ex_gripper_conf)))
              (node_config w2) (unresolvedDependencies w2)"
    by blast
  have nc2: "node_config w2 = ex_gripper_conf"
    using w2(2) by (simp add: config_mark_def)
  have ud2: "unresolvedDependencies w2 = [''b'']"
    using w2(3) by (simp add: config_mark_def Dependencies_def ex_gripper_conf_def)
  have "w2 = SetNewConfig ex_gripper_conf [''b'']
      (NewConfiguredGraphNode empty_Config ''g-driver'' builtinModel)"
    using w2(4) [unfolded names old nc2 ud2] by (simp add: marked_node_def)
  with w2(1) [unfolded names]
  have b: "Node (resources (fst (updateResources ex_pexec ex_diff ex_untrusted))) ex_gripper
       = Some (SetNewConfig ex_gripper_conf [''b'']
                 (NewConfiguredGraphNode empty_Config ''g-driver'' builtinModel))"
    by simp
  from t m3 once [OF m3] have "\<exists>w. Node (resources (fst (updateResources ex_pexec ex_diff ex_untrusted)))
        (fst (remote_mark ex_remote_config)) = Some w
      \<and> needsReconfigure w
      \<and> node_config w = fst (snd (remote_mark ex_remote_config))"
    by blast
  then have c: "\<exists>w. Node (resources (fst (updateResources ex_pexec ex_diff ex_untrusted))) ex_r1 = Some w
         \<and> needsReconfigure w
         \<and> node_config w = empty_Config\<lparr>ConvertedAttributes := Some ex_remote_config\<rparr>"
    unfolding names by (simp add: remote_mark_def)
  show ?thesis using e p n s a b c by simp
qed

section \<open>Properties of the dial policy\<close>

text \<open>
  Claim C6.  A remote configured without credentials is dialled with the explicit empty
  entity credentials among its options.  When the dial fails with the
  insecure-with-credentials error and \<open>allowInsecureCreds\<close> is not set, \<open>processRemote\<close>
  returns the guidance error: the one naming the \<open>-allow-insecure-creds\<close> flag when the
  manager was started from the command line, the one naming \<open>Config.AllowInsecureCreds\<close>
  otherwise.
\<close>

theorem remote_dial_policy:
  "(Credentials (remote_Auth config) = None \<longrightarrow>
      WithEntityCredentials [] empty_Credentials \<in> set (remoteDialOptions config anyOpts))
   \<and> (dialRobotClient config (remoteDialOptions config (opts manager))
         = Inl (WrapsErrInsecureWithCredentials e)
       \<and> \<not> allowInsecureCreds (opts manager) \<longrightarrow>
       snd (processRemote dialRobotClient manager config)
         = Inl (couldnt_connect (remote_Address config)
             (if fromCommand (opts manager)
              then ''must use -allow-insecure-creds flag to connect to a non-TLS secured robot''
              else ''must use Config.AllowInsecureCreds to connect to a non-TLS secured robot'')))"
  by (simp add: remoteDialOptions_def processRemote_def Let_def
      errAllowInsecureCredsFlag_def errAllowInsecureCredsConfig_def)

theorem remote_dial_policy_witness:
  "WithEntityCredentials [] empty_Credentials \<in> set (remoteDialOptions ex_remote_config ex_opts)
   \<and> snd (processRemote ex_dial ex_manager1 ex_remote_config)
       = Inl (couldnt_connect ''10.0.0.2:8080''
           ''must use Config.AllowInsecureCreds to connect to a non-TLS secured robot'')"
proof -
  have c: "Credentials (remote_Auth ex_remote_config) = None" by code_simp
  have d: "ex_dial ex_remote_config (remoteDialOptions ex_remote_config (opts ex_manager1))
      = Inl (WrapsErrInsecureWithCredentials ''requested address is insecure'')"
    by code_simp
  have o: "\<not> allowInsecureCreds (opts ex_manager1) \<and> \<not> fromCommand (opts ex_manager1)"
    by code_simp
  have a: "remote_Address ex_remote_config = ''10.0.0.2:8080''" by code_simp
  show ?thesis
    using remote_dial_policy [of ex_remote_config ex_opts ex_dial ex_manager1
        "''requested address is insecure''"] c d o a
    by simp
qed

section \<open>Properties of the complete-config pass\<close>

lemma resources_rebuild: "resources (fst (rebuild w conf gNode currentRes manager)) = resources manager"
  by (simp add: rebuild_def Let_def split: option.splits sum.splits)

lemma resources_processResource:
  "resources (fst (processResource w conf gNode manager)) = resources manager"
  by (simp add: processResource_def resources_rebuild
      split: option.splits sum.splits reconfigure_error.splits)

lemma built_with_resource_tuple:
  "built_with_resource (m, r, b, e) = (b \<longrightarrow> e = None \<and> r \<noteq> None)"
  by (simp add: built_with_resource_def)

lemma rebuild_built: "built_with_resource (rebuild w conf gNode currentRes manager)"
  by (simp add: rebuild_def Let_def built_with_resource_tuple split: sum.splits)

lemma processResource_built: "built_with_resource (processResource w conf gNode manager)"
  by (simp add: processResource_def rebuild_built built_with_resource_tuple
      split: option.splits sum.splits reconfigure_error.splits)

lemma newlyBuilt_processResource:
  "fst (snd (snd (processResource w conf gNode manager))) \<Longrightarrow>
     snd (snd (snd (processResource w conf gNode manager))) = None
     \<and> fst (snd (processResource w conf gNode manager)) \<noteq> None"
  using processResource_built [of w conf gNode manager]
  by (simp add: built_with_resource_def)

lemma modify_node_other:
  assumes "n \<noteq> k"
  shows "Node (resources (modify_node k f manager)) n = Node (resources manager) n"
  using assms
  by (auto simp: modify_node_def Node_def put_node_def update_conv' split: option.splits)

lemma modify_node_shape:
  "Names (resources (modify_node k f manager)) = Names (resources manager)
   \<and> edges (resources (modify_node k f manager)) = edges (resources manager)"
proof (cases "Node (resources manager) k")
  case None
  then show ?thesis by (simp add: modify_node_def)
next
  case (Some gNode)
  then have "k \<in> set (map fst (nodes (resources manager)))"
    by (auto simp: Node_def dest: map_of_SomeD intro: rev_image_eqI)
  with Some show ?thesis
    by (simp add: modify_node_def Names_def put_node_def update_keys)
qed

lemma modify_node_subgraph_names:
  "subgraph_names (resources (modify_node k f manager)) r = subgraph_names (resources manager) r"
  by (simp add: subgraph_names_def modify_node_shape)

lemma modify_node_Node:
  "Node (resources manager) k \<noteq> None \<Longrightarrow> Node (resources (modify_node k f manager)) k \<noteq> None"
  by (auto simp: modify_node_def Node_def put_node_def update_conv')

lemma build_resource_marks_local_children:
  assumes node: "Node (resources manager) resName \<noteq> None"
    and built: "fst (snd (snd (processResource w conf gNode manager)))"
  shows "\<exists>sg. SubGraphFrom (resources (build_resource w resName conf gNode manager)) resName = Inr sg
     \<and> (\<forall>n \<in> set (Names sg). n \<noteq> resName \<and> \<not> ContainsRemoteNames n \<longrightarrow>
          (\<exists>w'. Node (resources (build_resource w resName conf gNode manager)) n = Some w'
             \<and> needsUpdate w'))"
proof -
  obtain manager1 newRes newlyBuilt err
    where p: "processResource w conf gNode manager = (manager1, newRes, newlyBuilt, err)"
    by (cases "processResource w conf gNode manager") auto
  from built p have nb: "newlyBuilt" by simp
  from newlyBuilt_processResource [OF built] p obtain res where res: "newRes = Some res" and err: "err = None"
    by auto
  have r1: "resources manager1 = resources manager"
    using resources_processResource [of w conf gNode manager] p by simp
  with node have "Node (resources manager1) resName \<noteq> None" by simp
  from markChildrenForUpdate_marks [OF this] obtain manager2
    where m2: "markChildrenForUpdate resName manager1 = Inr manager2"
      and g: "grows (resources manager1) (resources manager2)"
      and marks: "\<forall>n \<in> set (subgraph_names (resources manager2) resName).
          n \<noteq> resName \<and> \<not> ContainsRemoteNames n \<longrightarrow>
          (\<exists>w'. Node (resources manager2) n = Some w' \<and> needsUpdate w')"
    by auto
  define final where "final = modify_node resName (SwapResource res (conf_Model conf)) manager2"
  have run: "build_resource w resName conf gNode manager = final"
    by (simp add: build_resource_def p nb res err m2 final_def)
  from node r1 g have "Node (resources manager2) resName \<noteq> None"
    using grows_Node by fastforce
  then have "Node (resources final) resName \<noteq> None"
    unfolding final_def by (rule modify_node_Node)
  then obtain sg where sg: "SubGraphFrom (resources final) resName = Inr sg"
    using SubGraphFrom_node by blast
  have "\<exists>w'. Node (resources final) n = Some w' \<and> needsUpdate w'"
    if "n \<in> set (Names sg)" "n \<noteq> resName" "\<not> ContainsRemoteNames n" for n
  proof -
    from that(1) have "n \<in> set (subgraph_names (resources manager2) resName)"
      by (simp add: SubGraphFrom_Names [OF sg] final_def modify_node_subgraph_names)
    with marks that obtain w' where "Node (resources manager2) n = Some w'" "needsUpdate w'"
      by blast
    with that(2) show ?thesis
      by (simp add: final_def modify_node_other)
  qed
  with sg show ?thesis
    unfolding run by blast
qed

text \<open>
  Claim C7, as amended.  Take an iteration of the second loop of \<open>completeConfig\<close> that comes
  to \<open>processResource\<close> (the node is there and needs reconfiguring, it is a component or a
  service, its configuration is valid) in which \<open>processResource\<close> reports the resource as
  newly built.  At the end of the iteration every name of the node's subgraph other than the
  node itself that has no remote path is marked with \<open>SetNeedsUpdate\<close>; these are the
  names without a remote path that depend on the node, directly or through others.
\<close>

theorem completeConfig_marks_local_children:
  assumes node: "Node (resources manager) resName = Some gNode"
    and needs: "NeedsReconfigure gNode"
    and kind: "IsComponent (API resName) \<or> IsService (API resName)"
    and valid: "conf_Validate w (node_config gNode) (TypeName (API resName)) = None"
    and modvalid: "mod_Provides w (node_config gNode) \<longrightarrow> mod_ValidateConfig w (node_config gNode) = None"
    and built: "fst (snd (snd (processResource w (node_config gNode) gNode
                  (announce resName gNode manager))))"
  shows "(\<exists>sg. SubGraphFrom (resources (completeConfig_resource w resName manager)) resName = Inr sg
       \<and> (\<forall>n \<in> set (Names sg). n \<noteq> resName \<and> \<not> ContainsRemoteNames n \<longrightarrow>
            (\<exists>w'. Node (resources (completeConfig_resource w resName manager)) n = Some w'
               \<and> needsUpdate w')))
     \<and> (\<forall>n \<in> set (Names (resources (completeConfig_resource w resName manager))).
           (resName, n) \<in> (child_of (edges (resources (completeConfig_resource w resName manager))))\<^sup>*
           \<and> n \<noteq> resName \<and> \<not> ContainsRemoteNames n \<longrightarrow>
           (\<exists>w'. Node (resources (completeConfig_resource w resName manager)) n = Some w'
              \<and> needsUpdate w'))"
proof -
  have run: "completeConfig_resource w resName manager
      = build_resource w resName (node_config gNode) gNode (announce resName gNode manager)"
    using node needs kind valid modvalid
    by (simp add: completeConfig_resource_def Let_def)
  have "Node (resources (announce resName gNode manager)) resName \<noteq> None"
    using node by (simp add: announce_def)
  from build_resource_marks_local_children [OF this built]
  obtain sg where sg: "SubGraphFrom (resources (completeConfig_resource w resName manager)) resName = Inr sg"
    and marks: "\<forall>n \<in> set (Names sg). n \<noteq> resName \<and> \<not> ContainsRemoteNames n \<longrightarrow>
        (\<exists>w'. Node (resources (completeConfig_resource w resName manager)) n = Some w'
           \<and> needsUpdate w')"
    unfolding run by blast
  from marks have "\<forall>n \<in> set (Names (resources (completeConfig_resource w resName manager))).
      (resName, n) \<in> (child_of (edges (resources (completeConfig_resource w resName manager))))\<^sup>*
      \<and> n \<noteq> resName \<and> \<not> ContainsRemoteNames n \<longrightarrow>
      (\<exists>w'. Node (resources (completeConfig_resource w resName manager)) n = Some w'
         \<and> needsUpdate w')"
    unfolding SubGraphFrom_Names [OF sg] subgraph_names_rtrancl by blast
  with sg marks show ?thesis by blast
qed

theorem completeConfig_marks_local_children_witness:
  "map_option needsUpdate
     (Node (resources (completeConfig_resource ex_world ex_base ex_manager5)) ex_gripper) = Some True"
proof -
  let ?g = "resources (completeConfig_resource ex_world ex_base ex_manager5)"
  let ?n = "NewUnconfiguredGraphNode ex_base_conf []"
  have node: "Node (resources ex_manager5) ex_base = Some ?n"
    by code_simp
  have needs: "NeedsReconfigure ?n"
    by code_simp
  have kind: "IsComponent (API ex_base) \<or> IsService (API ex_base)"
    by code_simp
  have c: "node_config ?n = ex_base_conf"
    by (simp add: NewUnconfiguredGraphNode_def)
  have valid: "conf_Validate ex_world (node_config ?n) (TypeName (API ex_base)) = None"
    by (simp add: ex_world_def)
  have modvalid: "mod_Provides ex_world (node_config ?n) \<longrightarrow> mod_ValidateConfig ex_world (node_config ?n) = None"
    by (simp add: ex_world_def)
  have built: "fst (snd (snd (processResource ex_world (node_config ?n) ?n (announce ex_base ?n ex_manager5))))"
    unfolding c by code_simp
  have sub: "map_sum id Names (SubGraphFrom ?g ex_base) = Inr [ex_base, ex_gripper, ex_r1_arm]"
    by code_simp
  have local: "ex_gripper \<noteq> ex_base \<and> \<not> ContainsRemoteNames ex_gripper"
    by code_simp
  from completeConfig_marks_local_children [OF node needs kind valid modvalid built]
  obtain sg where sg: "SubGraphFrom ?g ex_base = Inr sg"
    and marks: "\<forall>n \<in> set (Names sg). n \<noteq> ex_base \<and> \<not> ContainsRemoteNames n \<longrightarrow>
        (\<exists>w'. Node ?g n = Some w' \<and> needsUpdate w')"
    by blast
  from sub sg have "ex_gripper \<in> set (Names sg)" by simp
  with marks local obtain w' where "Node ?g ex_gripper = Some w'" "needsUpdate w'"
    by blast
  then show ?thesis by simp
qed

text \<open>
  The claim as stated fails for a descendant with a remote path: the arm of \<open>r1\<close> depends on
  the base here, the base is newly built, and after the iteration the gripper is marked
  for update while the arm of \<open>r1\<close> is not, because \<open>markChildrenForUpdate\<close> passes over every
  name that contains remote names.
\<close>

theorem completeConfig_remote_child_counterexample:
  "fst (snd (snd (processResource ex_world ex_base_conf
      (NewUnconfiguredGraphNode ex_base_conf [])
      (announce ex_base (NewUnconfiguredGraphNode ex_base_conf []) ex_manager5))))
   \<and> map_sum id Names
        (SubGraphFrom (resources (completeConfig_resource ex_world ex_base ex_manager5)) ex_base)
       = Inr [ex_base, ex_gripper, ex_r1_arm]
   \<and> ex_r1_arm \<noteq> ex_base
   \<and> map_option current
        (Node (resources (completeConfig_resource ex_world ex_base ex_manager5)) ex_base)
       = Some (Some ''b-driver'')
   \<and> map_option needsUpdate
        (Node (resources (completeConfig_resource ex_world ex_base ex_manager5)) ex_gripper)
       = Some True
   \<and> map_option needsUpdate
        (Node (resources (completeConfig_resource ex_world ex_base ex_manager5)) ex_r1_arm)
       = Some False"
  by code_simp

section \<open>Properties of ResourceNames\<close>

lemma ResourceNames_loop_set:
  "set (ResourceNames_loop g ks names) =
     set names \<union> {k \<in> set ks. API k \<noteq> RemoteAPI \<and> Namespace (API k) \<noteq> APINamespaceRDKInternal
                    \<and> (\<exists>gNode. Node g k = Some gNode \<and> HasResource gNode)}"
  by (induction g ks names rule: ResourceNames_loop.induct) (auto split: option.splits)

lemma Node_in_Names: "Node g k = Some w \<Longrightarrow> k \<in> set (Names g)"
  by (auto simp: Node_def Names_def dest: map_of_SomeD intro: rev_image_eqI)

text \<open>
  Claim C8.  Every name that \<open>ResourceNames\<close> returns has neither the remote API nor the
  rdk-internal namespace, and every name under which the graph holds a node with a resource,
  and which is neither of the two, is returned.  (A name with a remote path is returned like
  any other: the function looks at the API only.)
\<close>

theorem ResourceNames_native:
  "(\<forall>k \<in> set (ResourceNames manager).
       API k \<noteq> RemoteAPI \<and> Namespace (API k) \<noteq> APINamespaceRDKInternal)
   \<and> (\<forall>k gNode. Node (resources manager) k = Some gNode \<and> HasResource gNode
         \<and> API k \<noteq> RemoteAPI \<and> Namespace (API k) \<noteq> APINamespaceRDKInternal
        \<longrightarrow> k \<in> set (ResourceNames manager))"
  unfolding ResourceNames_def ResourceNames_loop_set
  by (auto dest: Node_in_Names)

theorem ResourceNames_native_witness:
  "ex_arm \<in> set (ResourceNames ex_manager1) \<and> ex_r1_arm \<in> set (ResourceNames ex_manager1)
   \<and> ex_r1 \<notin> set (ResourceNames ex_manager1) \<and> ex_web \<notin> set (ResourceNames ex_manager1)"
proof -
  have n': "Node (resources ex_manager1) ex_r1_arm
      = Some (NewConfiguredGraphNode empty_Config ''r1-arm-client'' unknownModel)"
    by code_simp
  have h': "HasResource (NewConfiguredGraphNode empty_Config ''r1-arm-client'' unknownModel)
      \<and> API ex_r1_arm \<noteq> RemoteAPI \<and> Namespace (API ex_r1_arm) \<noteq> APINamespaceRDKInternal"
    by code_simp
  have n: "Node (resources ex_manager1) ex_arm
      = Some (NewConfiguredGraphNode empty_Config ''arm-driver'' builtinModel)"
    by code_simp
  have h: "HasResource (NewConfiguredGraphNode empty_Config ''arm-driver'' builtinModel)
      \<and> API ex_arm \<noteq> RemoteAPI \<and> Namespace (API ex_arm) \<noteq> APINamespaceRDKInternal"
    by code_simp
  have a: "API ex_r1 = RemoteAPI" by code_simp
  have b: "Namespace (API ex_web) = APINamespaceRDKInternal" by code_simp
  show ?thesis
    using ResourceNames_native [of ex_manager1] n h n' h' a b by blast
qed

section \<open>Properties of cleanAppImageEnv\<close>

lemma Split_nonempty: "Split s sep \<noteq> []"
  by (induction s) (auto split: list.splits)

lemma hd_Split_eq: "hd (Split e CHR ''='') = entry_key e"
  by (induction e) (auto simp: entry_key_def Split_nonempty split: list.splits)

lemma length_Split_eq: "2 \<le> length (Split e CHR ''='') \<longleftrightarrow> has_eq e"
proof (induction e)
  case Nil
  show ?case by (simp add: has_eq_def)
next
  case (Cons c cs)
  have "1 \<le> length (Split cs CHR ''='')"
    using Split_nonempty [of cs "CHR ''=''"] by (cases "Split cs CHR ''=''") auto
  with Cons show ?case
    by (auto simp: has_eq_def split: list.splits)
qed

lemma LookupEnv_None: "k \<notin> keys_of st \<Longrightarrow> LookupEnv k st = None"
  by (auto simp: LookupEnv_def keys_of_def is_entry_of_def find_None_iff)

lemma keys_Unsetenv: "keys_of (snd (Unsetenv k st)) = keys_of st - {k}"
  by (auto simp: Unsetenv_def keys_of_def is_entry_of_def)

lemma Unsetenv_no_error: "fst (Unsetenv k st) = None"
  by (simp add: Unsetenv_def)

lemma cwd_Unsetenv: "cwd (snd (Unsetenv k st)) = cwd st"
  by (simp add: Unsetenv_def)

lemma cwd_Setenv: "cwd (snd (Setenv k v st)) = cwd st"
  by (simp add: Setenv_def)

lemma entry_key_new: "CHR ''='' \<notin> set k \<Longrightarrow> entry_key (k @ ''='' @ v) = k"
  by (induction k) (auto simp: entry_key_def)

lemma keys_replace_entry:
  "entry_key ` {e \<in> set (replace_entry k kv es). has_eq e}
     \<subseteq> insert (entry_key kv) (entry_key ` {e \<in> set es. has_eq e})"
  by (induction es) auto

lemma keys_Setenv:
  assumes "Setenv k v st = (None, st')"
  shows "keys_of st' \<subseteq> insert k (keys_of st)"
proof -
  from assms have k: "CHR ''='' \<notin> set k"
    and st': "envs st' = replace_entry k (k @ ''='' @ v) (envs st)"
    by (auto simp: Setenv_def split: if_splits)
  have "entry_key (k @ ''='' @ v) = k"
    using k by (rule entry_key_new)
  with keys_replace_entry [of k "k @ ''='' @ v" "envs st"] show ?thesis
    unfolding keys_of_def st' by simp
qed

lemma cwd_reset_originals: "cwd (snd (reset_originals xs st)) = cwd st"
proof (induction xs arbitrary: st)
  case Nil
  show ?case by simp
next
  case (Cons x xs)
  show ?case
    using Cons.IH cwd_Setenv cwd_Unsetenv
    by (auto simp: Let_def split: option.splits prod.splits if_splits) (metis snd_conv)+
qed

lemma remove_appimage_vars_result:
  "remove_appimage_vars xs (err, st) = (err', st') \<Longrightarrow>
     err' = err \<and> cwd st' = cwd st
     \<and> keys_of st' = keys_of st - {k. is_appimage_var k \<and> k \<in> entry_key ` set xs}"
proof (induction xs arbitrary: err st)
  case Nil
  then show ?case by simp
next
  case (Cons x xs)
  show ?case
  proof (cases "is_appimage_var (entry_key x)")
    case True
    with Cons.prems have "remove_appimage_vars xs (err, snd (Unsetenv (entry_key x) st)) = (err', st')"
      by (simp add: hd_Split_eq Unsetenv_def Combine_def split: option.splits)
    from Cons.IH [OF this] True show ?thesis
      by (auto simp: keys_Unsetenv cwd_Unsetenv)
  next
    case False
    with Cons.prems have "remove_appimage_vars xs (err, st) = (err', st')"
      by (simp add: hd_Split_eq)
    from Cons.IH [OF this] False show ?thesis by auto
  qed
qed

lemma clean_paths_result:
  "clean_paths xs st = (r, st') \<Longrightarrow> (\<forall>e \<in> set xs. has_eq e \<longrightarrow> entry_key e \<in> K) \<Longrightarrow>
     keys_of st \<subseteq> K \<Longrightarrow> keys_of st' \<subseteq> K \<and> cwd st' = cwd st"
proof (induction xs arbitrary: st)
  case Nil
  then show ?case by simp
next
  case (Cons x xs)
  let ?touch = "2 \<le> length (Split x CHR ''='') \<and> Contains (Split x CHR ''='' ! 1) mountPrefix"
  let ?new = "filter (\<lambda>path. \<not> HasPrefix path mountPrefix \<and> path \<noteq> [])
                (Split (Split x CHR ''='' ! 1) CHR '':'')"
  let ?step = "if ?new \<noteq> [] then Setenv (entry_key x) (Join ?new '':'') st
               else Unsetenv (entry_key x) st"
  show ?case
  proof (cases ?touch)
    case False
    with Cons.prems have "clean_paths xs st = (r, st')"
      by (auto simp: Let_def)
    from Cons.IH [OF this] Cons.prems show ?thesis by simp
  next
    case True
    then have kx: "entry_key x \<in> K"
      using Cons.prems(2) by (simp add: length_Split_eq)
    have step_keys: "keys_of (snd ?step) \<subseteq> K" if "fst ?step = None"
    proof (cases "?new \<noteq> []")
      case True
      then have "Setenv (entry_key x) (Join ?new '':'') st = (None, snd ?step)"
        using that by (simp add: prod_eq_iff)
      from keys_Setenv [OF this] kx Cons.prems(3) show ?thesis by auto
    next
      case False
      then show ?thesis
        using Cons.prems(3) by (auto simp: keys_Unsetenv)
    qed
    have step_cwd: "cwd (snd ?step) = cwd st"
      by (simp add: cwd_Setenv cwd_Unsetenv)
    show ?thesis
    proof (cases "fst ?step")
      case None
      with True Cons.prems(1) have "clean_paths xs (snd ?step) = (r, st')"
        by (simp add: Let_def hd_Split_eq split: prod.splits option.splits if_splits)
      from Cons.IH [OF this] Cons.prems(2) step_keys [OF None] step_cwd show ?thesis
        by simp
    next
      case (Some err)
      with True Cons.prems(1) have "st' = snd ?step"
        by (simp add: Let_def hd_Split_eq split: prod.splits option.splits if_splits)
      moreover have "keys_of (snd ?step) \<subseteq> K"
      proof (cases "?new \<noteq> []")
        case True
        then show ?thesis
          using Some Cons.prems(3) by (auto simp: Setenv_def split: if_splits)
      next
        case False
        then show ?thesis
          using Some by (simp add: Unsetenv_def)
      qed
      ultimately show ?thesis using step_cwd by simp
    qed
  qed
qed

lemma cleanAppImageEnv_general:
  assumes app: "LookupEnv ''APPIMAGE'' st \<noteq> None"
    and run: "cleanAppImageEnv st = (None, st')"
  shows "cwd st' = Getenv ''APPRUN_CWD'' st \<and> (\<forall>key. scrubbed key \<longrightarrow> LookupEnv key st' = None)"
proof -
  define st0 where "st0 = snd (Chdir (Getenv ''APPRUN_CWD'' st) st)"
  define st1 where "st1 = snd (reset_originals (Environ st0) st0)"
  define st3 where "st3 = snd (Unsetenv ''ORIGIN'' (snd (Unsetenv ''ARGV0'' st1)))"
  define st4 where "st4 = snd (remove_appimage_vars (Environ st3) (None, st3))"
  from app run have c0: "fst (Chdir (Getenv ''APPRUN_CWD'' st) st) = None"
    by (auto simp: cleanAppImageEnv_def split: option.splits prod.splits)
  then have cwd0: "cwd st0 = Getenv ''APPRUN_CWD'' st"
    by (auto simp: st0_def Chdir_def split: if_splits)
  from app run c0 have c1: "fst (reset_originals (Environ st0) st0) = None"
    by (auto simp: cleanAppImageEnv_def st0_def split: option.splits prod.splits)
  have r4: "remove_appimage_vars (Environ st3) (None, st3) = (None, st4)"
    using remove_appimage_vars_result [of "Environ st3" None st3]
    by (cases "remove_appimage_vars (Environ st3) (None, st3)") (auto simp: st4_def)
  from app run c0 c1 r4 have fin: "clean_paths (Environ st4) st4 = (None, st')"
    by (auto simp: cleanAppImageEnv_def st0_def st1_def st3_def Unsetenv_def Combine_def
        split: option.splits prod.splits)
  note res4 = remove_appimage_vars_result [OF r4]
  have "\<forall>e \<in> set (Environ st4). has_eq e \<longrightarrow> entry_key e \<in> keys_of st4"
    by (auto simp: Environ_def keys_of_def)
  from clean_paths_result [OF fin this] have fin_keys: "keys_of st' \<subseteq> keys_of st4"
    and fin_cwd: "cwd st' = cwd st4"
    by auto
  have cwd_eq: "cwd st' = Getenv ''APPRUN_CWD'' st"
    using fin_cwd res4 cwd0
    by (simp add: st3_def st1_def cwd_Unsetenv cwd_reset_originals)
  have keys3: "keys_of st3 \<subseteq> entry_key ` set (Environ st3)"
    by (auto simp: keys_of_def Environ_def has_eq_def)
  have "key \<notin> keys_of st4" if "scrubbed key" for key
  proof
    assume k: "key \<in> keys_of st4"
    with res4 have k3: "key \<in> keys_of st3" and "\<not> (is_appimage_var key \<and> key \<in> entry_key ` set (Environ st3))"
      by auto
    with keys3 have "\<not> is_appimage_var key" by auto
    with that have "key = ''ARGV0'' \<or> key = ''ORIGIN''" by (simp add: scrubbed_def)
    with k3 show False
      by (auto simp: st3_def keys_Unsetenv)
  qed
  with fin_keys have "\<forall>key. scrubbed key \<longrightarrow> LookupEnv key st' = None"
    by (auto intro: LookupEnv_None)
  with cwd_eq show ?thesis by simp
qed

lemma cleanAppImageEnv_scenario:
  "dir_ok st dir \<Longrightarrow> envs st = [''APPIMAGE='' @ img, ''APPRUN_CWD='' @ dir,
     ''APPRUN_ORIGINAL_PATH=/usr/bin'', ''PATH=/tmp/.mount_x/bin:/usr/bin''] \<Longrightarrow>
   cleanAppImageEnv st = (None, st\<lparr>envs := [''PATH=/usr/bin''], cwd := dir\<rparr>)"
  by (simp add: cleanAppImageEnv_def LookupEnv_def Getenv_def is_entry_of_def has_eq_def entry_key_def
     entry_value_def Chdir_def Environ_def Setenv_def Unsetenv_def Combine_def is_appimage_var_def HasPrefix_def mountPrefix_def Let_def)

subsection \<open>What becomes of PATH\<close>

lemma find_filter:
  "find P xs = (case filter P xs of [] \<Rightarrow> None | x # _ \<Rightarrow> Some x)"
  by (induction xs) auto

lemma LookupEnv_entries:
  "key \<noteq> [] \<Longrightarrow>
   LookupEnv key st = (case entries_of key st of [] \<Rightarrow> None | e # _ \<Rightarrow> Some (entry_value e))"
  by (simp add: LookupEnv_def entries_of_def find_filter split: list.splits)

lemma entries_of_Unsetenv:
  "k \<noteq> key \<Longrightarrow> entries_of k (snd (Unsetenv key st)) = entries_of k st"
proof -
  assume "k \<noteq> key"
  then have "filter (is_entry_of k) (filter (\<lambda>e. \<not> is_entry_of key e) es) = filter (is_entry_of k) es" for es
    by (induction es) (auto simp: is_entry_of_def)
  then show ?thesis
    by (simp add: entries_of_def Unsetenv_def)
qed

lemma filter_replace_entry_other:
  "k \<noteq> key \<Longrightarrow> \<not> is_entry_of k kv \<Longrightarrow>
   filter (is_entry_of k) (replace_entry key kv es) = filter (is_entry_of k) es"
  by (induction es) (auto simp: is_entry_of_def)

lemma filter_replace_entry_same:
  "is_entry_of key kv \<Longrightarrow>
   filter (is_entry_of key) (replace_entry key kv es) = kv # tl (filter (is_entry_of key) es)"
  by (induction es) auto

lemma is_entry_of_new:
  "CHR ''='' \<notin> set key \<Longrightarrow> is_entry_of k (key @ ''='' @ v) \<longleftrightarrow> k = key"
  using entry_key_new [of key v] by (auto simp: is_entry_of_def has_eq_def)

lemma entries_of_Setenv_other:
  assumes "Setenv key v st = (None, st')" and "k \<noteq> key"
  shows "entries_of k st' = entries_of k st"
proof -
  from assms(1) have key: "CHR ''='' \<notin> set key"
    and st': "envs st' = replace_entry key (key @ ''='' @ v) (envs st)"
    by (auto simp: Setenv_def split: if_splits)
  have "\<not> is_entry_of k (key @ ''='' @ v)"
    using assms(2) is_entry_of_new [OF key, of k v] by simp
  from filter_replace_entry_other [OF assms(2) this] show ?thesis
    by (simp add: entries_of_def st')
qed

lemma entries_of_Setenv_same:
  assumes "Setenv key v st = (None, st')"
  shows "entries_of key st' = (key @ ''='' @ v) # tl (entries_of key st)"
proof -
  from assms have key: "CHR ''='' \<notin> set key"
    and st': "envs st' = replace_entry key (key @ ''='' @ v) (envs st)"
    by (auto simp: Setenv_def split: if_splits)
  have "is_entry_of key (key @ ''='' @ v)"
    using is_entry_of_new [OF key, of key v] by simp
  from filter_replace_entry_same [OF this] show ?thesis
    by (simp add: entries_of_def st')
qed

lemma LookupEnv_Unsetenv_other:
  "k \<noteq> key \<Longrightarrow> LookupEnv k (snd (Unsetenv key st)) = LookupEnv k st"
  by (cases "k = []") (simp_all add: LookupEnv_entries entries_of_Unsetenv, simp add: LookupEnv_def)

lemma LookupEnv_Setenv_other:
  "Setenv key v st = (None, st') \<Longrightarrow> k \<noteq> key \<Longrightarrow> LookupEnv k st' = LookupEnv k st"
  by (cases "k = []") (simp_all add: LookupEnv_entries entries_of_Setenv_other, simp add: LookupEnv_def)

text \<open>
  The first loop.  While no entry is named \<open>APPRUN_ORIGINAL_APPRUN_ORIGINAL_PATH\<close>, nothing
  writes \<open>APPRUN_ORIGINAL_PATH\<close>, and the entry of \<open>PATH\<close>, once the loop comes to it, is
  replaced by the saved value; it can only be written with that value again.
\<close>

lemma reset_originals_PATH:
  assumes "reset_originals xs st = (None, st')"
    and "LookupEnv ''APPRUN_ORIGINAL_PATH'' st = Some v" and "v \<noteq> []"
    and "LookupEnv ''APPRUN_ORIGINAL_APPRUN_ORIGINAL_PATH'' st = None"
    and "''APPRUN_ORIGINAL_APPRUN_ORIGINAL_PATH'' \<notin> entry_key ` set xs"
    and "entries_of ''PATH'' st = [''PATH='' @ v]
       \<or> (length (entries_of ''PATH'' st) = 1 \<and> ''PATH'' \<in> entry_key ` set xs)"
  shows "entries_of ''PATH'' st' = [''PATH='' @ v]"
  using assms
proof (induction xs arbitrary: st)
  case Nil
  then show ?case by simp
next
  case (Cons x xs)
  let ?K = "entry_key x"
  show ?case
  proof (cases "LookupEnv (''APPRUN_ORIGINAL_'' @ ?K) st")
    case None
    with Cons.prems(1) have run: "reset_originals xs st = (None, st')"
      by (simp add: hd_Split_eq)
    have "?K \<noteq> ''PATH''"
      using None Cons.prems(2) by auto
    with Cons.prems(6) have "entries_of ''PATH'' st = [''PATH='' @ v]
       \<or> (length (entries_of ''PATH'' st) = 1 \<and> ''PATH'' \<in> entry_key ` set xs)"
      by auto
    from Cons.IH [OF run Cons.prems(2,3,4) _ this] Cons.prems(5) show ?thesis
      by simp
  next
    case (Some origV)
    let ?step = "if origV \<noteq> [] then Setenv ?K origV st else Unsetenv ?K st"
    obtain r st1 where step: "?step = (r, st1)"
      by (cases ?step) auto
    with Some Cons.prems(1) have r: "r = None" and run: "reset_originals xs st1 = (None, st')"
      by (auto simp: hd_Split_eq split: option.splits)
    have k1: "?K \<noteq> ''APPRUN_ORIGINAL_PATH''"
      using Some Cons.prems(4) by auto
    have k2: "?K \<noteq> ''APPRUN_ORIGINAL_APPRUN_ORIGINAL_PATH''"
      using Cons.prems(5) by auto
    have other: "LookupEnv k st1 = LookupEnv k st" if "k \<noteq> ?K" for k
    proof (cases "origV \<noteq> []")
      case True
      with step r have "Setenv ?K origV st = (None, st1)" by simp
      from LookupEnv_Setenv_other [OF this that] show ?thesis .
    next
      case False
      with step have "st1 = snd (Unsetenv ?K st)" by simp
      then show ?thesis using that by (simp add: LookupEnv_Unsetenv_other)
    qed
    have a1: "LookupEnv ''APPRUN_ORIGINAL_PATH'' st1 = Some v"
      using other [of "''APPRUN_ORIGINAL_PATH''"] k1 Cons.prems(2) by simp
    have a2: "LookupEnv ''APPRUN_ORIGINAL_APPRUN_ORIGINAL_PATH'' st1 = None"
      using other [of "''APPRUN_ORIGINAL_APPRUN_ORIGINAL_PATH''"] k2 Cons.prems(4) by simp
    have p: "entries_of ''PATH'' st1 = [''PATH='' @ v]
       \<or> (length (entries_of ''PATH'' st1) = 1 \<and> ''PATH'' \<in> entry_key ` set xs)"
    proof (cases "?K = ''PATH''")
      case True
      with Some Cons.prems(2) have "origV = v" by simp
      with step r True Cons.prems(3) have s: "Setenv ''PATH'' v st = (None, st1)" by simp
      have "length (entries_of ''PATH'' st) = 1"
        using Cons.prems(6) by auto
      then have "tl (entries_of ''PATH'' st) = []"
        by (cases "entries_of ''PATH'' st") auto
      with entries_of_Setenv_same [OF s] show ?thesis by simp
    next
      case False
      have "entries_of ''PATH'' st1 = entries_of ''PATH'' st"
      proof (cases "origV \<noteq> []")
        case True
        with step r have "Setenv ?K origV st = (None, st1)" by simp
        from entries_of_Setenv_other [OF this] False show ?thesis by simp
      next
        case False': False
        with step have "st1 = snd (Unsetenv ?K st)" by simp
        then show ?thesis using False by (simp add: entries_of_Unsetenv)
      qed
      with Cons.prems(6) False show ?thesis by auto
    qed
    from Cons.IH [OF run a1 Cons.prems(3) a2 _ p] Cons.prems(5) show ?thesis
      by simp
  qed
qed

text \<open>The second loop unsets only AppImage variables, and \<open>PATH\<close> is none.\<close>

lemma remove_appimage_vars_PATH:
  "remove_appimage_vars xs (err, st) = (err', st') \<Longrightarrow> entries_of ''PATH'' st' = entries_of ''PATH'' st"
proof (induction xs arbitrary: err st)
  case Nil
  then show ?case by simp
next
  case (Cons x xs)
  show ?case
  proof (cases "is_appimage_var (entry_key x)")
    case True
    then have "entry_key x \<noteq> ''PATH''"
      by (auto simp: is_appimage_var_def HasPrefix_def)
    then have e: "entries_of ''PATH'' (snd (Unsetenv (entry_key x) st)) = entries_of ''PATH'' st"
      by (simp add: entries_of_Unsetenv)
    from True Cons.prems have "remove_appimage_vars xs (Combine err None, snd (Unsetenv (entry_key x) st)) = (err', st')"
      by (simp add: hd_Split_eq Unsetenv_def)
    from Cons.IH [OF this] e show ?thesis by simp
  next
    case False
    with Cons.prems have "remove_appimage_vars xs (err, st) = (err', st')"
      by (simp add: hd_Split_eq)
    from Cons.IH [OF this] show ?thesis .
  qed
qed

text \<open>
  The third loop rewrites an entry only if the text after its first \<open>=\<close> holds the mount
  prefix; an entry of \<open>PATH\<close> without it is left alone, whatever the other entries are.
\<close>

lemma clean_paths_PATH:
  assumes "clean_paths xs st = (None, st')"
    and "\<forall>x\<in>set xs. is_entry_of ''PATH'' x \<longrightarrow> \<not> Contains (Split x CHR ''='' ! 1) mountPrefix"
  shows "entries_of ''PATH'' st' = entries_of ''PATH'' st"
  using assms
proof (induction xs arbitrary: st)
  case Nil
  then show ?case by simp
next
  case (Cons x xs)
  let ?touch = "2 \<le> length (Split x CHR ''='') \<and> Contains (Split x CHR ''='' ! 1) mountPrefix"
  let ?new = "filter (\<lambda>path. \<not> HasPrefix path mountPrefix \<and> path \<noteq> [])
                (Split (Split x CHR ''='' ! 1) CHR '':'')"
  let ?step = "if ?new \<noteq> [] then Setenv (entry_key x) (Join ?new '':'') st
               else Unsetenv (entry_key x) st"
  show ?case
  proof (cases ?touch)
    case False
    with Cons.prems have "clean_paths xs st = (None, st')"
      by (auto simp: Let_def)
    from Cons.IH [OF this] Cons.prems(2) show ?thesis by simp
  next
    case True
    then have "has_eq x"
      by (simp add: length_Split_eq)
    with True Cons.prems(2) have k: "entry_key x \<noteq> ''PATH''"
      by (auto simp: is_entry_of_def)
    obtain r st1 where step: "?step = (r, st1)"
      by (cases ?step) auto
    with True Cons.prems(1) have r: "r = None" and run: "clean_paths xs st1 = (None, st')"
      by (auto simp: Let_def hd_Split_eq split: option.splits if_splits)
    have "entries_of ''PATH'' st1 = entries_of ''PATH'' st"
    proof (cases "?new \<noteq> []")
      case True
      with step r have "Setenv (entry_key x) (Join ?new '':'') st = (None, st1)" by simp
      from entries_of_Setenv_other [OF this] k show ?thesis by simp
    next
      case False
      with step have "st1 = snd (Unsetenv (entry_key x) st)" by simp
      then show ?thesis using k by (simp add: entries_of_Unsetenv)
    qed
    with Cons.IH [OF run] Cons.prems(2) show ?thesis by simp
  qed
qed

lemma take_takeWhile:
  "take (length p) (takeWhile P xs) = p \<Longrightarrow> take (length p) xs = p"
proof -
  assume t: "take (length p) (takeWhile P xs) = p"
  then have "length (take (length p) (takeWhile P xs)) = length p"
    by simp
  then have "length p \<le> length (takeWhile P xs)"
    by (simp add: min_def split: if_splits)
  moreover have "take (length p) xs = take (length p) (takeWhile P xs @ dropWhile P xs)"
    by simp
  ultimately show ?thesis
    using t by (simp del: takeWhile_dropWhile_id)
qed

lemma Contains_takeWhile:
  "sub \<noteq> [] \<Longrightarrow> Contains (takeWhile P v) sub \<Longrightarrow> Contains v sub"
proof (induction v)
  case Nil
  then show ?case by simp
next
  case (Cons c cs)
  show ?case
  proof (cases "P c")
    case False
    with Cons.prems show ?thesis by simp
  next
    case True
    with Cons.prems(2) have "HasPrefix (c # takeWhile P cs) sub \<or> Contains (takeWhile P cs) sub"
      by simp
    then show ?thesis
    proof
      assume "HasPrefix (c # takeWhile P cs) sub"
      then have "take (length sub) (takeWhile P (c # cs)) = sub"
        using True by (simp add: HasPrefix_def)
      then have "take (length sub) (c # cs) = sub"
        by (rule take_takeWhile)
      then show ?thesis by (simp add: HasPrefix_def)
    next
      assume "Contains (takeWhile P cs) sub"
      with Cons.IH [OF Cons.prems(1)] show ?thesis by simp
    qed
  qed
qed

lemma Split_second:
  "CHR ''='' \<notin> set k \<Longrightarrow> Split (k @ ''='' @ v) CHR ''='' ! 1 = takeWhile (\<lambda>c. c \<noteq> CHR ''='') v"
proof (induction k)
  case Nil
  have "Split v CHR ''='' ! 0 = hd (Split v CHR ''='')"
    using Split_nonempty [of v "CHR ''=''"] by (simp add: hd_conv_nth)
  then show ?case
    by (simp add: hd_Split_eq entry_key_def)
next
  case (Cons c k)
  then show ?case
    using Split_nonempty [of "k @ ''='' @ v" "CHR ''=''"]
    by (auto split: list.splits)
qed

lemma cleanAppImageEnv_PATH:
  assumes app: "LookupEnv ''APPIMAGE'' st \<noteq> None"
    and orig: "LookupEnv ''APPRUN_ORIGINAL_PATH'' st = Some v"
    and v: "v \<noteq> []" "\<not> Contains v mountPrefix"
    and path: "length (entries_of ''PATH'' st) = 1"
    and none: "''APPRUN_ORIGINAL_APPRUN_ORIGINAL_PATH'' \<notin> entry_key ` set (envs st)"
    and run: "cleanAppImageEnv st = (None, st')"
  shows "entries_of ''PATH'' st' = [''PATH='' @ v]"
proof -
  define st0 where "st0 = snd (Chdir (Getenv ''APPRUN_CWD'' st) st)"
  define st1 where "st1 = snd (reset_originals (Environ st0) st0)"
  define st3 where "st3 = snd (Unsetenv ''ORIGIN'' (snd (Unsetenv ''ARGV0'' st1)))"
  define st4 where "st4 = snd (remove_appimage_vars (Environ st3) (None, st3))"
  from app run have c0: "fst (Chdir (Getenv ''APPRUN_CWD'' st) st) = None"
    by (auto simp: cleanAppImageEnv_def split: option.splits prod.splits)
  have envs0: "envs st0 = envs st"
    by (simp add: st0_def Chdir_def)
  from app run c0 have c1: "fst (reset_originals (Environ st0) st0) = None"
    by (auto simp: cleanAppImageEnv_def st0_def split: option.splits prod.splits)
  then have r1: "reset_originals (Environ st0) st0 = (None, st1)"
    by (simp add: st1_def prod_eq_iff)
  have r4: "remove_appimage_vars (Environ st3) (None, st3) = (None, st4)"
    using remove_appimage_vars_result [of "Environ st3" None st3]
    by (cases "remove_appimage_vars (Environ st3) (None, st3)") (auto simp: st4_def)
  from app run c0 c1 r4 have fin: "clean_paths (Environ st4) st4 = (None, st')"
    by (auto simp: cleanAppImageEnv_def st0_def st1_def st3_def Unsetenv_def Combine_def
        split: option.splits prod.splits)
  have o0: "LookupEnv ''APPRUN_ORIGINAL_PATH'' st0 = Some v"
    using orig by (simp add: LookupEnv_def envs0)
  have "''APPRUN_ORIGINAL_APPRUN_ORIGINAL_PATH'' \<notin> keys_of st0"
    using none by (auto simp: keys_of_def envs0)
  then have n0: "LookupEnv ''APPRUN_ORIGINAL_APPRUN_ORIGINAL_PATH'' st0 = None"
    by (rule LookupEnv_None)
  have s0: "''APPRUN_ORIGINAL_APPRUN_ORIGINAL_PATH'' \<notin> entry_key ` set (Environ st0)"
    using none by (auto simp: Environ_def envs0)
  obtain e where e: "entries_of ''PATH'' st = [e]"
    using path by (cases "entries_of ''PATH'' st") auto
  then have "e \<in> set (entries_of ''PATH'' st)"
    by simp
  then have "e \<in> set (envs st)" and ee: "is_entry_of ''PATH'' e"
    by (simp_all add: entries_of_def)
  moreover from ee have "e \<noteq> []" and "entry_key e = ''PATH''"
    by (auto simp: is_entry_of_def has_eq_def)
  ultimately have "''PATH'' \<in> entry_key ` set (Environ st0)"
    by (auto simp: Environ_def envs0 image_iff)
  moreover have "length (entries_of ''PATH'' st0) = 1"
    using path by (simp add: entries_of_def envs0)
  ultimately have p0: "entries_of ''PATH'' st0 = [''PATH='' @ v]
       \<or> (length (entries_of ''PATH'' st0) = 1 \<and> ''PATH'' \<in> entry_key ` set (Environ st0))"
    by simp
  have p1: "entries_of ''PATH'' st1 = [''PATH='' @ v]"
    using reset_originals_PATH [OF r1 o0 v(1) n0 s0 p0] .
  have p3: "entries_of ''PATH'' st3 = [''PATH='' @ v]"
    using p1 by (simp add: st3_def entries_of_Unsetenv)
  have p4: "entries_of ''PATH'' st4 = [''PATH='' @ v]"
    using remove_appimage_vars_PATH [OF r4] p3 by simp
  have "\<not> Contains (Split x CHR ''='' ! 1) mountPrefix"
    if "x \<in> set (Environ st4)" and "is_entry_of ''PATH'' x" for x
  proof -
    from that have "x \<in> set (entries_of ''PATH'' st4)"
      by (simp add: entries_of_def Environ_def)
    with p4 have "x = ''PATH'' @ ''='' @ v" by simp
    moreover have "Split (''PATH'' @ ''='' @ v) CHR ''='' ! 1 = takeWhile (\<lambda>c. c \<noteq> CHR ''='') v"
      by (rule Split_second) simp
    moreover have "\<not> Contains (takeWhile (\<lambda>c. c \<noteq> CHR ''='') v) mountPrefix"
      using Contains_takeWhile [of mountPrefix "\<lambda>c. c \<noteq> CHR ''=''" v] v(2)
      by (auto simp: mountPrefix_def)
    ultimately show ?thesis by simp
  qed
  then have "\<forall>x\<in>set (Environ st4). is_entry_of ''PATH'' x \<longrightarrow> \<not> Contains (Split x CHR ''='' ! 1) mountPrefix"
    by blast
  from clean_paths_PATH [OF fin this] p4 show ?thesis by simp
qed

text \<open>
  When \<open>os.Chdir\<close> cannot enter what \<open>APPRUN_CWD\<close> names (also when it is unset and names
  nothing), the function returns that error before it has touched the environment.
\<close>

lemma cleanAppImageEnv_Chdir_error:
  "LookupEnv ''APPIMAGE'' st \<noteq> None \<Longrightarrow> \<not> dir_ok st (Getenv ''APPRUN_CWD'' st) \<Longrightarrow>
   cleanAppImageEnv st
     = (Some (''chdir '' @ Getenv ''APPRUN_CWD'' st @ '': no such file or directory''), st)"
  by (auto simp: cleanAppImageEnv_def Chdir_def)

text \<open>
  Claim C9, as the code has it.  In the scenario alone (\<open>APPIMAGE\<close> set to any value,
  \<open>APPRUN_CWD\<close> naming a directory that can be entered, \<open>APPRUN_ORIGINAL_PATH=/usr/bin\<close> and
  \<open>PATH=/tmp/.mount_x/bin:/usr/bin\<close>, nothing else) \<open>cleanAppImageEnv\<close> returns no error and
  leaves \<open>PATH=/usr/bin\<close> as the only variable, with the working directory that of
  \<open>APPRUN_CWD\<close>.  In any environment with \<open>APPIMAGE\<close> set, whatever else it holds, a run that
  returns no error ends in the directory \<open>APPRUN_CWD\<close> named, with \<open>ARGV0\<close>, \<open>ORIGIN\<close> and every
  variable whose name starts with \<open>APPRUN\<close>, \<open>APPDIR\<close>, \<open>APPIMAGE\<close> or \<open>AIX_\<close> unset; and if
  that environment has \<open>APPRUN_ORIGINAL_PATH=/usr/bin\<close>, the entry
  \<open>PATH=/tmp/.mount_x/bin:/usr/bin\<close> and no entry named
  \<open>APPRUN_ORIGINAL_APPRUN_ORIGINAL_PATH\<close>, it ends with \<open>PATH=/usr/bin\<close>.  That value is the
  saved one, not what is left of the old \<open>PATH\<close>: whatever the entry of \<open>PATH\<close> was, it ends as
  the value \<open>v\<close> of \<open>APPRUN_ORIGINAL_PATH\<close>, for every \<open>v\<close> that is not empty and holds no
  \<open>/tmp/.mount_\<close>.  With \<open>APPIMAGE\<close> unset nothing changes and no error is returned.
\<close>

theorem cleanAppImageEnv_scrub:
  "(dir_ok st dir \<and> envs st = [''APPIMAGE='' @ img, ''APPRUN_CWD='' @ dir,
        ''APPRUN_ORIGINAL_PATH=/usr/bin'', ''PATH=/tmp/.mount_x/bin:/usr/bin''] \<longrightarrow>
      cleanAppImageEnv st = (None, st\<lparr>envs := [''PATH=/usr/bin''], cwd := dir\<rparr>)
      \<and> LookupEnv ''PATH'' (snd (cleanAppImageEnv st)) = Some ''/usr/bin'')
   \<and> (\<forall>st'. LookupEnv ''APPIMAGE'' st \<noteq> None \<and> cleanAppImageEnv st = (None, st') \<longrightarrow>
         cwd st' = Getenv ''APPRUN_CWD'' st
         \<and> (\<forall>key. scrubbed key \<longrightarrow> LookupEnv key st' = None))
   \<and> (\<forall>st'. LookupEnv ''APPIMAGE'' st \<noteq> None \<and> cleanAppImageEnv st = (None, st')
         \<and> LookupEnv ''APPRUN_ORIGINAL_PATH'' st = Some ''/usr/bin''
         \<and> entries_of ''PATH'' st = [''PATH=/tmp/.mount_x/bin:/usr/bin'']
         \<and> ''APPRUN_ORIGINAL_APPRUN_ORIGINAL_PATH'' \<notin> entry_key ` set (envs st) \<longrightarrow>
         LookupEnv ''PATH'' st' = Some ''/usr/bin''
         \<and> entries_of ''PATH'' st' = [''PATH=/usr/bin''])
   \<and> (\<forall>st' v. LookupEnv ''APPIMAGE'' st \<noteq> None \<and> cleanAppImageEnv st = (None, st')
         \<and> LookupEnv ''APPRUN_ORIGINAL_PATH'' st = Some v \<and> v \<noteq> [] \<and> \<not> Contains v mountPrefix
         \<and> length (entries_of ''PATH'' st) = 1
         \<and> ''APPRUN_ORIGINAL_APPRUN_ORIGINAL_PATH'' \<notin> entry_key ` set (envs st) \<longrightarrow>
         LookupEnv ''PATH'' st' = Some v)
   \<and> (LookupEnv ''APPIMAGE'' st = None \<longrightarrow> cleanAppImageEnv st = (None, st))"
proof -
  have a: "cleanAppImageEnv st = (None, st\<lparr>envs := [''PATH=/usr/bin''], cwd := dir\<rparr>)
      \<and> LookupEnv ''PATH'' (snd (cleanAppImageEnv st)) = Some ''/usr/bin''"
    if h: "dir_ok st dir \<and> envs st = [''APPIMAGE='' @ img, ''APPRUN_CWD='' @ dir,
        ''APPRUN_ORIGINAL_PATH=/usr/bin'', ''PATH=/tmp/.mount_x/bin:/usr/bin'']"
  proof -
    from h have r: "cleanAppImageEnv st = (None, st\<lparr>envs := [''PATH=/usr/bin''], cwd := dir\<rparr>)"
      by (intro cleanAppImageEnv_scenario) auto
    have "LookupEnv ''PATH'' (snd (cleanAppImageEnv st)) = Some ''/usr/bin''"
      unfolding r
      by (simp add: LookupEnv_def is_entry_of_def has_eq_def entry_key_def entry_value_def)
    with r show ?thesis by simp
  qed
  have b: "cwd st' = Getenv ''APPRUN_CWD'' st \<and> (\<forall>key. scrubbed key \<longrightarrow> LookupEnv key st' = None)"
    if "LookupEnv ''APPIMAGE'' st \<noteq> None \<and> cleanAppImageEnv st = (None, st')" for st'
    using that cleanAppImageEnv_general by blast
  have c: "LookupEnv ''PATH'' st' = Some ''/usr/bin'' \<and> entries_of ''PATH'' st' = [''PATH=/usr/bin'']"
    if "LookupEnv ''APPIMAGE'' st \<noteq> None \<and> cleanAppImageEnv st = (None, st')
         \<and> LookupEnv ''APPRUN_ORIGINAL_PATH'' st = Some ''/usr/bin''
         \<and> entries_of ''PATH'' st = [''PATH=/tmp/.mount_x/bin:/usr/bin'']
         \<and> ''APPRUN_ORIGINAL_APPRUN_ORIGINAL_PATH'' \<notin> entry_key ` set (envs st)" for st'
  proof -
    have "\<not> Contains ''/usr/bin'' mountPrefix"
      by (simp add: mountPrefix_def HasPrefix_def)
    with that have "entries_of ''PATH'' st' = [''PATH='' @ ''/usr/bin'']"
      by (intro cleanAppImageEnv_PATH [of st]) auto
    then have e: "entries_of ''PATH'' st' = [''PATH=/usr/bin'']"
      by simp
    then have "LookupEnv ''PATH'' st' = Some ''/usr/bin''"
      by (simp add: LookupEnv_entries entry_value_def)
    with e show ?thesis by simp
  qed
  have c': "LookupEnv ''PATH'' st' = Some v"
    if "LookupEnv ''APPIMAGE'' st \<noteq> None \<and> cleanAppImageEnv st = (None, st')
         \<and> LookupEnv ''APPRUN_ORIGINAL_PATH'' st = Some v \<and> v \<noteq> [] \<and> \<not> Contains v mountPrefix
         \<and> length (entries_of ''PATH'' st) = 1
         \<and> ''APPRUN_ORIGINAL_APPRUN_ORIGINAL_PATH'' \<notin> entry_key ` set (envs st)" for st' v
  proof -
    from that have "entries_of ''PATH'' st' = [''PATH='' @ v]"
      by (intro cleanAppImageEnv_PATH [of st]) auto
    then show ?thesis
      by (simp add: LookupEnv_entries entry_value_def)
  qed
  have d: "cleanAppImageEnv st = (None, st)" if "LookupEnv ''APPIMAGE'' st = None"
    using that by (simp add: cleanAppImageEnv_def)
  show ?thesis
    using a b c c' d by blast
qed

theorem cleanAppImageEnv_scrub_witness:
  "cleanAppImageEnv ex_os = (None, ex_os\<lparr>envs := [''PATH=/usr/bin''], cwd := ''/home/robot''\<rparr>)
   \<and> LookupEnv ''PATH'' (snd (cleanAppImageEnv ex_os)) = Some ''/usr/bin''
   \<and> LookupEnv ''APPRUN_ORIGINAL_PATH'' (snd (cleanAppImageEnv ex_os)) = None
   \<and> LookupEnv ''PATH'' (snd (cleanAppImageEnv ex_os_full)) = Some ''/usr/bin''
   \<and> LookupEnv ''APPDIR'' (snd (cleanAppImageEnv ex_os_full)) = None
   \<and> cwd (snd (cleanAppImageEnv ex_os_full)) = ''/home/robot''
   \<and> LookupEnv ''PATH'' (snd (cleanAppImageEnv ex_os_tools)) = Some ''/usr/local/bin:/usr/bin''
   \<and> cleanAppImageEnv (ex_os\<lparr>envs := [''PATH=/usr/bin'']\<rparr>)
       = (None, ex_os\<lparr>envs := [''PATH=/usr/bin'']\<rparr>)"
proof -
  have h: "dir_ok ex_os ''/home/robot'' \<and> envs ex_os = [''APPIMAGE='' @ ''/opt/viam-server.AppImage'',
      ''APPRUN_CWD='' @ ''/home/robot'', ''APPRUN_ORIGINAL_PATH=/usr/bin'',
      ''PATH=/tmp/.mount_x/bin:/usr/bin'']"
    by (simp add: ex_os_def)
  note t = cleanAppImageEnv_scrub [of ex_os "''/home/robot''" "''/opt/viam-server.AppImage''"]
  from t h have a: "cleanAppImageEnv ex_os
      = (None, ex_os\<lparr>envs := [''PATH=/usr/bin''], cwd := ''/home/robot''\<rparr>)"
    and b: "LookupEnv ''PATH'' (snd (cleanAppImageEnv ex_os)) = Some ''/usr/bin''"
    by blast+
  have app: "LookupEnv ''APPIMAGE'' ex_os \<noteq> None"
    by (simp add: ex_os_def LookupEnv_def is_entry_of_def has_eq_def entry_key_def)
  have s: "scrubbed ''APPRUN_ORIGINAL_PATH''"
    by (simp add: scrubbed_def is_appimage_var_def HasPrefix_def)
  from t app a s have c: "LookupEnv ''APPRUN_ORIGINAL_PATH'' (snd (cleanAppImageEnv ex_os)) = None"
    by (metis snd_conv)
  have fapp: "LookupEnv ''APPIMAGE'' ex_os_full \<noteq> None"
    by (simp add: ex_os_full_def LookupEnv_def is_entry_of_def has_eq_def entry_key_def)
  have forig: "LookupEnv ''APPRUN_ORIGINAL_PATH'' ex_os_full = Some ''/usr/bin''"
    by (simp add: ex_os_full_def LookupEnv_def is_entry_of_def has_eq_def entry_key_def entry_value_def)
  have fpath: "entries_of ''PATH'' ex_os_full = [''PATH=/tmp/.mount_x/bin:/usr/bin'']"
    by (simp add: ex_os_full_def entries_of_def is_entry_of_def has_eq_def entry_key_def)
  have fnone: "''APPRUN_ORIGINAL_APPRUN_ORIGINAL_PATH'' \<notin> entry_key ` set (envs ex_os_full)"
    by (simp add: ex_os_full_def entry_key_def)
  have frun: "cleanAppImageEnv ex_os_full = (None, snd (cleanAppImageEnv ex_os_full))"
    by (simp add: prod_eq_iff) code_simp
  have fs: "scrubbed ''APPDIR''"
    by (simp add: scrubbed_def is_appimage_var_def HasPrefix_def)
  have fcwd: "Getenv ''APPRUN_CWD'' ex_os_full = ''/home/robot''"
    by (simp add: ex_os_full_def Getenv_def LookupEnv_def is_entry_of_def has_eq_def entry_key_def entry_value_def)
  note u = cleanAppImageEnv_scrub [of ex_os_full "''/home/robot''" "''/opt/viam-server.AppImage''"]
  from u fapp forig fpath fnone frun
  have e: "LookupEnv ''PATH'' (snd (cleanAppImageEnv ex_os_full)) = Some ''/usr/bin''"
    by blast
  from u fapp frun fs have f: "LookupEnv ''APPDIR'' (snd (cleanAppImageEnv ex_os_full)) = None"
    by blast
  from u fapp frun fcwd have g: "cwd (snd (cleanAppImageEnv ex_os_full)) = ''/home/robot''"
    by metis
  have tapp: "LookupEnv ''APPIMAGE'' ex_os_tools \<noteq> None"
    by (simp add: ex_os_tools_def LookupEnv_def is_entry_of_def has_eq_def entry_key_def)
  have torig: "LookupEnv ''APPRUN_ORIGINAL_PATH'' ex_os_tools = Some ''/usr/local/bin:/usr/bin''"
    by (simp add: ex_os_tools_def LookupEnv_def is_entry_of_def has_eq_def entry_key_def entry_value_def)
  have tv: "''/usr/local/bin:/usr/bin'' \<noteq> [] \<and> \<not> Contains ''/usr/local/bin:/usr/bin'' mountPrefix"
    by (simp add: mountPrefix_def HasPrefix_def)
  have tpath: "length (entries_of ''PATH'' ex_os_tools) = 1"
    by (simp add: ex_os_tools_def entries_of_def is_entry_of_def has_eq_def entry_key_def)
  have tnone: "''APPRUN_ORIGINAL_APPRUN_ORIGINAL_PATH'' \<notin> entry_key ` set (envs ex_os_tools)"
    by (simp add: ex_os_tools_def entry_key_def)
  have trun: "cleanAppImageEnv ex_os_tools = (None, snd (cleanAppImageEnv ex_os_tools))"
    by (simp add: prod_eq_iff) code_simp
  from cleanAppImageEnv_scrub [of ex_os_tools "''/home/robot''" "''/opt/viam-server.AppImage''"]
    tapp torig tv tpath tnone trun
  have i: "LookupEnv ''PATH'' (snd (cleanAppImageEnv ex_os_tools)) = Some ''/usr/local/bin:/usr/bin''"
    by blast
  have n: "LookupEnv ''APPIMAGE'' (ex_os\<lparr>envs := [''PATH=/usr/bin'']\<rparr>) = None"
    by (simp add: LookupEnv_def is_entry_of_def has_eq_def entry_key_def)
  have d: "cleanAppImageEnv (ex_os\<lparr>envs := [''PATH=/usr/bin'']\<rparr>)
      = (None, ex_os\<lparr>envs := [''PATH=/usr/bin'']\<rparr>)"
    using cleanAppImageEnv_scrub [of "ex_os\<lparr>envs := [''PATH=/usr/bin'']\<rparr>"] n by blast
  show ?thesis using a b c d e f g i by blast
qed

text \<open>
  The claim as the specification words it gives \<open>PATH=/usr/bin\<close> for every environment with
  the three settings.  The first loop restores every variable that has a saved
  \<open>APPRUN_ORIGINAL_\<close> value, the saved \<open>PATH\<close> included: with
  \<open>APPRUN_ORIGINAL_APPRUN_ORIGINAL_PATH=/evil\<close> listed before it, \<open>APPRUN_ORIGINAL_PATH\<close> is
  overwritten before \<open>PATH\<close> is restored from it, and the run ends without error and with
  \<open>PATH=/evil\<close>.
\<close>

theorem cleanAppImageEnv_PATH_counterexample:
  "LookupEnv ''APPIMAGE'' ex_os_shadowed = Some ''/opt/viam-server.AppImage''
   \<and> LookupEnv ''APPRUN_ORIGINAL_PATH'' ex_os_shadowed = Some ''/usr/bin''
   \<and> LookupEnv ''PATH'' ex_os_shadowed = Some ''/tmp/.mount_x/bin:/usr/bin''
   \<and> fst (cleanAppImageEnv ex_os_shadowed) = None
   \<and> LookupEnv ''PATH'' (snd (cleanAppImageEnv ex_os_shadowed)) = Some ''/evil''"
  by code_simp

section \<open>Properties of the lazily decoded image\<close>

lemma lazy_inv_new: "lazy_inv DecodeImage bs mt (NewLazyEncodedImage bs mt)"
  by (simp add: lazy_inv_def NewLazyEncodedImage_def)

lemma lazy_inv_decode:
  "lazy_inv DecodeImage bs mt lei \<Longrightarrow> lazy_inv DecodeImage bs mt (snd (decode DecodeImage lei))"
  by (auto simp: lazy_inv_def leaves_image_def decode_def decode_body_def Let_def
      split: decode_result.splits option.splits if_splits)

lemma decodeOnce_decode:
  "decodeOnce (snd (decode DecodeImage lei))"
  by (auto simp: decode_def decode_body_def Let_def split: decode_result.splits option.splits)

lemma lazy_inv_call:
  "lazy_inv DecodeImage bs mt lei \<Longrightarrow> lazy_inv DecodeImage bs mt (snd (do_call DecodeImage c lei))"
  using lazy_inv_decode [of DecodeImage bs mt lei]
  by (cases c)
    (auto simp: with_value_def MIMEType_def RawData_def ColorModel_def Bounds_def At_def
      split: outcome.splits option.splits prod.splits if_splits)

lemma lazy_inv_calls:
  "lazy_inv DecodeImage bs mt lei \<Longrightarrow> lazy_inv DecodeImage bs mt (do_calls DecodeImage cs lei)"
  by (induction cs arbitrary: lei) (auto intro: lazy_inv_call)

lemma quiet_call:
  "\<not> decodes c \<Longrightarrow> snd (do_call DecodeImage c lei) = lei"
  by (cases c) (auto simp: decodes_def with_value_def MIMEType_def RawData_def)

text \<open>A call that needs the image fires the \<open>sync.Once\<close>, if it has not fired yet.\<close>

lemma decodeOnce_call:
  assumes "lazy_inv DecodeImage bs mt lei"
  shows "decodeOnce (snd (do_call DecodeImage c lei)) = (decodeOnce lei \<or> decodes c)"
proof (cases "decodes c")
  case False
  then show ?thesis by (simp add: quiet_call)
next
  case True
  have d: "decodeOnce (snd (decode DecodeImage lei))"
    by (rule decodeOnce_decode)
  have "decodeOnce (snd (do_call DecodeImage c lei))"
  proof (cases c)
    case CallBounds
    show ?thesis
    proof (cases "decodedImage lei")
      case None
      then show ?thesis
        using d CallBounds
        by (auto simp: with_value_def Bounds_def split: outcome.splits option.splits prod.splits)
    next
      case (Some img)
      then have "decodeOnce lei"
        using assms by (auto simp: lazy_inv_def split: if_splits)
      then show ?thesis
        using Some CallBounds by (simp add: with_value_def Bounds_def)
    qed
  qed (use True d in \<open>auto simp: decodes_def with_value_def ColorModel_def At_def
      split: outcome.splits option.splits prod.splits\<close>)
  then show ?thesis using True by simp
qed

lemma decodeOnce_calls:
  "lazy_inv DecodeImage bs mt lei \<Longrightarrow>
   decodeOnce (do_calls DecodeImage cs lei) = (decodeOnce lei \<or> (\<exists>c\<in>set cs. decodes c))"
proof (induction cs arbitrary: lei)
  case Nil
  then show ?case by simp
next
  case (Cons c cs)
  have "lazy_inv DecodeImage bs mt (snd (do_call DecodeImage c lei))"
    using Cons.prems by (rule lazy_inv_call)
  from Cons.IH [OF this] decodeOnce_call [OF Cons.prems, of c]
  show ?case by auto
qed

text \<open>
  After a failed decoding the error is stored, and a call that runs \<open>decode()\<close> panics with
  it, from a fresh image as from a decoded one.
\<close>

lemma failed_decode_panics:
  assumes inv: "lazy_inv DecodeImage bs mt lei"
    and fails: "fails_with DecodeImage bs mt err"
  shows "decode DecodeImage lei = (Panic err, snd (decode DecodeImage lei))"
    and "decodeErr (snd (decode DecodeImage lei)) = Some err"
  using assms
  by (auto simp: lazy_inv_def fails_with_def leaves_image_def decode_def decode_body_def Let_def
      split: option.splits if_splits decode_result.splits)

lemma failed_call_panics:
  assumes inv: "lazy_inv DecodeImage bs mt lei"
    and fails: "fails_with DecodeImage bs mt err"
    and c: "decodes c"
    and b: "c = CallBounds \<longrightarrow> leaves_image DecodeImage bs mt = None"
  shows "fst (do_call DecodeImage c lei) = Panic err
     \<and> decodeErr (snd (do_call DecodeImage c lei)) = Some err"
proof -
  obtain lei1 where d: "decode DecodeImage lei = (Panic err, lei1)" and e: "decodeErr lei1 = Some err"
    using failed_decode_panics [OF inv fails] by metis
  show ?thesis
  proof (cases c)
    case CallBounds
    have "decodedImage lei = None"
      using inv b CallBounds by (auto simp: lazy_inv_def split: if_splits)
    then show ?thesis
      using d e CallBounds by (simp add: with_value_def Bounds_def)
  qed (use c d e in \<open>auto simp: decodes_def with_value_def ColorModel_def At_def\<close>)
qed

text \<open>
  When the decoder returned an image with its error, \<open>Bounds\<close> runs \<open>decode()\<close> only while no
  image is stored: the first call that needs the image panics, and \<open>Bounds\<close> returns from then
  on.
\<close>

lemma failed_Bounds:
  assumes inv: "lazy_inv DecodeImage bs mt lei"
    and fails: "fails_with DecodeImage bs mt err"
    and img: "leaves_image DecodeImage bs mt = Some img"
  shows "fst (do_call DecodeImage CallBounds lei) =
     (if decodeOnce lei then Return (ValBounds (img_Bounds img)) else Panic err)"
proof (cases "decodeOnce lei")
  case True
  then have "decodedImage lei = Some img"
    using inv img by (auto simp: lazy_inv_def)
  then show ?thesis
    using True by (simp add: with_value_def Bounds_def)
next
  case False
  then have n: "decodedImage lei = None"
    using inv by (auto simp: lazy_inv_def)
  obtain lei1 where d: "decode DecodeImage lei = (Panic err, lei1)"
    using failed_decode_panics(1) [OF inv fails] by metis
  show ?thesis
    using False n d by (simp add: with_value_def Bounds_def)
qed

text \<open>
  Claim C10, as the code has it.  Take an image made by the constructor from bytes \<open>bs\<close> and
  MIME type \<open>mt\<close>, after any sequence \<open>cs\<close> of calls of its methods.  \<open>MIMEType\<close> and \<open>RawData\<close>
  return \<open>mt\<close> and \<open>bs\<close> and leave the image as it is, so they decode nothing; \<open>DecodeImage\<close> has
  been called at most once, and the \<open>sync.Once\<close> has fired exactly when one of the calls was of
  \<open>ColorModel\<close>, \<open>Bounds\<close> or \<open>At\<close>.  When the decoding fails with an error (returned or
  panicked), every call of \<open>ColorModel\<close> and of \<open>At\<close> panics with that error, which is the one
  the image stores, and so does every call of \<open>Bounds\<close> if the failed decoding left no image.
  If \<open>DecodeImage\<close> returned an image together with the error, \<open>Bounds\<close> panics with the error
  only while nothing has been decoded, and afterwards returns the bounds of that image.
\<close>

theorem LazyEncodedImage_decodes_once:
  "(let lei = do_calls DecodeImage cs (NewLazyEncodedImage bs mt) in
      do_call DecodeImage CallMIMEType lei = (Return (ValString mt), lei)
    \<and> do_call DecodeImage CallRawData lei = (Return (ValBytes bs), lei)
    \<and> decodeCalls lei \<le> 1
    \<and> decodeOnce lei = (\<exists>c\<in>set cs. decodes c)
    \<and> (\<forall>err c. fails_with DecodeImage bs mt err \<and> decodes c
          \<and> (c = CallBounds \<longrightarrow> leaves_image DecodeImage bs mt = None) \<longrightarrow>
          fst (do_call DecodeImage c lei) = Panic err
          \<and> decodeErr (snd (do_call DecodeImage c lei)) = Some err)
    \<and> (\<forall>err img. fails_with DecodeImage bs mt err \<and> leaves_image DecodeImage bs mt = Some img \<longrightarrow>
          fst (do_call DecodeImage CallBounds lei) =
            (if decodeOnce lei then Return (ValBounds (img_Bounds img)) else Panic err)))"
proof -
  define lei where "lei = do_calls DecodeImage cs (NewLazyEncodedImage bs mt)"
  have inv: "lazy_inv DecodeImage bs mt lei"
    unfolding lei_def by (intro lazy_inv_calls lazy_inv_new)
  have m: "do_call DecodeImage CallMIMEType lei = (Return (ValString mt), lei)"
    using inv by (simp add: lazy_inv_def with_value_def MIMEType_def)
  have r: "do_call DecodeImage CallRawData lei = (Return (ValBytes bs), lei)"
    using inv by (simp add: lazy_inv_def with_value_def RawData_def)
  have n: "decodeCalls lei \<le> 1"
    using inv by (auto simp: lazy_inv_def split: if_splits)
  have o: "decodeOnce lei = (\<exists>c\<in>set cs. decodes c)"
    unfolding lei_def using decodeOnce_calls [OF lazy_inv_new, of DecodeImage cs bs mt]
    by (simp add: NewLazyEncodedImage_def)
  have p: "fst (do_call DecodeImage c lei) = Panic err
      \<and> decodeErr (snd (do_call DecodeImage c lei)) = Some err"
    if "fails_with DecodeImage bs mt err" and "decodes c"
      and "c = CallBounds \<longrightarrow> leaves_image DecodeImage bs mt = None" for err c
    using failed_call_panics [OF inv that] .
  have b: "fst (do_call DecodeImage CallBounds lei) =
      (if decodeOnce lei then Return (ValBounds (img_Bounds img)) else Panic err)"
    if "fails_with DecodeImage bs mt err" and "leaves_image DecodeImage bs mt = Some img" for err img
    using failed_Bounds [OF inv that] .
  show ?thesis
    unfolding lei_def [symmetric] Let_def using m r n o p b by blast
qed

theorem LazyEncodedImage_decodes_once_witness:
  "decodeCalls (do_calls ex_decode [CallBounds, CallMIMEType, CallAt 0 0]
      (NewLazyEncodedImage [137, 80] ''image/png'')) \<le> 1
   \<and> fst (do_call ex_decode CallBounds
        (do_calls ex_decode [CallBounds, CallMIMEType, CallAt 0 0]
          (NewLazyEncodedImage [137, 80] ''image/png''))) = Panic ''unknown format''
   \<and> decodeErr (snd (do_call ex_decode CallColorModel
        (do_calls ex_decode [CallBounds, CallMIMEType, CallAt 0 0]
          (NewLazyEncodedImage [137, 80] ''image/png'')))) = Some ''unknown format''"
proof -
  have f: "fails_with ex_decode [137, 80] ''image/png'' ''unknown format''"
    by (simp add: fails_with_def ex_decode_def)
  have l: "leaves_image ex_decode [137, 80] ''image/png'' = None"
    by (simp add: leaves_image_def ex_decode_def)
  have d: "decodes CallColorModel" "decodes CallBounds"
    by (simp_all add: decodes_def)
  note t = LazyEncodedImage_decodes_once [of ex_decode "[CallBounds, CallMIMEType, CallAt 0 0]"
      "[137, 80]" "''image/png''", unfolded Let_def]
  from t have a: "decodeCalls (do_calls ex_decode [CallBounds, CallMIMEType, CallAt 0 0]
      (NewLazyEncodedImage [137, 80] ''image/png'')) \<le> 1"
    by blast
  from t f l d(2) have b: "fst (do_call ex_decode CallBounds
        (do_calls ex_decode [CallBounds, CallMIMEType, CallAt 0 0]
          (NewLazyEncodedImage [137, 80] ''image/png''))) = Panic ''unknown format''"
    by blast
  from t f d(1) have c: "decodeErr (snd (do_call ex_decode CallColorModel
        (do_calls ex_decode [CallBounds, CallMIMEType, CallAt 0 0]
          (NewLazyEncodedImage [137, 80] ''image/png'')))) = Some ''unknown format''"
    by blast
  show ?thesis using a b c by blast
qed

text \<open>
  The claim as the specification words it, "every such call after a failed decode panics with
  the same stored error", does not hold of \<open>Bounds\<close>.  With a decoder that returns an image
  together with an error, the first \<open>Bounds\<close> panics with the error and stores both; the
  second \<open>Bounds\<close> finds the image, skips \<open>decode()\<close> and returns, while \<open>ColorModel\<close> on the
  same image still panics.
\<close>

theorem LazyEncodedImage_Bounds_counterexample:
  "fst (do_call ex_decode_partial CallBounds (NewLazyEncodedImage [137, 80] ''image/png''))
     = Panic ''unexpected EOF''
   \<and> decodeErr (do_calls ex_decode_partial [CallBounds] (NewLazyEncodedImage [137, 80] ''image/png''))
     = Some ''unexpected EOF''
   \<and> fst (do_call ex_decode_partial CallBounds
        (do_calls ex_decode_partial [CallBounds] (NewLazyEncodedImage [137, 80] ''image/png'')))
     = Return (ValBounds (0, 0, 2, 2))
   \<and> fst (do_call ex_decode_partial CallColorModel
        (do_calls ex_decode_partial [CallBounds] (NewLazyEncodedImage [137, 80] ''image/png'')))
     = Panic ''unexpected EOF''"
  by (simp add: ex_decode_partial_def ex_image_def NewLazyEncodedImage_def with_value_def
      Bounds_def ColorModel_def decode_def decode_body_def Let_def)

end
